(* ===== verification/Prelude.thy ===== *)
theory Prelude
  imports Main "HOL-Library.Word" "HOL-Library.Monad_Syntax"
begin

text \<open>
  Shared vocabulary of the development: the fixed-width integers of the C++ sources, the
  two ways in which a C++ function can fail to return normally, the sequencing combinator
  for such functions, the little-endian layout of integers in packed structs, and the
  \<open>resize\<close> of a byte vector.  The collections declared here gather the facts that the
  component theories hand to the simplifier.
\<close>

named_theorems io_simps \<open>unfolding rules of the environment calls\<close>
named_theorems layout_simps \<open>lengths and round trips of byte layouts\<close>

type_synonym byte = "8 word"
type_synonym u16 = "16 word"
type_synonym u32 = "32 word"

section \<open>Abnormal termination\<close>

text \<open>
  \<open>Panic\<close> is \<open>Log::panic\<close> (an \<open>abort\<close>); \<open>Undefined\<close> is a step whose C++ meaning is
  undefined (an invalid iterator, a null dereference, an out-of-range read).
\<close>

datatype fault = Panic | Undefined

type_synonym 'a outcome = "fault + 'a"

definition andThen :: "'e + 'a \<Rightarrow> ('a \<Rightarrow> 'e + 'b) \<Rightarrow> 'e + 'b" where
  "andThen m f = (case m of Inl e \<Rightarrow> Inl e | Inr x \<Rightarrow> f x)"

lemma andThen_simps [simp]:
  "andThen (Inl e) f = Inl e"
  "andThen (Inr x) f = f x"
  by (simp_all add: andThen_def)

lemma andThen_eq_Inr: "andThen m f = Inr y \<longleftrightarrow> (\<exists>x. m = Inr x \<and> f x = Inr y)"
  by (cases m) auto

lemma andThen_eq_Inl: "andThen m f = Inl e \<longleftrightarrow> m = Inl e \<or> (\<exists>x. m = Inr x \<and> f x = Inl e)"
  by (cases m) auto

section \<open>Environment calls\<close>

text \<open>
  The kernel, the modem and every other party behind a system call is an arbitrary function
  from the history of calls (newest first) and the call made to the response.  A modelled
  function threads the history, so its trace of calls is part of its result.
\<close>

type_synonym ('c, 'r) environment = "'c list \<Rightarrow> 'c \<Rightarrow> 'r"

definition call :: "('c, 'r) environment \<Rightarrow> 'c \<Rightarrow> 'c list \<Rightarrow> 'r \<times> 'c list" where
  "call env c h = (env h c, c # h)"

lemma call_simps [simp, io_simps]:
  "fst (call env c h) = env h c"
  "snd (call env c h) = c # h"
  by (simp_all add: call_def)

section \<open>Byte vectors\<close>

definition resize :: "nat \<Rightarrow> byte list \<Rightarrow> byte list" where
  "resize n xs = take n xs @ replicate (n - length xs) 0"

lemma length_resize [simp, layout_simps]: "length (resize n xs) = n"
  by (simp add: resize_def)

lemma resize_same [simp]: "length xs = n \<Longrightarrow> resize n xs = xs"
  by (simp add: resize_def)

lemma take_resize: "k \<le> n \<Longrightarrow> k \<le> length xs \<Longrightarrow> take k (resize n xs) = take k xs"
  by (simp add: resize_def min_def)

section \<open>Little-endian integers\<close>

definition le16 :: "u16 \<Rightarrow> byte list" where
  "le16 w = [ucast w, ucast (drop_bit 8 w)]"

definition le32 :: "u32 \<Rightarrow> byte list" where
  "le32 w = [ucast w, ucast (drop_bit 8 w), ucast (drop_bit 16 w), ucast (drop_bit 24 w)]"

fun de16 :: "byte list \<Rightarrow> u16" where
  "de16 (a # b # _) = or (ucast a) (push_bit 8 (ucast b))"
| "de16 _ = 0"

fun de32 :: "byte list \<Rightarrow> u32" where
  "de32 (a # b # c # d # _) =
     or (or (ucast a) (push_bit 8 (ucast b))) (or (push_bit 16 (ucast c)) (push_bit 24 (ucast d)))"
| "de32 _ = 0"

lemma length_le [simp, layout_simps]: "length (le16 w) = 2" "length (le32 v) = 4"
  by (simp_all add: le16_def le32_def)

lemma de16_le16 [simp, layout_simps]: "de16 (le16 w @ xs) = w"
  by (rule bit_word_eqI)
    (auto simp: le16_def bit_simps not_less)

lemma de32_le32 [simp, layout_simps]: "de32 (le32 w @ xs) = w"
proof (rule bit_word_eqI)
  fix n
  assume "n < LENGTH(32)"
  then consider "n < 8" | "8 \<le> n" "n < 16" | "16 \<le> n" "n < 24" | "24 \<le> n" "n < 32"
    by (cases "n < 8"; cases "n < 16"; cases "n < 24") (auto simp: not_less)
  then show "bit (de32 (le32 w @ xs)) n = bit w n"
    by cases (auto simp: le32_def bit_simps)
qed

lemma bit_byte_beyond [simp]: "8 \<le> n \<Longrightarrow> \<not> bit (b :: byte) n"
  using bit_imp_le_length [of b n] by auto

lemma le16_de16: "le16 (de16 [a, b]) = [a, b]"
  by (auto simp: le16_def bit_simps intro!: bit_word_eqI)

lemma le32_de32: "le32 (de32 [a, b, c, d]) = [a, b, c, d]"
  by (auto simp: le32_def bit_simps intro!: bit_word_eqI)

lemma le16_de16_bytes [simp, layout_simps]: "length bs = 2 \<Longrightarrow> le16 (de16 bs) = bs"
  by (auto simp: numeral_2_eq_2 length_Suc_conv le16_de16 simp del: de16.simps)

lemma le32_de32_bytes [simp, layout_simps]: "length bs = 4 \<Longrightarrow> le32 (de32 bs) = bs"
  by (auto simp: numeral_eq_Suc length_Suc_conv le32_de32 simp del: de32.simps)

lemma de_le [simp, layout_simps]: "de16 (le16 w) = w" "de32 (le32 v) = v"
  using de16_le16 [of w "[]"] de32_le32 [of v "[]"] by simp_all

end
