(* ===== verification/Kernel.thy ===== *)
theory Kernel
  imports Prelude
begin

text \<open>
  The kernel as the Android HAL sees it, and the wrapper \<open>NativeFile\<close> around a file descriptor
  (libandroidhal/NativeFile.cpp).  The kernel is a parameter: its answers are arbitrary functions
  of the calls made before and of the call itself.  A failing call answers \<open>Inl errno\<close>, where the
  source sees -1 and \<open>errno\<close>.
\<close>

section \<open>System calls\<close>

text \<open>A \<open>std::string\<close> is a byte sequence that may hold NUL; the kernel gets it up to the first NUL.\<close>

type_synonym path = "byte list"

definition lit :: "string \<Rightarrow> path" where "lit s = map (\<lambda>c. of_nat (of_char c)) s"

definition c_str :: "path \<Rightarrow> path" where "c_str s = takeWhile (\<lambda>b. b \<noteq> 0) s"

text \<open>\<open>errno\<close> after a failed call is positive: the type of the positive numbers.\<close>

type_synonym errno = num

datatype ioctl_request = IOCTL_MODEM_ON | IOCTL_MODEM_OFF | IOCTL_LINK_CONTROL_ENABLE bool
  | IOCTL_LINK_CONTROL_ACTIVE bool | IOCTL_LINK_CONNECTED | IOCTL_LINK_GET_HOSTWAKE

datatype syscall =
    SysAccess path
  | SysOpen path int
  | SysClose int
  | SysRead int nat
  | SysWrite int "byte list"
  | SysPread int nat int
  | SysPwrite int "byte list" int
  | SysLseek int int int
  | SysFstat int
  | SysFtruncate int int
  | SysFsync int
  | SysSendfile int int nat nat
  | SysRename path path
  | SysUnlink path
  | SysMkdir path
  | SysRmdir path
  | SysOpendir path
  | SysReaddir nat
  | SysClosedir nat
  | SysIoctl int ioctl_request
  | SysSelect int int
  | SysUsleep nat

record stat_buf =
  st_is_dir :: bool
  st_size :: nat
  st_ctime :: int
  st_mtime :: int

text \<open>
  What a call returns: a number, the bytes it stores (never more than were asked for), a
  \<open>struct stat\<close>, or a directory entry.
\<close>

record kernel =
  k_int :: "(syscall, errno + nat) environment"
  k_data :: "(syscall, errno + byte list) environment"
  k_stat :: "(syscall, errno + stat_buf) environment"
  k_dirent :: "(syscall, errno + path option) environment"

type_synonym history = "syscall list"

definition sys :: "kernel \<Rightarrow> syscall \<Rightarrow> history \<Rightarrow> (errno + nat) \<times> history" where
  "sys k c h = call (k_int k) c h"

definition sys_data :: "kernel \<Rightarrow> syscall \<Rightarrow> nat \<Rightarrow> history \<Rightarrow> (errno + byte list) \<times> history" where
  "sys_data k c n h =
     (case call (k_data k) c h of
        (Inl e, h) \<Rightarrow> (Inl e, h)
      | (Inr bytes, h) \<Rightarrow> (Inr (take n bytes), h))"

definition O_RDONLY :: int where "O_RDONLY = 0"
definition O_WRONLY :: int where "O_WRONLY = 1"
definition O_RDWR :: int where "O_RDWR = 2"
definition O_CREAT :: int where "O_CREAT = 0x40"
definition O_TRUNC :: int where "O_TRUNC = 0x200"
definition SEEK_END :: int where "SEEK_END = 2"

definition EBADF :: int where "EBADF = 9"
definition EACCES :: int where "EACCES = 13"
definition EEXIST :: errno where "EEXIST = num_of_nat 17"
definition ERANGE :: int where "ERANGE = 34"

text \<open>A call whose failure is \<open>Log::panicErrno\<close>.\<close>

definition or_panic :: "(errno + 'a) \<times> history \<Rightarrow> ('a \<times> history) outcome" where
  "or_panic r = (case r of (Inl e, h) \<Rightarrow> Inl Panic | (Inr v, h) \<Rightarrow> Inr (v, h))"

lemma or_panic_eq_Inr: "or_panic r = Inr (v, h) \<longleftrightarrow> r = (Inr v, h)"
  by (cases r) (auto simp: or_panic_def split: sum.splits)

lemma snd_sys [io_simps]: "snd (sys k c h) = c # h" "fst (sys k c h) = k_int k h c"
  by (simp_all add: sys_def)

lemma snd_sys_data [io_simps]: "snd (sys_data k c n h) = c # h"
  by (simp add: sys_data_def call_def split: sum.splits)

lemma sys_eq [io_simps]: "sys k c h = (k_int k h c, c # h)"
  by (simp add: sys_def call_def)

section \<open>NativeFile\<close>

text \<open>
  The reference count of \<open>NativeFileData\<close> closes the descriptor when the last copy goes out of
  scope: at the end of each of the functions below.
\<close>

definition NativeFile_open :: "kernel \<Rightarrow> path \<Rightarrow> int \<Rightarrow> history \<Rightarrow> (int \<times> history) outcome" where
  "NativeFile_open k file flags h =
     andThen (or_panic (sys k (SysOpen (c_str file) flags) h)) (\<lambda>(fd, h). Inr (int fd, h))"

definition NativeFile_read :: "kernel \<Rightarrow> int \<Rightarrow> nat \<Rightarrow> history \<Rightarrow> (byte list \<times> history) outcome" where
  "NativeFile_read k fd n h = or_panic (sys_data k (SysRead fd n) n h)"

definition NativeFile_write :: "kernel \<Rightarrow> int \<Rightarrow> byte list \<Rightarrow> history \<Rightarrow> (nat \<times> history) outcome" where
  "NativeFile_write k fd data h = or_panic (sys k (SysWrite fd data) h)"

definition NativeFile_seek :: "kernel \<Rightarrow> int \<Rightarrow> int \<Rightarrow> int \<Rightarrow> history \<Rightarrow> (nat \<times> history) outcome" where
  "NativeFile_seek k fd offset whence h = or_panic (sys k (SysLseek fd offset whence) h)"

definition NativeFile_pread :: "kernel \<Rightarrow> int \<Rightarrow> nat \<Rightarrow> int \<Rightarrow> history \<Rightarrow> (byte list \<times> history) outcome" where
  "NativeFile_pread k fd n offset h = or_panic (sys_data k (SysPread fd n offset) n h)"

definition NativeFile_pwrite ::
    "kernel \<Rightarrow> int \<Rightarrow> byte list \<Rightarrow> int \<Rightarrow> history \<Rightarrow> (nat \<times> history) outcome"
where
  "NativeFile_pwrite k fd data offset h = or_panic (sys k (SysPwrite fd data offset) h)"

definition NativeFile_sync :: "kernel \<Rightarrow> int \<Rightarrow> history \<Rightarrow> (nat \<times> history) outcome" where
  "NativeFile_sync k fd h = or_panic (sys k (SysFsync fd) h)"

definition NativeFile_get :: "kernel \<Rightarrow> path \<Rightarrow> history \<Rightarrow> (byte list \<times> history) outcome" where
  "NativeFile_get k filename h =
     andThen (NativeFile_open k filename O_RDONLY h) (\<lambda>(file, h).
     andThen (NativeFile_seek k file 0 SEEK_END h) (\<lambda>(n, h).
     andThen (NativeFile_pread k file n 0 h) (\<lambda>(data, h).
     Inr (data, SysClose file # h))))"

definition NativeFile_put ::
    "kernel \<Rightarrow> path \<Rightarrow> byte list \<Rightarrow> bool \<Rightarrow> history \<Rightarrow> history outcome"
where
  "NativeFile_put k filename data sync h =
     andThen (NativeFile_open k filename (O_WRONLY + O_TRUNC + O_CREAT) h) (\<lambda>(file, h).
     andThen (NativeFile_write k file data h) (\<lambda>(n, h).
     andThen (if sync then NativeFile_sync k file h else Inr (0, h)) (\<lambda>(z, h).
     Inr (SysClose file # h))))"

section \<open>Traces\<close>

text \<open>The calls that a step adds to the history all satisfy \<open>P\<close>.\<close>

definition emits :: "(syscall \<Rightarrow> bool) \<Rightarrow> history \<Rightarrow> history \<Rightarrow> bool" where
  "emits P h h' \<longleftrightarrow> (\<exists>cs. h' = cs @ h \<and> list_all P cs)"

lemma emits_refl [simp, intro]: "emits P h h"
  by (simp add: emits_def)

lemma emits_trans: "emits P h h1 \<Longrightarrow> emits P h1 h2 \<Longrightarrow> emits P h h2"
  by (auto simp: emits_def)

lemma emits_Cons [simp]: "emits P h (c # h) \<longleftrightarrow> P c"
  by (auto simp: emits_def)

lemma emits_step [intro]: "emits P h h' \<Longrightarrow> P c \<Longrightarrow> emits P h (c # h')"
  by (auto simp: emits_def intro: exI [of _ "c # _"])

lemma emits_mono: "emits P h h' \<Longrightarrow> (\<And>c. P c \<Longrightarrow> Q c) \<Longrightarrow> emits Q h h'"
  by (auto simp: emits_def list_all_iff)

end
