(* ===== verification/USB_Transport.thy ===== *)
theory USB_Transport
  imports Kernel
begin

text \<open>
  The USB link to the modem (libandroidhal/USBIPCTransport.cpp, USBIPCSocket.cpp and
  SysfsControlledDevice.cpp): sockets on the character devices of the driver, and switching the
  link with polls that are bounded in number and time.
\<close>

section \<open>Sysfs\<close>

definition Sysfs_read :: "kernel \<Rightarrow> path \<Rightarrow> path \<Rightarrow> history \<Rightarrow> (byte list \<times> history) outcome" where
  "Sysfs_read k path filename h =
     andThen (NativeFile_open k (path @ lit ''/'' @ filename) O_RDONLY h) (\<lambda>(file, h).
     andThen (NativeFile_read k file 1024 h) (\<lambda>(data, h). Inr (data, SysClose file # h)))"

definition Sysfs_write :: "kernel \<Rightarrow> path \<Rightarrow> path \<Rightarrow> byte list \<Rightarrow> history \<Rightarrow> history outcome" where
  "Sysfs_write k path filename data h =
     andThen (NativeFile_open k (path @ lit ''/'' @ filename) O_WRONLY h) (\<lambda>(file, h).
     andThen (NativeFile_write k file data h) (\<lambda>(n, h). Inr (SysClose file # h)))"

section \<open>The transport and its sockets\<close>

text \<open>
  A socket object lives at an address; its file is closed (\<open>None\<close>) by \<open>close\<close>.  The transport
  remembers the first boot socket until it is destroyed.
\<close>

record usb_transport =
  t_directory :: path
  t_ehci :: path
  t_control :: int
  t_sockets :: "(nat \<times> int option) list"
  t_boot :: "nat option"
  t_history :: history

datatype usb_channel = Boot | IPC | Loopback | RamDump | RFS

fun channel_device :: "usb_channel \<Rightarrow> path" where
  "channel_device Boot = lit ''umts_boot0''"
| "channel_device IPC = lit ''umts_ipc0''"
| "channel_device Loopback = lit ''umts_loopback0''"
| "channel_device RamDump = lit ''umts_ramdump0''"
| "channel_device RFS = lit ''umts_rfs0''"

definition USBIPCTransport :: "kernel \<Rightarrow> path \<Rightarrow> path \<Rightarrow> history \<Rightarrow> usb_transport outcome" where
  "USBIPCTransport k directory ehci h =
     andThen (NativeFile_open k (directory @ lit ''link_pm'') O_RDWR h) (\<lambda>(fd, h).
       Inr \<lparr>t_directory = directory, t_ehci = ehci, t_control = fd, t_sockets = [], t_boot = None,
            t_history = h\<rparr>)"

text \<open>The control file is closed with its object.\<close>

definition USBIPCTransport_destroy :: "usb_transport \<Rightarrow> history" where
  "USBIPCTransport_destroy t = SysClose (t_control t) # t_history t"

text \<open>A new socket gets an address that no other socket has.\<close>

definition createSocket ::
    "kernel \<Rightarrow> usb_channel \<Rightarrow> usb_transport \<Rightarrow> (nat \<times> usb_transport) outcome"
where
  "createSocket k channel t =
     andThen (NativeFile_open k (t_directory t @ channel_device channel) O_RDWR (t_history t)) (\<lambda>(fd, h).
       let a = Suc (fold max (map fst (t_sockets t)) 0) in
       Inr (a, t\<lparr>t_sockets := (a, Some fd) # t_sockets t,
                 t_boot := (if channel = Boot \<and> t_boot t = None then Some a else t_boot t),
                 t_history := h\<rparr>))"

text \<open>\<open>fd()\<close>, and every other operation of a socket, panics when the socket was closed.\<close>

definition socket_fd :: "nat \<Rightarrow> usb_transport \<Rightarrow> int outcome" where
  "socket_fd a t =
     (case map_of (t_sockets t) a of
        None \<Rightarrow> Inl Undefined | Some None \<Rightarrow> Inl Panic | Some (Some fd) \<Rightarrow> Inr fd)"

definition socket_send :: "kernel \<Rightarrow> nat \<Rightarrow> byte list \<Rightarrow> usb_transport \<Rightarrow> (nat \<times> usb_transport) outcome" where
  "socket_send k a data t =
     andThen (socket_fd a t) (\<lambda>fd.
     andThen (NativeFile_write k fd data (t_history t)) (\<lambda>(n, h). Inr (n, t\<lparr>t_history := h\<rparr>)))"

text \<open>A timeout of -1 waits in \<open>read\<close>; otherwise \<open>select\<close> may report that there is nothing.\<close>

definition socket_recv ::
    "kernel \<Rightarrow> nat \<Rightarrow> nat \<Rightarrow> int \<Rightarrow> usb_transport \<Rightarrow> (byte list \<times> usb_transport) outcome"
where
  "socket_recv k a n timeout t =
     andThen (socket_fd a t) (\<lambda>fd.
     andThen (if timeout \<noteq> - 1 then or_panic (sys k (SysSelect fd timeout) (t_history t))
              else Inr (1, t_history t)) (\<lambda>(ready, h).
       if ready = 0 then Inr ([], t\<lparr>t_history := h\<rparr>)
       else andThen (NativeFile_read k fd n h) (\<lambda>(data, h). Inr (data, t\<lparr>t_history := h\<rparr>))))"

definition set_socket :: "nat \<Rightarrow> int option \<Rightarrow> usb_transport \<Rightarrow> usb_transport" where
  "set_socket a file t =
     t\<lparr>t_sockets := map (\<lambda>(b, f). (b, if b = a then file else f)) (t_sockets t)\<rparr>"

definition socket_close :: "nat \<Rightarrow> usb_transport \<Rightarrow> usb_transport outcome" where
  "socket_close a t =
     andThen (socket_fd a t) (\<lambda>fd.
       Inr ((set_socket a None t)\<lparr>t_history := SysClose fd # t_history t\<rparr>))"

definition socketDestroyed :: "nat \<Rightarrow> usb_transport \<Rightarrow> usb_transport" where
  "socketDestroyed a t = (if t_boot t = Some a then t\<lparr>t_boot := None\<rparr> else t)"

text \<open>The destructor closes the file if it is still open.\<close>

definition socket_destroy :: "nat \<Rightarrow> usb_transport \<Rightarrow> usb_transport outcome" where
  "socket_destroy a t =
     (case map_of (t_sockets t) a of
        None \<Rightarrow> Inl Undefined
      | Some file \<Rightarrow>
          (let t = (case file of None \<Rightarrow> t | Some fd \<Rightarrow> t\<lparr>t_history := SysClose fd # t_history t\<rparr>)
           in Inr (socketDestroyed a (t\<lparr>t_sockets := filter (\<lambda>(b, f). b \<noteq> a) (t_sockets t)\<rparr>))))"

section \<open>Switching the link\<close>

definition ioctl :: "kernel \<Rightarrow> int \<Rightarrow> ioctl_request \<Rightarrow> history \<Rightarrow> (nat \<times> history) outcome" where
  "ioctl k fd request h = or_panic (sys k (SysIoctl fd request) h)"

definition setLink :: "kernel \<Rightarrow> bool \<Rightarrow> bool \<Rightarrow> usb_transport \<Rightarrow> usb_transport outcome" where
  "setLink k up keepModem t =
     andThen
       (if keepModem then Inr (t_history t)
        else case t_boot t of
          None \<Rightarrow> Inl Panic
        | Some a \<Rightarrow>
            andThen (socket_fd a t) (\<lambda>fd.
            andThen (ioctl k fd (if up then IOCTL_MODEM_ON else IOCTL_MODEM_OFF) (t_history t))
              (\<lambda>(ret, h). Inr h))) (\<lambda>h.
     andThen (ioctl k (t_control t) (IOCTL_LINK_CONTROL_ENABLE up) h) (\<lambda>(ret, h).
     andThen (Sysfs_write k (t_ehci t) (lit ''ehci_power'') (if up then lit ''1'' else lit ''0'') h) (\<lambda>h.
     andThen (ioctl k (t_control t) (IOCTL_LINK_CONTROL_ACTIVE up) h) (\<lambda>(ret, h).
       Inr (t\<lparr>t_history := h\<rparr>)))))"

definition isLinkUp :: "kernel \<Rightarrow> usb_transport \<Rightarrow> (bool \<times> usb_transport) outcome" where
  "isLinkUp k t =
     andThen (ioctl k (t_control t) IOCTL_LINK_CONNECTED (t_history t)) (\<lambda>(ret, h).
       Inr (ret \<noteq> 0, t\<lparr>t_history := h\<rparr>))"

definition isWokenUp :: "kernel \<Rightarrow> usb_transport \<Rightarrow> (bool \<times> usb_transport) outcome" where
  "isWokenUp k t =
     andThen (ioctl k (t_control t) IOCTL_LINK_GET_HOSTWAKE (t_history t)) (\<lambda>(ret, h).
       Inr (ret = 0, t\<lparr>t_history := h\<rparr>))"

definition usleep :: "nat \<Rightarrow> usb_transport \<Rightarrow> usb_transport" where
  "usleep n t = t\<lparr>t_history := SysUsleep n # t_history t\<rparr>"

text \<open>
  The polling loop of \<open>waitForWakeup\<close> and \<open>toggleTransport\<close>: \<open>tries\<close> is the counter before the
  test; a failed test decrements it and gives up at zero.
\<close>

fun poll :: "nat \<Rightarrow> (usb_transport \<Rightarrow> (bool \<times> usb_transport) outcome) \<Rightarrow> usb_transport \<Rightarrow>
    (bool \<times> usb_transport) outcome"
where
  "poll 0 test t = Inr (False, t)"
| "poll (Suc tries) test t =
     andThen (test t) (\<lambda>(ok, t).
       if ok then Inr (True, t)
       else if tries = 0 then Inr (False, t)
       else poll tries test (usleep 500000 t))"

definition waitForWakeup :: "kernel \<Rightarrow> bool \<Rightarrow> usb_transport \<Rightarrow> (bool \<times> usb_transport) outcome" where
  "waitForWakeup k status =
     poll 10 (\<lambda>t. andThen (isWokenUp k t) (\<lambda>(woken, t). Inr (woken = status, t)))"

definition switch_on :: "kernel \<Rightarrow> bool \<Rightarrow> usb_transport \<Rightarrow> (bool \<times> usb_transport) outcome" where
  "switch_on k keep_modem t = andThen (setLink k True keep_modem t) (poll 4 (isLinkUp k))"

definition toggleTransport :: "kernel \<Rightarrow> bool \<Rightarrow> usb_transport \<Rightarrow> (bool \<times> usb_transport) outcome" where
  "toggleTransport k keep_modem t =
     andThen (if keep_modem then waitForWakeup k True t else Inr (True, t)) (\<lambda>(ok, t).
       if \<not> ok then Inr (False, t)
       else andThen (setLink k False keep_modem t) (\<lambda>t.
         andThen (if keep_modem then waitForWakeup k False t else Inr (True, t)) (\<lambda>(ok, t).
           if \<not> ok then andThen (setLink k True True t) (\<lambda>t. Inr (False, t))
           else switch_on k keep_modem t)))"

definition USBIPCTransport_connect :: "kernel \<Rightarrow> usb_transport \<Rightarrow> (bool \<times> usb_transport) outcome" where
  "USBIPCTransport_connect k = toggleTransport k False"

definition USBIPCTransport_redetect :: "kernel \<Rightarrow> usb_transport \<Rightarrow> (bool \<times> usb_transport) outcome" where
  "USBIPCTransport_redetect k = toggleTransport k True"

section \<open>The calls of a switch\<close>

text \<open>The calls of \<open>setLink\<close>, the newest first.\<close>

definition link_trace :: "usb_transport \<Rightarrow> bool \<Rightarrow> int option \<Rightarrow> int \<Rightarrow> history" where
  "link_trace t up boot f =
     [SysIoctl (t_control t) (IOCTL_LINK_CONTROL_ACTIVE up), SysClose f,
      SysWrite f (if up then lit ''1'' else lit ''0''),
      SysOpen (c_str (t_ehci t @ lit ''/'' @ lit ''ehci_power'')) O_WRONLY,
      SysIoctl (t_control t) (IOCTL_LINK_CONTROL_ENABLE up)] @
     (case boot of None \<Rightarrow> []
      | Some fd \<Rightarrow> [SysIoctl fd (if up then IOCTL_MODEM_ON else IOCTL_MODEM_OFF)])"

text \<open>\<open>n\<close> tests with a call \<open>c\<close>, half a second apart.\<close>

fun polls :: "syscall \<Rightarrow> nat \<Rightarrow> history" where
  "polls c 0 = []"
| "polls c (Suc 0) = [c]"
| "polls c (Suc (Suc n)) = c # SysUsleep 500000 # polls c (Suc n)"

definition boot_fd :: "usb_transport \<Rightarrow> int option" where
  "boot_fd t =
     (case t_boot t of None \<Rightarrow> None
      | Some a \<Rightarrow> (case socket_fd a t of Inl e \<Rightarrow> None | Inr fd \<Rightarrow> Some fd))"

definition willing :: "kernel \<Rightarrow> bool" where
  "willing k \<longleftrightarrow> (\<forall>h c. \<exists>n. k_int k h c = Inr n)"

lemma willing_not_Inl: "willing k \<Longrightarrow> k_int k h c \<noteq> Inl e"
  unfolding willing_def by (metis Inl_Inr_False)

lemma ioctl_eq [io_simps]:
  "ioctl k fd r h = (case k_int k h (SysIoctl fd r) of Inl e \<Rightarrow> Inl Panic
     | Inr n \<Rightarrow> Inr (n, SysIoctl fd r # h))"
  by (simp add: ioctl_def or_panic_def io_simps split: sum.splits)

lemmas switch_defs = setLink_def io_simps Sysfs_write_def NativeFile_open_def NativeFile_write_def
  or_panic_def boot_fd_def andThen_def

lemma setLink_trace:
  assumes "setLink k up keepModem t = Inr t'"
  shows "\<exists>f. t' = t\<lparr>t_history :=
      link_trace t up (if keepModem then None else boot_fd t) f @ t_history t\<rparr>
    \<and> (keepModem \<or> boot_fd t \<noteq> None)"
  using assms
  by (auto simp: switch_defs link_trace_def split: if_splits option.splits sum.splits)
    (rule exI, rule refl)+

lemma setLink_willing:
  assumes "willing k" "keepModem \<or> boot_fd t \<noteq> None"
  shows "\<exists>t'. setLink k up keepModem t = Inr t'"
  using assms(2) willing_not_Inl [OF assms(1)]
  by (auto simp: switch_defs split: if_splits option.splits sum.splits)

text \<open>A test that makes the one call \<open>c\<close>, and what \<open>poll\<close> does with it.\<close>

definition tests_with :: "int \<Rightarrow> syscall \<Rightarrow> (history \<Rightarrow> bool) \<Rightarrow>
    (usb_transport \<Rightarrow> (bool \<times> usb_transport) outcome) \<Rightarrow> bool" where
  "tests_with d c says test \<longleftrightarrow>
     (\<forall>t ok t'. t_control t = d \<longrightarrow> test t = Inr (ok, t') \<longrightarrow>
        t' = t\<lparr>t_history := c # t_history t\<rparr> \<and> ok = says (t_history t))"

lemma polls_snoc: "0 < n \<Longrightarrow> polls c n @ [SysUsleep 500000, c] = polls c (Suc n)"
  by (induction c n rule: polls.induct) auto

lemma polls_snoc': "0 < n \<Longrightarrow> polls c n @ SysUsleep 500000 # c # h = polls c (Suc n) @ h"
  using polls_snoc [of n c] by (metis append.assoc append_Cons append_Nil)

lemma poll_trace:
  assumes "tests_with (t_control t) c says test" "poll tries test t = Inr (ok, t')" "0 < tries"
  shows "\<exists>n h. 0 < n \<and> n \<le> tries \<and> c # h = polls c n @ t_history t
    \<and> t' = t\<lparr>t_history := c # h\<rparr> \<and> ok = says h \<and> (\<not> ok \<longrightarrow> n = tries)"
  using assms
proof (induction tries arbitrary: t)
  case 0
  then show ?case by simp
next
  case (Suc tries)
  then obtain b t1 where t1: "test t = Inr (b, t1)" by (auto simp: andThen_eq_Inr)
  with Suc.prems(1) have one: "t1 = t\<lparr>t_history := c # t_history t\<rparr>" "b = says (t_history t)"
    by (auto simp: tests_with_def)
  show ?case
  proof (cases "b \<or> tries = 0")
    case True
    with Suc.prems t1 one show ?thesis
      by (intro exI [of _ "1::nat"] exI [of _ "t_history t"]) (auto split: if_splits)
  next
    case False
    with Suc.prems t1 have "poll tries test (usleep 500000 t1) = Inr (ok, t')" by simp
    moreover have "tests_with (t_control (usleep 500000 t1)) c says test"
      using Suc.prems(1) one by (simp add: usleep_def)
    ultimately obtain n h where n: "0 < n" "n \<le> tries"
        "c # h = polls c n @ t_history (usleep 500000 t1)"
        "t' = (usleep 500000 t1)\<lparr>t_history := c # h\<rparr>" "ok = says h" "\<not> ok \<longrightarrow> n = tries"
      using Suc.IH [of "usleep 500000 t1"] False by blast
    from n(3) have "c # h = polls c (Suc n) @ t_history t"
      by (simp add: usleep_def one polls_snoc' [OF n(1)] del: polls.simps)
    with n show ?thesis
      by (intro exI [of _ "Suc n"] exI [of _ h]) (auto simp: usleep_def one)
  qed
qed

lemma poll_returns:
  assumes "\<And>t. \<exists>ok t'. test t = Inr (ok, t')"
  shows "\<exists>ok t'. poll tries test t = Inr (ok, t')"
proof (induction tries arbitrary: t)
  case (Suc tries)
  obtain ok t' where "test t = Inr (ok, t')" using assms by blast
  then show ?case using Suc by auto
qed auto

abbreviation connected_call :: "int \<Rightarrow> syscall" where
  "connected_call d \<equiv> SysIoctl d IOCTL_LINK_CONNECTED"

abbreviation hostwake_call :: "int \<Rightarrow> syscall" where
  "hostwake_call d \<equiv> SysIoctl d IOCTL_LINK_GET_HOSTWAKE"

lemma isLinkUp_tests:
  "tests_with d (connected_call d) (\<lambda>h. k_int k h (connected_call d) \<noteq> Inr 0) (isLinkUp k)"
  by (auto simp: tests_with_def isLinkUp_def io_simps andThen_def split: sum.splits)

lemma isWokenUp_tests:
  "tests_with d (hostwake_call d) (\<lambda>h. (k_int k h (hostwake_call d) = Inr 0) = status)
     (\<lambda>t. andThen (isWokenUp k t) (\<lambda>(woken, t). Inr (woken = status, t)))"
  by (auto simp: tests_with_def isWokenUp_def io_simps andThen_def split: sum.splits)

lemma waitForWakeup_trace:
  assumes "waitForWakeup k status t = Inr (ok, t')"
  shows "\<exists>n. 0 < n \<and> n \<le> 10 \<and> t' = t\<lparr>t_history := polls (hostwake_call (t_control t)) n @ t_history t\<rparr>"
  using poll_trace [OF isWokenUp_tests assms [unfolded waitForWakeup_def]] by auto

lemma switch_on_trace:
  assumes "switch_on k keepModem t = Inr (ok, t')"
  shows "\<exists>f n h. 0 < n \<and> n \<le> 4
    \<and> connected_call (t_control t) # h = polls (connected_call (t_control t)) n @
        link_trace t True (if keepModem then None else boot_fd t) f @ t_history t
    \<and> t' = t\<lparr>t_history := connected_call (t_control t) # h\<rparr>
    \<and> ok = (k_int k h (connected_call (t_control t)) \<noteq> Inr 0) \<and> (\<not> ok \<longrightarrow> n = 4)"
proof -
  from assms obtain t1 where t1: "setLink k True keepModem t = Inr t1"
      "poll 4 (isLinkUp k) t1 = Inr (ok, t')"
    by (auto simp: switch_on_def andThen_eq_Inr)
  from setLink_trace [OF t1(1)] obtain f where f: "t1 = t\<lparr>t_history :=
      link_trace t True (if keepModem then None else boot_fd t) f @ t_history t\<rparr>" by blast
  from poll_trace [OF isLinkUp_tests t1(2)] f show ?thesis by (intro exI [of _ f]) simp
qed

lemma switch_on_calls:
  assumes "switch_on k keepModem t = Inr (ok, t')"
  shows "\<exists>f n. 0 < n \<and> n \<le> 4
    \<and> t' = t\<lparr>t_history := polls (connected_call (t_control t)) n @
        link_trace t True (if keepModem then None else boot_fd t) f @ t_history t\<rparr>"
  using switch_on_trace [OF assms] by metis

section \<open>Properties of a switch\<close>

text \<open>The state of the link after some calls (the newest first), if they touch it.\<close>

fun link_enabled :: "history \<Rightarrow> bool option" where
  "link_enabled [] = None"
| "link_enabled (SysIoctl d (IOCTL_LINK_CONTROL_ENABLE up) # h) = Some up"
| "link_enabled (c # h) = link_enabled h"

fun powers_modem :: "syscall \<Rightarrow> bool" where
  "powers_modem (SysIoctl d r) = (r = IOCTL_MODEM_ON \<or> r = IOCTL_MODEM_OFF)"
| "powers_modem c = False"

fun sleeps :: "syscall \<Rightarrow> bool" where
  "sleeps (SysUsleep n) = True"
| "sleeps c = False"

definition slept :: "history \<Rightarrow> nat" where "slept h = length (filter sleeps h)"

lemma slept_simps [simp]:
  "slept [] = 0" "slept (c # h) = (if sleeps c then Suc (slept h) else slept h)"
  "slept (h @ h') = slept h + slept h'"
  by (simp_all add: slept_def)

lemma slept_polls [simp]: "\<not> sleeps c \<Longrightarrow> slept (polls c n) = n - 1"
  by (induction c n rule: polls.induct) auto

lemma polls_link [simp]: "link_enabled (polls (SysIoctl d r) n @ h) = link_enabled h"
  if "\<forall>up. r \<noteq> IOCTL_LINK_CONTROL_ENABLE up"
  using that by (induction "SysIoctl d r" n rule: polls.induct; cases r) auto

lemma polls_powers [simp]: "list_all (\<lambda>c. \<not> powers_modem c) (polls c n) \<longleftrightarrow> n = 0 \<or> \<not> powers_modem c"
  by (induction c n rule: polls.induct) auto

lemma link_trace_kept [simp]:
  "link_enabled (link_trace t up None f @ h) = Some up"
  "list_all (\<lambda>c. \<not> powers_modem c) (link_trace t up None f)"
  "slept (link_trace t up boot f) = 0"
  by (simp_all add: link_trace_def split: option.splits)

lemma link_trace_history [simp]: "link_trace (t\<lparr>t_history := h\<rparr>) = link_trace t"
  by (intro ext) (simp add: link_trace_def)

lemma boot_fd_history [simp]: "boot_fd (t\<lparr>t_history := h\<rparr>) = boot_fd t"
  by (simp add: boot_fd_def socket_fd_def split: option.splits)

text \<open>The end of \<open>redetect\<close>: whether the modem answered or not, the link is switched on again.\<close>

lemma redetect_end:
  assumes "(if \<not> woken then andThen (setLink k True True t) (\<lambda>t. Inr (False, t)) else switch_on k True t)
    = Inr (ok, t')"
  shows "\<exists>cs. t' = t\<lparr>t_history := cs @ t_history t\<rparr> \<and> list_all (\<lambda>c. \<not> powers_modem c) cs
    \<and> slept cs \<le> 3 \<and> (\<forall>h. link_enabled (cs @ h) = Some True)"
proof (cases woken)
  case False
  with assms obtain t1 where t1: "setLink k True True t = Inr t1" "t' = t1"
    by (auto simp: andThen_eq_Inr)
  from setLink_trace [OF t1(1)] t1(2) obtain g where
    "t' = t\<lparr>t_history := link_trace t True None g @ t_history t\<rparr>" by auto
  then show ?thesis by (intro exI [of _ "link_trace t True None g"]) auto
next
  case True
  with assms have "switch_on k True t = Inr (ok, t')" by simp
  from switch_on_calls [OF this] obtain g j where j: "0 < j" "j \<le> 4"
    "t' = t\<lparr>t_history := polls (connected_call (t_control t)) j @ link_trace t True None g @ t_history t\<rparr>"
    by auto
  then show ?thesis
    by (intro exI [of _ "polls (connected_call (t_control t)) j @ link_trace t True None g"]) auto
qed

text \<open>C31. Redetecting the modem never powers it off or on, waits at most 21 times half a second, and
  never leaves the link disabled: if the host does not wake up, the link was not touched or is
  enabled again; and when it reports success, the link was enabled last.\<close>

theorem redetect_safe:
  assumes "USBIPCTransport_redetect k t = Inr (ok, t')"
  shows "\<exists>cs. t' = t\<lparr>t_history := cs @ t_history t\<rparr> \<and> list_all (\<lambda>c. \<not> powers_modem c) cs
    \<and> slept cs \<le> 21 \<and> link_enabled cs \<noteq> Some False \<and> (ok \<longrightarrow> link_enabled cs = Some True)"
proof -
  let ?c = "hostwake_call (t_control t)"
  from assms obtain ok1 t1 where w1: "waitForWakeup k True t = Inr (ok1, t1)"
    and rest: "(if \<not> ok1 then Inr (False, t1)
      else andThen (setLink k False True t1) (\<lambda>t.
         andThen (waitForWakeup k False t) (\<lambda>(ok, t).
           if \<not> ok then andThen (setLink k True True t) (\<lambda>t. Inr (False, t))
           else switch_on k True t))) = Inr (ok, t')"
    by (auto simp: USBIPCTransport_redetect_def toggleTransport_def andThen_eq_Inr
        split del: if_split cong: if_cong)
  from waitForWakeup_trace [OF w1] obtain n where n: "0 < n" "n \<le> 10"
    "t1 = t\<lparr>t_history := polls ?c n @ t_history t\<rparr>" by blast
  show ?thesis
  proof (cases ok1)
    case False
    with rest n show ?thesis
      using polls_link [of IOCTL_LINK_GET_HOSTWAKE "t_control t" n "[]"]
      by (intro exI [of _ "polls ?c n"]) auto
  next
    case True
    with rest obtain t2 ok2 t3 where t2: "setLink k False True t1 = Inr t2"
      and w2: "waitForWakeup k False t2 = Inr (ok2, t3)"
      and rest2: "(if \<not> ok2 then andThen (setLink k True True t3) (\<lambda>t. Inr (False, t))
         else switch_on k True t3) = Inr (ok, t')"
      by (simp add: andThen_eq_Inr split del: if_split) blast
    from setLink_trace [OF t2] n obtain f where f: "t2 = t\<lparr>t_history :=
        link_trace t False None f @ polls ?c n @ t_history t\<rparr>" by auto
    from waitForWakeup_trace [OF w2] f obtain m where m: "0 < m" "m \<le> 10"
      "t3 = t\<lparr>t_history := polls ?c m @ link_trace t False None f @ polls ?c n @ t_history t\<rparr>" by auto
    from redetect_end [OF rest2, unfolded m(3)] obtain cs where cs:
      "t' = t\<lparr>t_history := cs @ polls ?c m @ link_trace t False None f @ polls ?c n @ t_history t\<rparr>"
      "list_all (\<lambda>c. \<not> powers_modem c) cs" "slept cs \<le> 3" "\<And>h. link_enabled (cs @ h) = Some True"
      by auto
    with m n show ?thesis
      by (intro exI [of _ "cs @ polls ?c m @ link_trace t False None f @ polls ?c n"]) auto
  qed
qed

text \<open>Connecting with an open boot socket, when no system call fails, returns: it switches the modem and
  the link off and on again, in this order, then asks for the connection at most four times, half a
  second apart; it reports what the last answer said.  Without an open boot socket it panics before
  it makes a call.\<close>

theorem connect_switches:
  assumes "willing k"
  shows "case boot_fd t of
      None \<Rightarrow> USBIPCTransport_connect k t = Inl Panic \<or> USBIPCTransport_connect k t = Inl Undefined
    | Some fd \<Rightarrow> \<exists>ok f g n h. 0 < n \<and> n \<le> 4
        \<and> connected_call (t_control t) # h = polls (connected_call (t_control t)) n @
            link_trace t True (Some fd) g @ link_trace t False (Some fd) f @ t_history t
        \<and> USBIPCTransport_connect k t = Inr (ok, t\<lparr>t_history := connected_call (t_control t) # h\<rparr>)
        \<and> ok = (k_int k h (connected_call (t_control t)) \<noteq> Inr 0) \<and> (\<not> ok \<longrightarrow> n = 4)"
proof (cases "boot_fd t")
  case None
  then show ?thesis
    by (auto simp: USBIPCTransport_connect_def toggleTransport_def setLink_def boot_fd_def socket_fd_def
        split: option.splits sum.splits)
next
  case (Some fd)
  from setLink_willing [OF assms, of False t False] Some obtain t1
    where t1: "setLink k False False t = Inr t1" by auto
  from setLink_trace [OF t1] Some obtain f
    where f: "t1 = t\<lparr>t_history := link_trace t False (Some fd) f @ t_history t\<rparr>" by auto
  with Some have "boot_fd t1 = Some fd" by simp
  with setLink_willing [OF assms, of False t1 True] obtain t2 where t2: "setLink k True False t1 = Inr t2"
    by auto
  have "\<And>t. \<exists>ok t'. isLinkUp k t = Inr (ok, t')"
    using willing_not_Inl [OF assms] by (auto simp: isLinkUp_def io_simps split: sum.splits)
  from poll_returns [of "isLinkUp k", OF this, of 4 t2] obtain ok t'
    where t': "poll 4 (isLinkUp k) t2 = Inr (ok, t')" by blast
  with t2 have s: "switch_on k False t1 = Inr (ok, t')" by (simp add: switch_on_def)
  have r: "USBIPCTransport_connect k t = Inr (ok, t')"
    using t1 s by (simp add: USBIPCTransport_connect_def toggleTransport_def)
  have "link_trace t1 = link_trace t" "t_control t1 = t_control t" "boot_fd t1 = Some fd"
    "t_history t1 = link_trace t False (Some fd) f @ t_history t" "\<And>h. t1\<lparr>t_history := h\<rparr> = t\<lparr>t_history := h\<rparr>"
    by (simp_all add: f Some)
  from switch_on_trace [OF s, unfolded this if_False] obtain g n h where tr: "0 < n" "n \<le> 4"
    "connected_call (t_control t) # h = polls (connected_call (t_control t)) n @
       link_trace t True (Some fd) g @ link_trace t False (Some fd) f @ t_history t"
    "t' = t\<lparr>t_history := connected_call (t_control t) # h\<rparr>"
    "ok = (k_int k h (connected_call (t_control t)) \<noteq> Inr 0)" "\<not> ok \<longrightarrow> n = 4"
    by blast
  show ?thesis
    unfolding Some option.case
    by (rule exI [of _ ok], rule exI [of _ f], rule exI [of _ g], rule exI [of _ n], rule exI [of _ h],
        intro conjI, fact tr(1), fact tr(2), fact tr(3), fact r [unfolded tr(4)], fact tr(5), fact tr(6))
qed

text \<open>
  A modem that answers as the driver documents: it asks for the host while the link is disabled, and
  connects.
\<close>

definition ready_kernel :: kernel where
  "ready_kernel =
     \<lparr>k_int = (\<lambda>h c. case c of
         SysIoctl d IOCTL_LINK_GET_HOSTWAKE \<Rightarrow> Inr (if link_enabled h = Some False then 1 else 0)
       | SysIoctl d r \<Rightarrow> Inr 1
       | SysOpen p f \<Rightarrow> Inr 5
       | c \<Rightarrow> Inr 0),
      k_data = (\<lambda>h c. Inr []), k_stat = (\<lambda>h c. Inl num.One), k_dirent = (\<lambda>h c. Inr None)\<rparr>"

definition ready_transport :: usb_transport where
  "ready_transport = \<lparr>t_directory = lit ''/dev/'', t_ehci = lit ''/sys'', t_control = 3,
     t_sockets = [(1, Some 4)], t_boot = Some 1, t_history = []\<rparr>"

lemma redetect_safe_witness:
  "\<exists>t' cs. USBIPCTransport_redetect ready_kernel ready_transport = Inr (True, t')
    \<and> t' = ready_transport\<lparr>t_history := cs\<rparr> \<and> list_all (\<lambda>c. \<not> powers_modem c) cs
    \<and> slept cs \<le> 21 \<and> link_enabled cs = Some True"
proof -
  have "(case USBIPCTransport_redetect ready_kernel ready_transport of
      Inl e \<Rightarrow> False | Inr (ok, t) \<Rightarrow> ok)"
    by code_simp
  then obtain t' where t': "USBIPCTransport_redetect ready_kernel ready_transport = Inr (True, t')"
    by (auto split: sum.splits)
  from redetect_safe [OF t'] t' show ?thesis by (auto simp: ready_transport_def)
qed

lemma connect_switches_witness:
  "willing ready_kernel \<and> boot_fd ready_transport = Some 4
    \<and> (\<exists>h. USBIPCTransport_connect ready_kernel ready_transport
          = Inr (True, ready_transport\<lparr>t_history := connected_call 3 # h\<rparr>))"
proof -
  have w: "willing ready_kernel"
    by (auto simp: willing_def ready_kernel_def split: syscall.splits ioctl_request.splits)
  have b: "boot_fd ready_transport = Some 4"
    by code_simp
  have a: "k_int ready_kernel h (connected_call (t_control ready_transport)) \<noteq> Inr 0" for h
    by (simp add: ready_kernel_def)
  from connect_switches [OF w, of ready_transport, unfolded b option.case] obtain ok h where
    c: "USBIPCTransport_connect ready_kernel ready_transport
         = Inr (ok, ready_transport\<lparr>t_history := connected_call (t_control ready_transport) # h\<rparr>)"
      "ok = (k_int ready_kernel h (connected_call (t_control ready_transport)) \<noteq> Inr 0)"
    by blast
  moreover have "t_control ready_transport = 3"
    by (simp add: ready_transport_def)
  ultimately show ?thesis
    using w b a by auto
qed

end
