(* ===== verification/Data_Stream.thy ===== *)
theory Data_Stream
  imports Prelude
begin

text \<open>
  The class \<open>DataStream\<close> (libsamsung-ipc/DataStream.cpp, DataStream.h): a cursor over a byte
  vector, in read or in write mode.  \<open>throwException\<close> is a \<open>longjmp\<close> to the handler installed by
  \<open>caughtExceptionHere\<close>; here it is the result \<open>None\<close>.
\<close>

datatype stream_mode = Read | Write

record data_stream =
  m_buffer :: "byte list"
  m_mode :: stream_mode
  m_ptr :: nat

definition DataStream :: "byte list \<Rightarrow> stream_mode \<Rightarrow> data_stream" where
  "DataStream buffer mode = \<lparr>m_buffer = buffer, m_mode = mode, m_ptr = 0\<rparr>"

definition atEnd :: "data_stream \<Rightarrow> bool" where
  "atEnd s \<longleftrightarrow> m_ptr s = length (m_buffer s)"

definition remainingBytes :: "data_stream \<Rightarrow> nat" where
  "remainingBytes s = length (m_buffer s) - m_ptr s"

definition readRawData :: "nat \<Rightarrow> data_stream \<Rightarrow> (byte list \<times> data_stream) option" where
  "readRawData n s =
     (if m_mode s = Write then None
      else if remainingBytes s < n then None
      else Some (take n (drop (m_ptr s) (m_buffer s)), s\<lparr>m_ptr := m_ptr s + n\<rparr>))"

definition writeRawData :: "byte list \<Rightarrow> data_stream \<Rightarrow> data_stream option" where
  "writeRawData data s =
     (if m_mode s = Read then None
      else let buf = take (m_ptr s) (m_buffer s) @ data @ drop (m_ptr s) (m_buffer s)
           in Some (s\<lparr>m_buffer := buf, m_ptr := length buf\<rparr>))"

definition read_u8 :: "data_stream \<Rightarrow> (byte \<times> data_stream) option" where
  "read_u8 s = do { (bs, s') \<leftarrow> readRawData 1 s; Some (hd bs, s') }"

definition read_u16 :: "data_stream \<Rightarrow> (u16 \<times> data_stream) option" where
  "read_u16 s = do { (bs, s') \<leftarrow> readRawData 2 s; Some (de16 bs, s') }"

definition read_u32 :: "data_stream \<Rightarrow> (u32 \<times> data_stream) option" where
  "read_u32 s = do { (bs, s') \<leftarrow> readRawData 4 s; Some (de32 bs, s') }"

definition write_u8 :: "byte \<Rightarrow> data_stream \<Rightarrow> data_stream option" where
  "write_u8 v s = writeRawData [v] s"

definition write_u16 :: "u16 \<Rightarrow> data_stream \<Rightarrow> data_stream option" where
  "write_u16 v s = writeRawData (le16 v) s"

definition write_u32 :: "u32 \<Rightarrow> data_stream \<Rightarrow> data_stream option" where
  "write_u32 v s = writeRawData (le32 v) s"

section \<open>What a read and a write do to the remaining bytes\<close>

text \<open>The bytes a reader has still to see, and the invariant of the cursor.\<close>

definition unread :: "data_stream \<Rightarrow> byte list" where
  "unread s = drop (m_ptr s) (m_buffer s)"

definition cursor_ok :: "data_stream \<Rightarrow> bool" where
  "cursor_ok s \<longleftrightarrow> m_ptr s \<le> length (m_buffer s)"

definition advance :: "nat \<Rightarrow> data_stream \<Rightarrow> data_stream" where
  "advance n s = s\<lparr>m_ptr := m_ptr s + n\<rparr>"

lemma advance_simps [simp]:
  "m_mode (advance n s) = m_mode s"
  "unread (advance n s) = drop n (unread s)"
  "advance 0 s = s"
  "advance m (advance n s) = advance (n + m) s"
  by (simp_all add: advance_def unread_def add.commute add.assoc)

lemma remainingBytes_unread: "remainingBytes s = length (unread s)"
  by (simp add: remainingBytes_def unread_def)

lemma atEnd_unread: "cursor_ok s \<Longrightarrow> atEnd s \<longleftrightarrow> unread s = []"
  by (auto simp: cursor_ok_def atEnd_def unread_def)

lemma readRawData_eq_Some:
  "readRawData n s = Some (bs, s') \<longleftrightarrow>
     m_mode s = Read \<and> n \<le> length (unread s) \<and> bs = take n (unread s) \<and> s' = advance n s"
  using stream_mode.exhaust [of "m_mode s"]
  by (auto simp: readRawData_def remainingBytes_unread unread_def advance_def)

lemma readRawData_append:
  "m_mode s = Read \<Longrightarrow> unread s = xs @ ys \<Longrightarrow> length xs = n \<Longrightarrow>
     readRawData n s = Some (xs, advance n s)"
  by (auto simp: readRawData_eq_Some)

lemma readRawData_Cons:
  "m_mode s = Read \<Longrightarrow> unread s = x # xs \<Longrightarrow>
     readRawData (Suc 0) s = Some ([x], advance (Suc 0) s)"
  by (auto simp: readRawData_eq_Some)

lemma cursor_ok_DataStream [simp]: "cursor_ok (DataStream buf mode)"
  by (simp add: DataStream_def cursor_ok_def)

lemma cursor_ok_advance: "cursor_ok s \<Longrightarrow> n \<le> length (unread s) \<Longrightarrow> cursor_ok (advance n s)"
  by (auto simp: cursor_ok_def advance_def unread_def)

lemma DataStream_simps [simp]:
  "m_mode (DataStream buf mode) = mode"
  "unread (DataStream buf mode) = buf"
  by (simp_all add: DataStream_def unread_def)

text \<open>A writer whose cursor is at the end appends, and leaves it at the end.\<close>

definition appending :: "byte list \<Rightarrow> data_stream" where
  "appending buf = \<lparr>m_buffer = buf, m_mode = Write, m_ptr = length buf\<rparr>"

lemma DataStream_appending: "DataStream [] Write = appending []"
  by (simp add: DataStream_def appending_def)

lemma writeRawData_appending [simp]:
  "writeRawData data (appending buf) = Some (appending (buf @ data))"
  by (simp add: writeRawData_def appending_def)

lemma m_buffer_appending [simp]: "m_buffer (appending buf) = buf"
  by (simp add: appending_def)

end
