(* ===== verification/Wire_Codec.thy ===== *)
theory Wire_Codec
  imports Data_Stream
begin

text \<open>
  The marshalling code of the message classes.  Their bodies are generated from one template
  (libsamsung-ipc/compiler/templates/structure.cpp.erb), so the template is modelled once, over a
  description of the fields of a class (compiler/structure.rb): \<open>read_fields\<close> is
  \<open>readFromStream\<close> and \<open>write_fields\<close> is \<open>writeToStream\<close> of a class with these fields.
  An object is the list of its members in declaration order.
\<close>

section \<open>Field descriptions and objects\<close>

text \<open>\<open>:read_length\<close> is a number, a preceding member, or \<open>stream.remainingBytes()\<close>.\<close>

datatype read_length = Fixed nat | Member string | Remaining

datatype field =
    Data string nat
  | U8 string
  | U16 string
  | U32 string
  | Vector string read_length
  | Array string read_length "field list"

datatype member =
    VU8 byte
  | VU16 u16
  | VU32 u32
  | VBytes "byte list"
  | VItems "(string \<times> member) list list"

type_synonym object = "(string \<times> member) list"

fun field_name :: "field \<Rightarrow> string" where
  "field_name (Data x n) = x"
| "field_name (U8 x) = x"
| "field_name (U16 x) = x"
| "field_name (U32 x) = x"
| "field_name (Vector x l) = x"
| "field_name (Array x l fs) = x"

fun member_nat :: "member \<Rightarrow> nat option" where
  "member_nat (VU8 w) = Some (unat w)"
| "member_nat (VU16 w) = Some (unat w)"
| "member_nat (VU32 w) = Some (unat w)"
| "member_nat _ = None"

fun eval_length :: "read_length \<Rightarrow> object \<Rightarrow> nat \<Rightarrow> nat option" where
  "eval_length (Fixed n) obj remaining = Some n"
| "eval_length (Member x) obj remaining = Option.bind (map_of obj x) member_nat"
| "eval_length Remaining obj remaining = Some remaining"

section \<open>Reading\<close>

fun repeat_read ::
    "nat \<Rightarrow> (data_stream \<Rightarrow> ('a \<times> data_stream) option) \<Rightarrow> data_stream \<Rightarrow> ('a list \<times> data_stream) option"
where
  "repeat_read 0 rd s = Some ([], s)"
| "repeat_read (Suc n) rd s =
     do { (x, s) \<leftarrow> rd s; (xs, s) \<leftarrow> repeat_read n rd s; Some (x # xs, s) }"

fun read_field :: "field \<Rightarrow> object \<Rightarrow> data_stream \<Rightarrow> (member \<times> data_stream) option"
and read_fields :: "field list \<Rightarrow> object \<Rightarrow> data_stream \<Rightarrow> (object \<times> data_stream) option"
where
  "read_field (Data x n) obj s = do { (bs, s) \<leftarrow> readRawData n s; Some (VBytes bs, s) }"
| "read_field (U8 x) obj s = do { (v, s) \<leftarrow> read_u8 s; Some (VU8 v, s) }"
| "read_field (U16 x) obj s = do { (v, s) \<leftarrow> read_u16 s; Some (VU16 v, s) }"
| "read_field (U32 x) obj s = do { (v, s) \<leftarrow> read_u32 s; Some (VU32 v, s) }"
| "read_field (Vector x l) obj s =
     do { n \<leftarrow> eval_length l obj (remainingBytes s);
          (bs, s) \<leftarrow> readRawData n s;
          Some (VBytes bs, s) }"
| "read_field (Array x l fs) obj s =
     do { n \<leftarrow> eval_length l obj (remainingBytes s);
          (items, s) \<leftarrow> repeat_read n (\<lambda>s. read_fields fs [] s) s;
          Some (VItems items, s) }"
| "read_fields [] obj s = Some (obj, s)"
| "read_fields (f # fs) obj s =
     do { (v, s) \<leftarrow> read_field f obj s;
          read_fields fs (obj @ [(field_name f, v)]) s }"

text \<open>
  The receivers accept a message when \<open>readFromStream\<close> returns true and the stream is at its end.
\<close>

definition unmarshal :: "field list \<Rightarrow> byte list \<Rightarrow> object option" where
  "unmarshal fs buffer =
     do { (obj, s) \<leftarrow> read_fields fs [] (DataStream buffer Read);
          if atEnd s then Some obj else None }"

section \<open>Writing\<close>

fun write_each :: "('a \<Rightarrow> data_stream \<Rightarrow> data_stream option) \<Rightarrow> 'a list \<Rightarrow> data_stream \<Rightarrow> data_stream option"
where
  "write_each wr [] s = Some s"
| "write_each wr (x # xs) s = do { s \<leftarrow> wr x s; write_each wr xs s }"

text \<open>An object that does not have the members of its class is not a C++ object: \<open>None\<close>.\<close>

fun write_field :: "field \<Rightarrow> member \<Rightarrow> data_stream \<Rightarrow> data_stream option"
and write_fields :: "field list \<Rightarrow> object \<Rightarrow> data_stream \<Rightarrow> data_stream option"
where
  "write_field (Data x n) (VBytes bs) s = (if length bs = n then writeRawData bs s else None)"
| "write_field (U8 x) (VU8 v) s = write_u8 v s"
| "write_field (U16 x) (VU16 v) s = write_u16 v s"
| "write_field (U32 x) (VU32 v) s = write_u32 v s"
| "write_field (Vector x l) (VBytes bs) s = writeRawData bs s"
| "write_field (Array x l fs) (VItems items) s = write_each (\<lambda>item s. write_fields fs item s) items s"
| "write_field _ _ s = None"
| "write_fields [] [] s = Some s"
| "write_fields (f # fs) ((x, v) # obj) s =
     do { s \<leftarrow> write_field f v s; write_fields fs obj s }"
| "write_fields _ _ s = None"

definition marshal :: "field list \<Rightarrow> object \<Rightarrow> byte list option" where
  "marshal fs obj = map_option m_buffer (write_fields fs obj (DataStream [] Write))"

section \<open>Specification: objects that fit a class, and their encoding\<close>

text \<open>
  \<open>conforms pre fs obj\<close>: the object has the members of \<open>fs\<close>, and every vector and array has the
  length that the reader computes from the members before it (\<open>pre\<close> and then \<open>obj\<close>).
\<close>

fun fits :: "field \<Rightarrow> object \<Rightarrow> member \<Rightarrow> bool"
and conforms :: "object \<Rightarrow> field list \<Rightarrow> object \<Rightarrow> bool"
where
  "fits (Data x n) pre (VBytes bs) = (length bs = n)"
| "fits (U8 x) pre (VU8 v) = True"
| "fits (U16 x) pre (VU16 v) = True"
| "fits (U32 x) pre (VU32 v) = True"
| "fits (Vector x l) pre (VBytes bs) = (eval_length l pre (length bs) = Some (length bs))"
| "fits (Array x l fs) pre (VItems items) =
     (l \<noteq> Remaining \<and> eval_length l pre 0 = Some (length items) \<and>
      list_all (\<lambda>item. conforms [] fs item) items)"
| "fits _ _ _ = False"
| "conforms pre [] [] = True"
| "conforms pre (f # fs) ((x, v) # obj) =
     (x = field_name f \<and> fits f pre v \<and> conforms (pre @ [(x, v)]) fs obj)"
| "conforms pre _ _ = False"

fun enc_field :: "field \<Rightarrow> member \<Rightarrow> byte list"
and enc_fields :: "field list \<Rightarrow> object \<Rightarrow> byte list"
where
  "enc_field (Array x l fs) (VItems items) = concat (map (\<lambda>item. enc_fields fs item) items)"
| "enc_field _ (VU8 v) = [v]"
| "enc_field _ (VU16 v) = le16 v"
| "enc_field _ (VU32 v) = le32 v"
| "enc_field _ (VBytes bs) = bs"
| "enc_field _ _ = []"
| "enc_fields (f # fs) ((x, v) # obj) = enc_field f v @ enc_fields fs obj"
| "enc_fields _ _ = []"

text \<open>
  A vector that takes all remaining bytes can only stand last, and not inside an array; an array
  never has that length.
\<close>

fun sized_field :: "field \<Rightarrow> bool" where
  "sized_field (Vector x l) = (l \<noteq> Remaining)"
| "sized_field (Array x l fs) = (l \<noteq> Remaining \<and> list_all sized_field fs)"
| "sized_field _ = True"

fun is_vector :: "field \<Rightarrow> bool" where
  "is_vector (Vector x l) = True"
| "is_vector _ = False"

fun well_formed :: "field list \<Rightarrow> bool" where
  "well_formed [] = True"
| "well_formed (f # fs) = ((sized_field f \<or> fs = [] \<and> is_vector f) \<and> well_formed fs)"

section \<open>Round trips\<close>

lemmas field_reads = read_u8_def read_u16_def read_u32_def

lemma write_each_appending:
  assumes "\<And>x b. x \<in> set xs \<Longrightarrow> wr x (appending b) = Some (appending (b @ enc x))"
  shows "write_each wr xs (appending b) = Some (appending (b @ concat (map enc xs)))"
  using assms by (induction xs arbitrary: b) auto

lemma write_fields_appending_list:
  assumes "\<And>f v pre b. f \<in> set fs \<Longrightarrow> fits f pre v \<Longrightarrow>
      write_field f v (appending b) = Some (appending (b @ enc_field f v))"
    and "conforms pre fs obj"
  shows "write_fields fs obj (appending b) = Some (appending (b @ enc_fields fs obj))"
  using assms
proof (induction fs arbitrary: pre obj b)
  case Nil
  then show ?case by (cases obj) auto
next
  case (Cons f fs)
  from Cons.prems(2) obtain v obj' where obj: "obj = (field_name f, v) # obj'"
    and v: "fits f pre v" and obj': "conforms (pre @ [(field_name f, v)]) fs obj'"
    by (cases obj) auto
  have "write_field f v (appending b) = Some (appending (b @ enc_field f v))"
    using Cons.prems(1) v by simp
  then show ?case
    using Cons.IH [OF _ obj'] Cons.prems(1) by (simp add: obj)
qed

lemma write_field_appending:
  "fits f pre v \<Longrightarrow> write_field f v (appending b) = Some (appending (b @ enc_field f v))"
proof (induction f arbitrary: pre v b)
  case (Array x l fs)
  then obtain items where v: "v = VItems items" and items: "\<forall>it \<in> set items. conforms [] fs it"
    by (cases v) (auto simp: list_all_iff)
  have "write_each (\<lambda>item s. write_fields fs item s) items (appending b) =
      Some (appending (b @ concat (map (\<lambda>item. enc_fields fs item) items)))"
    by (rule write_each_appending)
      (use items in \<open>auto intro!: write_fields_appending_list [OF Array.IH]\<close>)
  then show ?case by (simp add: v)
qed (case_tac v; simp add: write_u8_def write_u16_def write_u32_def)+

lemma write_fields_appending:
  "conforms pre fs obj \<Longrightarrow>
     write_fields fs obj (appending b) = Some (appending (b @ enc_fields fs obj))"
  by (rule write_fields_appending_list [OF write_field_appending])

lemma marshal_conforms: "conforms [] fs obj \<Longrightarrow> marshal fs obj = Some (enc_fields fs obj)"
  by (simp add: marshal_def DataStream_appending write_fields_appending)

lemma repeat_read_append:
  assumes "\<And>x s rest. x \<in> set xs \<Longrightarrow> m_mode s = Read \<Longrightarrow> unread s = enc x @ rest \<Longrightarrow>
      rd s = Some (x, advance (length (enc x)) s)"
    and "m_mode s = Read" and "unread s = concat (map enc xs) @ rest"
  shows "repeat_read (length xs) rd s = Some (xs, advance (length (concat (map enc xs))) s)"
  using assms
proof (induction xs arbitrary: s)
  case (Cons x xs)
  have "rd s = Some (x, advance (length (enc x)) s)"
    using Cons.prems by auto
  moreover have "repeat_read (length xs) rd (advance (length (enc x)) s) =
      Some (xs, advance (length (concat (map enc xs))) (advance (length (enc x)) s))"
    using Cons.prems by (intro Cons.IH) auto
  ultimately show ?case by simp
qed simp

text \<open>The reader recovers one field, and then one list of fields, from its encoding.\<close>

definition recovers :: "field \<Rightarrow> bool" where
  "recovers f \<longleftrightarrow> (\<forall>pre v s rest. fits f pre v \<longrightarrow> m_mode s = Read \<longrightarrow>
     unread s = enc_field f v @ rest \<longrightarrow>
     read_field f pre s = Some (v, advance (length (enc_field f v)) s))"

lemma recoversD:
  "recovers f \<Longrightarrow> fits f pre v \<Longrightarrow> m_mode s = Read \<Longrightarrow> unread s = enc_field f v @ rest \<Longrightarrow>
     read_field f pre s = Some (v, advance (length (enc_field f v)) s)"
  by (auto simp: recovers_def)

lemma read_fields_recover:
  assumes "\<And>f. f \<in> set fs \<Longrightarrow> recovers f"
    and "conforms pre fs obj" and "m_mode s = Read" and "unread s = enc_fields fs obj @ rest"
  shows "read_fields fs pre s = Some (pre @ obj, advance (length (enc_fields fs obj)) s)"
  using assms
proof (induction fs arbitrary: pre obj s)
  case Nil
  then show ?case by (cases obj) auto
next
  case (Cons f fs)
  from Cons.prems(2) obtain v obj' where obj: "obj = (field_name f, v) # obj'"
    and v: "fits f pre v" and obj': "conforms (pre @ [(field_name f, v)]) fs obj'"
    by (cases obj) auto
  have "read_field f pre s = Some (v, advance (length (enc_field f v)) s)"
    using Cons.prems v by (intro recoversD [of f pre v s "enc_fields fs obj' @ rest"]) (auto simp: obj)
  then show ?case
    using Cons.IH [OF _ obj'] Cons.prems by (simp add: obj)
qed

lemma sized_field_recovers: "sized_field f \<Longrightarrow> recovers f"
proof (induction f)
  case (Array x l fs)
  have rec: "recovers f" if "f \<in> set fs" for f
    using Array that by (auto simp: list_all_iff)
  show ?case
    unfolding recovers_def
  proof (intro allI impI)
    fix pre v s rest
    assume fits: "fits (Array x l fs) pre v" and s: "m_mode s = Read"
      "unread s = enc_field (Array x l fs) v @ rest"
    then obtain items where v: "v = VItems items"
      and n: "eval_length l pre 0 = Some (length items)" and l: "l \<noteq> Remaining"
      and items: "\<forall>it \<in> set items. conforms [] fs it"
      by (cases v) (auto simp: list_all_iff)
    have "repeat_read (length items) (\<lambda>s. read_fields fs [] s) s =
        Some (items, advance (length (concat (map (\<lambda>item. enc_fields fs item) items))) s)"
      using s items by (intro repeat_read_append [where rest = rest])
        (auto simp: v intro!: read_fields_recover [OF rec, of fs "[]", simplified])
    moreover have "eval_length l pre (remainingBytes s) = Some (length items)"
      using n l by (cases l) auto
    ultimately show "read_field (Array x l fs) pre s =
        Some (v, advance (length (enc_field (Array x l fs) v)) s)"
      by (simp add: v)
  qed
next
  case (Vector x l)
  then show ?case
    by (cases l)
      (auto simp: recovers_def readRawData_append Option.bind_eq_Some_conv elim!: fits.elims)
qed (auto simp: recovers_def field_reads readRawData_append readRawData_Cons elim!: fits.elims)

lemma read_last_vector:
  assumes "is_vector f" and "conforms pre [f] obj" and "m_mode s = Read"
    and "unread s = enc_fields [f] obj"
  shows "read_fields [f] pre s = Some (pre @ obj, advance (length (enc_fields [f] obj)) s)"
proof -
  from assms(1,2) obtain x l bs where f: "f = Vector x l" and obj: "obj = [(x, VBytes bs)]"
    and l: "eval_length l pre (length bs) = Some (length bs)"
    by (cases f) (auto elim!: fits.elims conforms.elims)
  have "readRawData (length bs) s = Some (bs, advance (length bs) s)"
    using assms(3,4) by (auto simp: f obj readRawData_eq_Some)
  then show ?thesis
    using l assms(4) by (simp add: f obj remainingBytes_unread)
qed

lemma read_well_formed:
  "well_formed fs \<Longrightarrow> conforms pre fs obj \<Longrightarrow> m_mode s = Read \<Longrightarrow> unread s = enc_fields fs obj \<Longrightarrow>
     read_fields fs pre s = Some (pre @ obj, advance (length (enc_fields fs obj)) s)"
proof (induction fs arbitrary: pre obj s)
  case Nil
  then show ?case by (cases obj) auto
next
  case (Cons f fs)
  show ?case
  proof (cases "sized_field f")
    case True
    from Cons.prems(2) obtain v obj' where obj: "obj = (field_name f, v) # obj'"
      and v: "fits f pre v" and obj': "conforms (pre @ [(field_name f, v)]) fs obj'"
      by (cases obj) auto
    have "read_field f pre s = Some (v, advance (length (enc_field f v)) s)"
      using Cons.prems by (intro recoversD [OF sized_field_recovers [OF True] v]) (auto simp: obj)
    then show ?thesis
      using Cons.IH [OF _ obj'] Cons.prems by (simp add: obj)
  next
    case False
    with Cons.prems show ?thesis
      by (auto intro!: read_last_vector [of f pre obj s, simplified])
  qed
qed

text \<open>What a reader accepted fits the class, and its encoding is exactly what was consumed.\<close>

definition consumed :: "data_stream \<Rightarrow> byte list \<Rightarrow> data_stream \<Rightarrow> bool" where
  "consumed s bs s' \<longleftrightarrow> unread s = bs @ unread s' \<and> (cursor_ok s \<longrightarrow> cursor_ok s')"

lemma consumed_refl [simp]: "consumed s [] s"
  by (simp add: consumed_def)

lemma consumed_trans: "consumed s bs s1 \<Longrightarrow> consumed s1 cs s2 \<Longrightarrow> consumed s (bs @ cs) s2"
  by (simp add: consumed_def)

lemma readRawData_consumed:
  "readRawData n s = Some (bs, s') \<Longrightarrow> length bs = n \<and> consumed s bs s'"
  by (auto simp: readRawData_eq_Some consumed_def intro: cursor_ok_advance)

definition explains :: "field \<Rightarrow> bool" where
  "explains f \<longleftrightarrow> (\<forall>pre s v s'. read_field f pre s = Some (v, s') \<longrightarrow>
     fits f pre v \<and> consumed s (enc_field f v) s')"

lemma explainsD:
  "explains f \<Longrightarrow> read_field f pre s = Some (v, s') \<Longrightarrow> fits f pre v \<and> consumed s (enc_field f v) s'"
  unfolding explains_def by blast

lemma read_fields_explained:
  assumes "\<And>f. f \<in> set fs \<Longrightarrow> explains f" and "read_fields fs pre s = Some (obj', s')"
  shows "\<exists>obj. obj' = pre @ obj \<and> conforms pre fs obj \<and> consumed s (enc_fields fs obj) s'"
  using assms
proof (induction fs arbitrary: pre s)
  case Nil
  then show ?case by auto
next
  case (Cons f fs)
  from Cons.prems(2) obtain v s1 where f: "read_field f pre s = Some (v, s1)"
    and fs: "read_fields fs (pre @ [(field_name f, v)]) s1 = Some (obj', s')"
    by (auto simp: Option.bind_eq_Some_conv)
  have v: "fits f pre v" "consumed s (enc_field f v) s1"
    using explainsD [OF _ f] Cons.prems(1) by simp_all
  obtain obj where "obj' = (pre @ [(field_name f, v)]) @ obj"
    "conforms (pre @ [(field_name f, v)]) fs obj" "consumed s1 (enc_fields fs obj) s'"
    using Cons.IH [OF _ fs] Cons.prems(1) by auto
  then show ?case
    using v consumed_trans by (intro exI [of _ "(field_name f, v) # obj"]) auto
qed

lemma repeat_read_explained:
  assumes "\<And>x s s'. rd s = Some (x, s') \<Longrightarrow> P x \<and> consumed s (enc x) s'"
    and "repeat_read n rd s = Some (xs, s')"
  shows "length xs = n \<and> list_all P xs \<and> consumed s (concat (map enc xs)) s'"
  using assms(2)
proof (induction n arbitrary: s xs)
  case (Suc n)
  then obtain x s1 ys where x: "rd s = Some (x, s1)" and ys: "repeat_read n rd s1 = Some (ys, s')"
    and xs: "xs = x # ys"
    by (auto simp: Option.bind_eq_Some_conv)
  show ?case
    using assms(1) [OF x] Suc.IH [OF ys] by (auto simp: xs intro: consumed_trans)
qed simp

lemma array_explains:
  assumes ex: "\<And>f. f \<in> set fs \<Longrightarrow> explains f" and l: "l \<noteq> Remaining"
  shows "explains (Array x l fs)"
  unfolding explains_def
proof (intro allI impI)
  fix pre s v s'
  assume "read_field (Array x l fs) pre s = Some (v, s')"
  then obtain n items where n: "eval_length l pre (remainingBytes s) = Some n"
    and rd: "repeat_read n (\<lambda>s. read_fields fs [] s) s = Some (items, s')" and v: "v = VItems items"
    by (auto simp: Option.bind_eq_Some_conv)
  have "eval_length l pre 0 = Some n"
    using n l by (cases l) auto
  moreover have "conforms [] fs item \<and> consumed s (enc_fields fs item) s'"
    if "read_fields fs [] s = Some (item, s')" for item s s'
    using read_fields_explained [OF ex that] by auto
  then have "length items = n \<and> list_all (\<lambda>item. conforms [] fs item) items \<and>
      consumed s (concat (map (\<lambda>item. enc_fields fs item) items)) s'"
    by (rule repeat_read_explained [OF _ rd])
  ultimately show "fits (Array x l fs) pre v \<and> consumed s (enc_field (Array x l fs) v) s'"
    using l by (simp add: v)
qed

lemma field_explains: "sized_field f \<or> is_vector f \<Longrightarrow> explains f"
proof (induction f)
  case (Array x l fs)
  then show ?case by (intro array_explains) (auto simp: list_all_iff)
next
  case (Vector x l)
  show ?case
    by (cases l)
      (auto simp: explains_def Option.bind_eq_Some_conv remainingBytes_unread
        dest!: readRawData_consumed)
next
  case (U8 x)
  then show ?case
    by (fastforce simp: explains_def read_u8_def Option.bind_eq_Some_conv length_Suc_conv
        dest!: readRawData_consumed)
qed (auto simp: explains_def field_reads Option.bind_eq_Some_conv dest!: readRawData_consumed)

lemma well_formed_explains: "well_formed fs \<Longrightarrow> f \<in> set fs \<Longrightarrow> explains f"
  by (induction fs) (auto intro: field_explains)

text \<open>
  A well-formed class reads back what it wrote, and what it accepts it would write: the encoding
  is a bijection between the objects that fit the class and the byte strings it accepts.
\<close>

lemma unmarshal_iff:
  assumes "well_formed fs"
  shows "unmarshal fs bytes = Some obj \<longleftrightarrow> conforms [] fs obj \<and> marshal fs obj = Some bytes"
    (is "?l \<longleftrightarrow> ?r")
proof
  assume ?l
  then obtain s where s: "read_fields fs [] (DataStream bytes Read) = Some (obj, s)" and e: "atEnd s"
    by (auto simp: unmarshal_def Option.bind_eq_Some_conv split: if_splits)
  from read_fields_explained [OF well_formed_explains [OF assms] s]
  have "conforms [] fs obj" and "consumed (DataStream bytes Read) (enc_fields fs obj) s"
    by auto
  then show ?r
    using e by (simp add: marshal_conforms consumed_def atEnd_unread)
next
  assume r: ?r
  then have c: "conforms [] fs obj" and b: "bytes = enc_fields fs obj"
    by (auto simp: marshal_conforms)
  have "read_fields fs [] (DataStream bytes Read) = Some (obj, advance (length bytes) (DataStream bytes Read))"
    using read_well_formed [OF assms c, of "DataStream bytes Read"] by (simp add: b)
  then show ?l
    by (simp add: unmarshal_def atEnd_unread cursor_ok_advance)
qed

end
