(* ===== verification/Protocol.thy ===== *)
theory Protocol
  imports Wire_Codec
begin

text \<open>
  The message classes of the modem protocol (libsamsung-ipc/protocol/*.rb, one definition per
  group) and the factory that creates an incoming message from its command bytes
  (compiler/templates/MessageFactory.cpp.erb).  The generated C++ is not in the repository; its
  templates and their input are, and these are what is translated.
\<close>

section \<open>Message classes and groups\<close>

datatype direction = In | Out

datatype request_type = IPC_CMD_EXEC | IPC_CMD_GET | IPC_CMD_SET | IPC_CMD_CFRM | IPC_CMD_EVENT

fun request_code :: "request_type \<Rightarrow> byte" where
  "request_code IPC_CMD_EXEC = 1"
| "request_code IPC_CMD_GET = 2"
| "request_code IPC_CMD_SET = 3"
| "request_code IPC_CMD_CFRM = 4"
| "request_code IPC_CMD_EVENT = 5"

record message_class =
  c_direction :: direction
  c_id :: string
  c_type :: byte
  c_op :: request_type
  c_fields :: "field list"

definition message ::
    "direction \<Rightarrow> string \<Rightarrow> byte \<Rightarrow> request_type \<Rightarrow> field list \<Rightarrow> message_class"
where
  "message d i t r fs =
     \<lparr>c_direction = d, c_id = i, c_type = t, c_op = r, c_fields = fs\<rparr>"

record message_group =
  g_id :: string
  g_type :: byte
  g_messages :: "message_class list"
  g_unsolicited :: "string list"

lemma message_simps [simp]:
  "c_direction (message d i t r fs) = d"
  "c_id (message d i t r fs) = i"
  "c_type (message d i t r fs) = t"
  "c_op (message d i t r fs) = r"
  "c_fields (message d i t r fs) = fs"
  by (simp_all add: message_def)

section \<open>The groups of the protocol\<close>

definition group_CALL :: message_group where
  "group_CALL = \<lparr>g_id = ''CALL'', g_type = 2,
   g_messages = [
     message Out ''ORIGINATE'' 1 IPC_CMD_EXEC
       [U16 ''type'', U8 ''allowCLI'', U8 ''numberLength'', U8 ''numberType'',
        Vector ''number'' (Fixed 82), U32 ''reserved'', U8 ''extension''],
     message In ''INCOMING'' 2 IPC_CMD_EXEC [U16 ''callType'', U8 ''reserved'', U8 ''lineId''],
     message Out ''RELEASE'' 3 IPC_CMD_EXEC [],
     message Out ''ANSWER'' 4 IPC_CMD_EXEC [],
     message In ''STATE_CHANGED'' 5 IPC_CMD_EXEC
       [U16 ''callType'', U8 ''callId'', U8 ''event'', U8 ''releaseCause1'',
        U8 ''releaseCause2''],
     message Out ''GET_CALL_LIST'' 6 IPC_CMD_GET [],
     message In ''GET_CALL_LIST_REPLY'' 6 IPC_CMD_EXEC
       [U8 ''count'',
        Array ''callList'' (Member ''count'')
          [U16 ''callType'', U8 ''callId'', U8 ''direction'', U8 ''callState'',
           U8 ''isMultiParty'', U8 ''numberLength'', U8 ''reserved'',
           Vector ''number'' (Member ''numberLength'')],
        Vector ''padding'' Remaining],
     message Out ''SEND_BURST_DTMF'' 7 IPC_CMD_EXEC
       [U8 ''unknown1'', U8 ''length'', Vector ''data'' (Member ''length'')],
     message Out ''CONTINUOUS_DTMF'' 8 IPC_CMD_SET [U8 ''action'', U8 ''tone'']],
   g_unsolicited = [''INCOMING'', ''STATE_CHANGED'']\<rparr>"

definition group_DISP :: message_group where
  "group_DISP = \<lparr>g_id = ''DISP'', g_type = 7,
   g_messages = [
     message Out ''GET_ICON_INFORMATION'' 1 IPC_CMD_GET [U8 ''icon''],
     message In ''GET_ICON_INFORMATION_REPLY'' 1 IPC_CMD_EXEC
       [U8 ''icon'', U8 ''value'', U16 ''unknown1''],
     message In ''RSSI_INFORMATION'' 6 IPC_CMD_EXEC [U8 ''rssi'']],
   g_unsolicited = [''GET_ICON_INFORMATION_REPLY'', ''RSSI_INFORMATION'']\<rparr>"

definition group_GEN :: message_group where
  "group_GEN = \<lparr>g_id = ''GEN'', g_type = 128,
   g_messages = [
     message In ''COMMAND_COMPLETE'' 1 IPC_CMD_EXEC
       [U8 ''originalCommand'', U8 ''originalSubcommand'', U8 ''originalResponseType'',
        U16 ''status'']],
   g_unsolicited = []\<rparr>"

definition group_MISC :: message_group where
  "group_MISC = \<lparr>g_id = ''MISC'', g_type = 10,
   g_messages = [
     message Out ''GET_MOBILE_EQUIP_VERSION'' 1 IPC_CMD_GET [U8 ''reserved''],
     message In ''GET_MOBILE_EQUIP_VERSION_REPLY'' 1 IPC_CMD_EXEC
       [U8 ''unused1'', Vector ''softwareVersion'' (Fixed 32),
        Vector ''hardwareVersion'' (Fixed 32), Vector ''RFCalDate'' (Fixed 32),
        Vector ''productCode'' (Fixed 32), Vector ''model'' (Fixed 17), U8 ''PRLNum'',
        U8 ''unused2''],
     message Out ''SET_DEBUG_LEVEL'' 2 IPC_CMD_EVENT [U8 ''level''],
     message Out ''GET_MOBILE_EQUIP_IMSI'' 2 IPC_CMD_GET [],
     message In ''GET_MOBILE_EQUIP_IMSI_REPLY'' 2 IPC_CMD_EXEC
       [U8 ''stringLength'', Vector ''imsi'' (Member ''stringLength'')],
     message Out ''GET_MOBILE_EQUIP_SERIAL_NUMBER'' 3 IPC_CMD_GET [U8 ''reserved''],
     message In ''GET_MOBILE_EQUIP_SERIAL_NUMBER_REPLY'' 3 IPC_CMD_EXEC
       [U8 ''reserved'', U8 ''stringLength'', Vector ''serial'' (Fixed 32)],
     message Out ''SET_MODEM_INTERFACE_MODE'' 3 IPC_CMD_SET [U8 ''mode'']],
   g_unsolicited = [''GET_MOBILE_EQUIP_IMSI_REPLY'']\<rparr>"

definition group_NET :: message_group where
  "group_NET = \<lparr>g_id = ''NET'', g_type = 8,
   g_messages = [
     message Out ''GET_PLMN_SELECTION'' 2 IPC_CMD_GET [],
     message In ''GET_PLMN_SELECTION_REPLY'' 2 IPC_CMD_EXEC [U8 ''selection''],
     message Out ''SET_PLMN_SELECTION'' 2 IPC_CMD_SET
       [U8 ''selection'', Vector ''network'' (Fixed 6), U8 ''unknown1''],
     message Out ''GET_CURRENT_PLMN'' 3 IPC_CMD_GET [],
     message In ''GET_CURRENT_PLMN_REPLY'' 3 IPC_CMD_EXEC
       [U8 ''unknown1'', U16 ''unknown2'', Vector ''plmn'' (Fixed 6), U16 ''unknown3''],
     message Out ''GET_PLMN_LIST'' 4 IPC_CMD_GET [],
     message In ''GET_PLMN_LIST_REPLY'' 4 IPC_CMD_EXEC
       [U8 ''count'',
        Array ''plmnList'' (Member ''count'')
          [U8 ''status'', Vector ''plmn'' (Fixed 6), Data ''unknown'' 3]],
     message Out ''GET_NETWORK_REGISTRATION'' 5 IPC_CMD_GET
       [U8 ''unknown1'', U8 ''serviceDomain''],
     message In ''GET_NETWORK_REGISTRATION_REPLY'' 5 IPC_CMD_EXEC
       [U8 ''act'', U8 ''serviceDomain'', U8 ''registrationStatus'', U8 ''unknown1'',
        U16 ''lac'', U32 ''cid'', U8 ''unknown2''],
     message Out ''GET_BAND_SELECTION'' 7 IPC_CMD_GET [],
     message In ''GET_BAND_SELECTION_REPLY'' 7 IPC_CMD_EXEC [U8 ''unknown1'', U32 ''band''],
     message Out ''SET_BAND_SELECTION'' 7 IPC_CMD_SET [U8 ''unknown1'', U32 ''band''],
     message Out ''GET_MODE_SELECT'' 10 IPC_CMD_GET [],
     message In ''GET_MODE_SELECT_REPLY'' 10 IPC_CMD_EXEC [U8 ''mode''],
     message Out ''SET_MODE_SELECT'' 10 IPC_CMD_SET [U8 ''mode'']],
   g_unsolicited = [''GET_CURRENT_PLMN_REPLY'', ''GET_NETWORK_REGISTRATION_REPLY'']\<rparr>"

definition group_PWR :: message_group where
  "group_PWR = \<lparr>g_id = ''PWR'', g_type = 1,
   g_messages = [
     message Out ''PHONE_POWER_ON'' 1 IPC_CMD_EXEC [Data ''reserved'' 8196],
     message In ''PHONE_BOOT_COMPLETE'' 1 IPC_CMD_EXEC [U8 ''type''],
     message Out ''PHONE_POWER_OFF'' 2 IPC_CMD_EXEC [],
     message In ''PHONE_POWERED_OFF'' 2 IPC_CMD_EXEC [U8 ''reason''],
     message In ''PHONE_RESET'' 3 IPC_CMD_EXEC [],
     message Out ''PHONE_SET_MODE'' 7 IPC_CMD_EXEC [U8 ''mode'', U8 ''flags''],
     message In ''PHONE_MODE_CHANGED'' 7 IPC_CMD_EXEC [U8 ''mode'']],
   g_unsolicited = [''PHONE_BOOT_COMPLETE'', ''PHONE_POWERED_OFF'', ''PHONE_RESET'',
     ''PHONE_MODE_CHANGED'']\<rparr>"

definition group_RFS :: message_group where
  "group_RFS = \<lparr>g_id = ''RFS'', g_type = 21,
   g_messages = [
     message In ''NV_READ'' 1 IPC_CMD_EXEC [U32 ''offset'', U32 ''size''],
     message Out ''NV_READ_REPLY'' 1 IPC_CMD_EXEC
       [U8 ''status'', U32 ''offset'', U32 ''size'', Vector ''data'' (Fixed 512)],
     message In ''NV_WRITE'' 2 IPC_CMD_EXEC
       [U32 ''offset'', U32 ''size'', Vector ''data'' (Member ''size'')],
     message Out ''NV_WRITE_REPLY'' 2 IPC_CMD_EXEC [U8 ''status'', U32 ''offset'', U32 ''size''],
     message In ''READ_FILE'' 3 IPC_CMD_EXEC [U32 ''fd'', U32 ''bytes''],
     message Out ''READ_FILE_REPLY'' 3 IPC_CMD_EXEC
       [U32 ''ret'', U32 ''errno'', Vector ''data'' (Fixed 4096)],
     message In ''WRITE_FILE'' 4 IPC_CMD_EXEC
       [U32 ''fd'', U32 ''bytes'', Vector ''data'' (Member ''bytes'')],
     message Out ''WRITE_FILE_REPLY'' 4 IPC_CMD_EXEC [U32 ''ret'', U32 ''errno''],
     message In ''LSEEK_FILE'' 5 IPC_CMD_EXEC [U32 ''fd'', U32 ''offset'', U32 ''whence''],
     message Out ''LSEEK_FILE_REPLY'' 5 IPC_CMD_EXEC [U32 ''ret'', U32 ''errno''],
     message In ''CLOSE_FILE'' 6 IPC_CMD_EXEC [U32 ''fd''],
     message Out ''CLOSE_FILE_REPLY'' 6 IPC_CMD_EXEC [U32 ''ret'', U32 ''errno''],
     message In ''PUT_FILE'' 7 IPC_CMD_EXEC
       [U32 ''flags'', U32 ''nameSize'', Vector ''name'' (Fixed 1024), U32 ''bytes'',
        Vector ''data'' (Member ''bytes'')],
     message Out ''PUT_FILE_REPLY'' 7 IPC_CMD_EXEC [U32 ''ret'', U32 ''errno''],
     message In ''GET_FILE'' 8 IPC_CMD_EXEC
       [U32 ''nameSize'', Vector ''name'' (Fixed 1024), U32 ''size''],
     message Out ''GET_FILE_REPLY'' 8 IPC_CMD_EXEC
       [U32 ''ret'', U32 ''errno'', Vector ''data'' (Fixed 4096)],
     message In ''RENAME_FILE'' 9 IPC_CMD_EXEC
       [U32 ''oldNameSize'', Vector ''oldName'' (Fixed 1024), U32 ''newNameSize'',
        Vector ''newName'' (Fixed 1024)],
     message Out ''RENAME_FILE_REPLY'' 9 IPC_CMD_EXEC [U32 ''ret'', U32 ''errno''],
     message In ''GET_FILE_INFO'' 10 IPC_CMD_EXEC
       [U32 ''nameSize'', Vector ''name'' (Fixed 1024)],
     message Out ''GET_FILE_INFO_REPLY'' 10 IPC_CMD_EXEC
       [U32 ''ret'', U16 ''type'', U32 ''size'', U8 ''cyear'', U8 ''cmonth'', U8 ''cday'',
        U8 ''chour'', U8 ''cminute'', U8 ''csecond'', U8 ''myear'', U8 ''mmonth'',
        U8 ''mday'', U8 ''mhour'', U8 ''mminute'', U8 ''msecond'', U32 ''errno''],
     message In ''DELETE_FILE'' 11 IPC_CMD_EXEC [U32 ''nameSize'', Vector ''name'' (Fixed 1024)],
     message Out ''DELETE_FILE_REPLY'' 11 IPC_CMD_EXEC [U32 ''ret'', U32 ''errno''],
     message In ''MAKE_DIRECTORY'' 12 IPC_CMD_EXEC
       [U32 ''nameSize'', Vector ''name'' (Fixed 1024)],
     message Out ''MAKE_DIRECTORY_REPLY'' 12 IPC_CMD_EXEC [U32 ''ret'', U32 ''errno''],
     message In ''DELETE_DIRECTORY'' 13 IPC_CMD_EXEC
       [U32 ''nameSize'', Vector ''name'' (Fixed 1024)],
     message Out ''DELETE_DIRECTORY_REPLY'' 13 IPC_CMD_EXEC [U32 ''ret'', U32 ''errno''],
     message In ''OPEN_DIRECTORY'' 14 IPC_CMD_EXEC
       [U32 ''nameSize'', Vector ''name'' (Fixed 1024)],
     message Out ''OPEN_DIRECTORY_REPLY'' 14 IPC_CMD_EXEC [U32 ''ret'', U32 ''errno''],
     message In ''READ_DIRECTORY'' 15 IPC_CMD_EXEC [U32 ''fd''],
     message Out ''READ_DIRECTORY_REPLY'' 15 IPC_CMD_EXEC
       [U32 ''ret'', U32 ''nameLength'', Vector ''name'' (Fixed 1024), U32 ''errno''],
     message In ''CLOSE_DIRECTORY'' 16 IPC_CMD_EXEC [U32 ''fd''],
     message Out ''CLOSE_DIRECTORY_REPLY'' 16 IPC_CMD_EXEC [U32 ''ret'', U32 ''errno''],
     message In ''OPEN_FILE'' 17 IPC_CMD_EXEC
       [U32 ''flags'', U32 ''nameSize'', Vector ''name'' (Fixed 1024)],
     message Out ''OPEN_FILE_REPLY'' 17 IPC_CMD_EXEC [U32 ''ret'', U32 ''errno''],
     message In ''FTRUNCATE_FILE'' 18 IPC_CMD_EXEC [U32 ''fd'', U32 ''size''],
     message Out ''FTRUNCATE_FILE_REPLY'' 18 IPC_CMD_EXEC [U32 ''ret'', U32 ''errno''],
     message In ''GET_FILE_INFO_BY_HANDLE'' 19 IPC_CMD_EXEC [U32 ''fd''],
     message Out ''GET_FILE_INFO_BY_HANDLE_REPLY'' 19 IPC_CMD_EXEC
       [U32 ''ret'', U16 ''type'', U32 ''size'', U8 ''cyear'', U8 ''cmonth'', U8 ''cday'',
        U8 ''chour'', U8 ''cminute'', U8 ''csecond'', U8 ''myear'', U8 ''mmonth'',
        U8 ''mday'', U8 ''mhour'', U8 ''mminute'', U8 ''msecond'', U32 ''errno''],
     message In ''NV_WRITE_ALL'' 21 IPC_CMD_EXEC
       [U32 ''offset'', U32 ''size'', Vector ''data'' (Member ''size'')],
     message Out ''NV_WRITE_ALL_REPLY'' 21 IPC_CMD_EXEC
       [U8 ''status'', U32 ''offset'', U32 ''size'']],
   g_unsolicited = []\<rparr>"

definition group_SEC :: message_group where
  "group_SEC = \<lparr>g_id = ''SEC'', g_type = 5,
   g_messages = [
     message Out ''SET_PIN_STATUS'' 1 IPC_CMD_SET
       [U8 ''type'', U8 ''pin1Length'', U8 ''pin2Length'', Vector ''pin1'' (Fixed 8),
        Vector ''pin2'' (Fixed 8)],
     message Out ''GET_PIN_STATUS'' 1 IPC_CMD_GET [],
     message In ''GET_PIN_STATUS_REPLY'' 1 IPC_CMD_EXEC [U8 ''state'', U8 ''xstate''],
     message Out ''CHANGE_LOCK_PWD'' 3 IPC_CMD_SET
       [U8 ''type'', U8 ''currentLength'', U8 ''newLength'',
        Vector ''currentPwd'' (Fixed 39), Vector ''newPwd'' (Fixed 39)],
     message Out ''RSIM_ACCESS'' 5 IPC_CMD_GET
       [U8 ''cmd'', U16 ''fileId'', U8 ''p1'', U8 ''p2'', U8 ''p3'',
        Vector ''data'' (Fixed 256)],
     message In ''RSIM_ACCESS_REPLY'' 5 IPC_CMD_EXEC
       [U8 ''sw1'', U8 ''sw2'', U8 ''dataLength'', Vector ''data'' (Member ''dataLength'')],
     message In ''SIM_CARD_TYPE'' 7 IPC_CMD_EXEC [U8 ''cardType'', U8 ''iccType'']],
   g_unsolicited = [''GET_PIN_STATUS_REPLY'', ''SIM_CARD_TYPE'']\<rparr>"

definition group_SND :: message_group where
  "group_SND = \<lparr>g_id = ''SND'', g_type = 9,
   g_messages = [
     message Out ''SET_VOLUME_CTRL'' 1 IPC_CMD_SET [U8 ''device'', U8 ''volume''],
     message Out ''GET_MIC_MUTE'' 2 IPC_CMD_GET [],
     message In ''GET_MIC_MUTE_REPLY'' 2 IPC_CMD_EXEC [U8 ''mute''],
     message Out ''SET_MIC_MUTE'' 2 IPC_CMD_SET [U8 ''mute''],
     message Out ''SET_AUDIO_PATH'' 3 IPC_CMD_SET [U8 ''path''],
     message Out ''SET_LOOPBACK_CTRL'' 5 IPC_CMD_SET [U8 ''ctrl''],
     message Out ''SET_VOICE_RECORDING_CTRL'' 6 IPC_CMD_SET [U8 ''record''],
     message Out ''SET_VIDEO_CALL_CTRL'' 7 IPC_CMD_SET [U8 ''clock''],
     message Out ''EXEC_CLOCK_CTRL'' 9 IPC_CMD_EXEC [U8 ''clock''],
     message Out ''SET_TWO_MIC_CTRL'' 11 IPC_CMD_SET [U8 ''param1'', U8 ''param2''],
     message Out ''SET_DHA_CTRL'' 12 IPC_CMD_SET
       [U8 ''mode'', U8 ''select'', Vector ''parameter'' (Fixed 24)]],
   g_unsolicited = []\<rparr>"

definition group_SS :: message_group where
  "group_SS = \<lparr>g_id = ''SS'', g_type = 12,
   g_messages = [
     message Out ''MANAGE_CALL'' 3 IPC_CMD_SET
       [U8 ''callCommand'', U8 ''callId'', Data ''reserved'' 83]],
   g_unsolicited = []\<rparr>"

definition group_SVC :: message_group where
  "group_SVC = \<lparr>g_id = ''SVC'', g_type = 11,
   g_messages = [
     message Out ''ENTER_SERVICE_MODE'' 1 IPC_CMD_SET [U8 ''modeType'', U16 ''subType''],
     message Out ''EXIT_SERVICE_MODE'' 2 IPC_CMD_SET [U8 ''modeType''],
     message Out ''PROCESS_KEY_CODE'' 3 IPC_CMD_SET [U8 ''keyCode''],
     message In ''DISPLAY_SCREEN'' 5 IPC_CMD_EXEC
       [U8 ''lineCount'',
        Array ''lines'' (Member ''lineCount'')
          [U8 ''unknown1'', U8 ''unknown2'', Vector ''line'' (Fixed 32)]]],
   g_unsolicited = [''DISPLAY_SCREEN'']\<rparr>"

definition protocol :: "message_group list" where
  "protocol = [group_CALL, group_DISP, group_GEN, group_MISC, group_NET, group_PWR,
     group_RFS, group_SEC, group_SND, group_SS, group_SVC]"

section \<open>The message factory\<close>

text \<open>
  A dispatch table spans the types from \<open>FIRST\<close> to \<open>LAST\<close> (compiler/enum.rb,
  \<open>add_minmax!\<close>).  In a group's table the entry of every incoming message is its creation
  function; in the table of the groups the first group with a type keeps it.
\<close>

definition first_type :: "byte list \<Rightarrow> byte" where
  "first_type ts = fold min ts (hd ts)"

definition last_type :: "byte list \<Rightarrow> byte" where
  "last_type ts = fold max ts (hd ts)"

definition empty_table :: "byte list \<Rightarrow> 'a option list" where
  "empty_table ts = replicate (unat (last_type ts) - unat (first_type ts) + 1) None"

definition slot :: "byte list \<Rightarrow> byte \<Rightarrow> nat" where
  "slot ts t = unat t - unat (first_type ts)"

definition group_types :: "message_group \<Rightarrow> byte list" where
  "group_types g = map c_type (g_messages g)"

definition enter_message ::
    "byte list \<Rightarrow> message_class \<Rightarrow> message_class option list \<Rightarrow> message_class option list"
where
  "enter_message ts c table =
     (if c_direction c = In then table[slot ts (c_type c) := Some c] else table)"

definition group_table :: "message_group \<Rightarrow> message_class option list" where
  "group_table g = fold (enter_message (group_types g)) (g_messages g) (empty_table (group_types g))"

definition enter_group ::
    "byte list \<Rightarrow> message_group \<Rightarrow> message_group option list \<Rightarrow> message_group option list"
where
  "enter_group ts g table =
     (if table ! slot ts (g_type g) = None then table[slot ts (g_type g) := Some g] else table)"

definition command_table :: "message_group list \<Rightarrow> message_group option list" where
  "command_table gs = fold (enter_group (map g_type gs)) gs (empty_table (map g_type gs))"

definition createFromDispatchTable :: "'a option list \<Rightarrow> byte \<Rightarrow> byte \<Rightarrow> byte \<Rightarrow> 'a option" where
  "createFromDispatchTable table lo hi t =
     (if t < lo \<or> t > hi then None else table ! (unat t - unat lo))"

definition Factory_create ::
    "message_group list \<Rightarrow> byte \<Rightarrow> byte \<Rightarrow> (message_group \<times> message_class) option"
where
  "Factory_create gs command subcommand =
     do { g \<leftarrow> createFromDispatchTable (command_table gs)
            (first_type (map g_type gs)) (last_type (map g_type gs)) command;
          c \<leftarrow> createFromDispatchTable (group_table g)
            (first_type (group_types g)) (last_type (group_types g)) subcommand;
          Some (g, c) }"

section \<open>The factory creates exactly the declared incoming classes\<close>

lemma fold_min_le: "fold min xs a \<le> (a :: byte) \<and> (\<forall>x \<in> set xs. fold min xs a \<le> x)"
proof (induction xs arbitrary: a)
  case (Cons x xs)
  show ?case using Cons.IH [of "min x a"] by (auto simp: min_le_iff_disj)
qed simp

lemma fold_max_ge: "(a :: byte) \<le> fold max xs a \<and> (\<forall>x \<in> set xs. x \<le> fold max xs a)"
proof (induction xs arbitrary: a)
  case (Cons x xs)
  show ?case using Cons.IH [of "max x a"] by (auto simp: max_def split: if_splits)
qed simp

lemma type_range:
  "t \<in> set ts \<Longrightarrow> first_type ts \<le> t" "t \<in> set ts \<Longrightarrow> t \<le> last_type ts"
  using fold_min_le [of ts "hd ts"] fold_max_ge [of "hd ts" ts]
  by (auto simp: first_type_def last_type_def)

lemma slot_inj: "t \<in> set ts \<Longrightarrow> u \<in> set ts \<Longrightarrow> slot ts t = slot ts u \<Longrightarrow> t = u"
  using type_range [of t ts] type_range [of u ts]
  by (simp add: slot_def word_le_nat_alt) (metis diff_add_inverse2 le_add_diff_inverse2 word_unat_eq_iff)

lemma slot_bound: "first_type ts \<le> t \<Longrightarrow> t \<le> last_type ts \<Longrightarrow> slot ts t < length (empty_table ts)"
  by (simp add: slot_def empty_table_def word_le_nat_alt)

lemma length_enter [simp]:
  "length (fold (enter_message ts) cs table) = length table"
  "length (fold (enter_group us) gs gtable) = length gtable"
  by (induction cs arbitrary: table, simp_all add: enter_message_def,
      induction gs arbitrary: gtable, simp_all add: enter_group_def)

lemma enter_messages_lookup:
  assumes "i < length table"
  shows "fold (enter_message ts) cs table ! i =
    (case find (\<lambda>c. c_direction c = In \<and> slot ts (c_type c) = i) (rev cs) of
       Some c \<Rightarrow> Some c | None \<Rightarrow> table ! i)"
  using assms
  by (induction cs rule: rev_induct) (auto simp: enter_message_def nth_list_update)

lemma enter_groups_lookup:
  assumes "i < length table"
  shows "fold (enter_group ts) gs table ! i =
    (case table ! i of Some g \<Rightarrow> Some g | None \<Rightarrow> find (\<lambda>g. slot ts (g_type g) = i) gs)"
  using assms
proof (induction gs arbitrary: table)
  case (Cons g gs)
  have "enter_group ts g table ! i =
      (case table ! i of Some g' \<Rightarrow> Some g' | None \<Rightarrow> if slot ts (g_type g) = i then Some g else None)"
    using Cons.prems by (cases "slot ts (g_type g) = i") (auto simp: enter_group_def split: option.splits)
  then show ?case
    using Cons.IH [of "enter_group ts g table"] Cons.prems
    by (simp add: enter_group_def split: option.splits if_splits)
qed (auto split: option.splits)

lemma find_SomeD: "find P xs = Some x \<Longrightarrow> P x \<and> x \<in> set xs"
  by (auto simp: find_Some_iff)

lemma find_unique:
  assumes u: "\<And>y. y \<in> set xs \<Longrightarrow> P y \<Longrightarrow> y = x" and x: "x \<in> set xs" "P x"
  shows "find P xs = Some x"
proof (cases "find P xs")
  case None
  with x show ?thesis by (simp add: find_None_iff)
next
  case (Some z)
  then have "z = x" using find_SomeD [OF Some] u [of z] by blast
  with Some show ?thesis by simp
qed

lemma empty_table_nth: "i < length (empty_table ts) \<Longrightarrow> empty_table ts ! i = None"
  unfolding empty_table_def by (simp only: length_replicate nth_replicate)

text \<open>No two groups and no two incoming messages of a group share a type.\<close>

definition unambiguous :: "message_group list \<Rightarrow> bool" where
  "unambiguous gs \<longleftrightarrow> distinct (map g_type gs) \<and>
     list_all (\<lambda>g. distinct (map c_type (filter (\<lambda>c. c_direction c = In) (g_messages g)))) gs"

lemma dispatch_eq_Some:
  "createFromDispatchTable table lo hi t = Some x \<longleftrightarrow>
     lo \<le> t \<and> t \<le> hi \<and> table ! (unat t - unat lo) = Some x"
  by (auto simp: createFromDispatchTable_def not_less)

lemma distinct_map_eq:
  "distinct (map f xs) \<Longrightarrow> x \<in> set xs \<Longrightarrow> y \<in> set xs \<Longrightarrow> f x = f y \<Longrightarrow> x = y"
  by (simp add: distinct_map inj_on_def)

lemma group_dispatch:
  assumes u: "distinct (map c_type (filter (\<lambda>c. c_direction c = In) (g_messages g)))"
  shows "createFromDispatchTable (group_table g) (first_type (group_types g)) (last_type (group_types g)) t
      = Some c \<longleftrightarrow> c \<in> set (g_messages g) \<and> c_direction c = In \<and> c_type c = t" (is "?l \<longleftrightarrow> ?r")
proof -
  let ?ts = "group_types g"
  have mem: "c_type c \<in> set ?ts" if "c \<in> set (g_messages g)" for c
    using that by (simp add: group_types_def)
  have lookup: "group_table g ! slot ?ts t =
      find (\<lambda>c. c_direction c = In \<and> slot ?ts (c_type c) = slot ?ts t) (rev (g_messages g))"
    if "first_type ?ts \<le> t" "t \<le> last_type ?ts"
    using enter_messages_lookup [OF slot_bound [OF that], of ?ts "g_messages g"]
      empty_table_nth [OF slot_bound [OF that]]
    by (cases "find (\<lambda>c. c_direction c = In \<and> slot ?ts (c_type c) = slot ?ts t) (rev (g_messages g))")
      (simp_all add: group_table_def)
  have same: "c_type c = t" if "c \<in> set (g_messages g)" "slot ?ts (c_type c) = slot ?ts t"
      "first_type ?ts \<le> t" for c
    using type_range(1) [OF mem [OF that(1)]] that(2,3)
    by (auto simp: slot_def word_le_nat_alt intro: word_unat_eq_iff [THEN iffD2])
  show ?thesis
  proof
    assume ?l
    then have r: "first_type ?ts \<le> t" "t \<le> last_type ?ts" and "group_table g ! slot ?ts t = Some c"
      by (auto simp: dispatch_eq_Some slot_def)
    then show ?r
      using same [of c] by (auto simp: lookup dest!: find_SomeD)
  next
    assume r: ?r
    then have range: "first_type ?ts \<le> t" "t \<le> last_type ?ts"
      using type_range [OF mem] by auto
    have "find (\<lambda>c. c_direction c = In \<and> slot ?ts (c_type c) = slot ?ts t) (rev (g_messages g)) = Some c"
      using r u same range
      by (intro find_unique) (auto dest: distinct_map_eq [of c_type _ _ c])
    then show ?l
      using range by (simp add: dispatch_eq_Some lookup flip: slot_def)
  qed
qed

lemma command_dispatch:
  assumes u: "distinct (map g_type gs)"
  shows "createFromDispatchTable (command_table gs) (first_type (map g_type gs)) (last_type (map g_type gs)) t
      = Some g \<longleftrightarrow> g \<in> set gs \<and> g_type g = t" (is "?l \<longleftrightarrow> ?r")
proof -
  let ?ts = "map g_type gs"
  have lookup: "command_table gs ! slot ?ts t = find (\<lambda>g. slot ?ts (g_type g) = slot ?ts t) gs"
    if "first_type ?ts \<le> t" "t \<le> last_type ?ts"
    unfolding command_table_def enter_groups_lookup [OF slot_bound [OF that]]
      empty_table_nth [OF slot_bound [OF that]] by simp
  have same: "g_type g = t" if "g \<in> set gs" "slot ?ts (g_type g) = slot ?ts t" "first_type ?ts \<le> t" for g
    using type_range(1) [of "g_type g" ?ts] that
    by (auto simp: slot_def word_le_nat_alt intro: word_unat_eq_iff [THEN iffD2])
  show ?thesis
  proof
    assume ?l
    then have r: "first_type ?ts \<le> t" "t \<le> last_type ?ts" and "command_table gs ! slot ?ts t = Some g"
      by (auto simp: dispatch_eq_Some slot_def)
    then show ?r
      using same [of g] by (auto simp: lookup dest!: find_SomeD)
  next
    assume r: ?r
    then have range: "first_type ?ts \<le> t" "t \<le> last_type ?ts"
      using type_range [of t ?ts] by auto
    have "find (\<lambda>g. slot ?ts (g_type g) = slot ?ts t) gs = Some g"
      using r u same range
      by (intro find_unique) (auto dest: distinct_map_eq [of g_type _ _ g])
    then show ?l
      using range by (simp add: dispatch_eq_Some lookup flip: slot_def)
  qed
qed

lemma Factory_create_unambiguous:
  assumes "unambiguous gs"
  shows "Factory_create gs command subcommand = Some (g, c) \<longleftrightarrow>
    g \<in> set gs \<and> g_type g = command \<and>
    c \<in> set (g_messages g) \<and> c_direction c = In \<and> c_type c = subcommand"
  using assms
  by (auto simp: Factory_create_def unambiguous_def list_all_iff Option.bind_eq_Some_conv
      command_dispatch group_dispatch)

lemmas group_defs = group_CALL_def group_DISP_def group_GEN_def group_MISC_def group_NET_def
  group_PWR_def group_RFS_def group_SEC_def group_SND_def group_SS_def group_SVC_def

lemma unambiguous_protocol: "unambiguous protocol"
  by (simp add: unambiguous_def protocol_def group_defs)

lemma protocol_well_formed:
  "g \<in> set protocol \<Longrightarrow> c \<in> set (g_messages g) \<Longrightarrow> well_formed (c_fields c)"
proof -
  have "list_all (\<lambda>g. list_all (\<lambda>c. well_formed (c_fields c)) (g_messages g)) protocol"
    by (simp add: protocol_def group_defs)
  then show "g \<in> set protocol \<Longrightarrow> c \<in> set (g_messages g) \<Longrightarrow> well_formed (c_fields c)"
    by (simp add: list_all_iff)
qed

text \<open>
  The factory creates a message for a pair of command bytes exactly when some group of the
  protocol has that command and declares an incoming class with that subcommand, and then it
  creates that class; outgoing classes that share the subcommand are never created.
\<close>

theorem Factory_create_protocol:
  "Factory_create protocol command subcommand = Some (g, c) \<longleftrightarrow>
    g \<in> set protocol \<and> g_type g = command \<and>
    c \<in> set (g_messages g) \<and> c_direction c = In \<and> c_type c = subcommand"
  by (rule Factory_create_unambiguous [OF unambiguous_protocol])

end
