(* ===== verification/Message.thy ===== *)
theory Message
  imports Protocol
begin

text \<open>
  The abstract class \<open>Message\<close> and the two packet headers (libsamsung-ipc/Message.h).  The
  socket handlers use a message only through its virtual functions and the factory; these are the
  components of \<open>message_ops\<close>, and \<open>wire_ops\<close> is their implementation by the generated classes.
\<close>

section \<open>Virtual functions\<close>

record 'm message_ops =
  create :: "byte \<Rightarrow> byte \<Rightarrow> 'm option"
  readMessage :: "'m \<Rightarrow> byte list \<Rightarrow> 'm option"
  writeMessage :: "'m \<Rightarrow> byte list option"
  m_command :: "'m \<Rightarrow> byte"
  m_subcommand :: "'m \<Rightarrow> byte"
  m_requestType :: "'m \<Rightarrow> byte"
  m_unsolicited :: "'m \<Rightarrow> bool"

text \<open>\<open>readMessage\<close> is \<open>readFromStream(stream) && stream.atEnd()\<close>, as both handlers use it.\<close>

section \<open>Messages of the generated classes\<close>

record wire_message =
  w_group :: message_group
  w_class :: message_class
  w_object :: object

definition wire_create :: "byte \<Rightarrow> byte \<Rightarrow> wire_message option" where
  "wire_create command subcommand =
     map_option (\<lambda>(g, c). \<lparr>w_group = g, w_class = c, w_object = []\<rparr>)
       (Factory_create protocol command subcommand)"

definition wire_ops :: "wire_message message_ops" where
  "wire_ops =
     \<lparr>create = wire_create,
      readMessage = (\<lambda>m bytes. map_option (\<lambda>obj. m\<lparr>w_object := obj\<rparr>)
        (unmarshal (c_fields (w_class m)) bytes)),
      writeMessage = (\<lambda>m. marshal (c_fields (w_class m)) (w_object m)),
      m_command = (\<lambda>m. g_type (w_group m)),
      m_subcommand = (\<lambda>m. c_type (w_class m)),
      m_requestType = (\<lambda>m. request_code (c_op (w_class m))),
      m_unsolicited = (\<lambda>m. c_id (w_class m) \<in> set (g_unsolicited (w_group m)))\<rparr>"

text \<open>\<open>message_cast\<close>: a static type test on the two command bytes.\<close>

definition isTypeOf :: "byte \<Rightarrow> byte \<Rightarrow> wire_message \<Rightarrow> bool" where
  "isTypeOf command subcommand m \<longleftrightarrow>
     m_command wire_ops m = command \<and> m_subcommand wire_ops m = subcommand"

section \<open>Packet headers\<close>

text \<open>Both structs are packed; the modem link is little-endian, as the processor.\<close>

record ipc_header =
  h_length :: u16
  h_mseq :: byte
  h_aseq :: byte
  h_mainCommand :: byte
  h_subCommand :: byte
  h_responseType :: byte

definition ipc_header_size :: nat where "ipc_header_size = 7"

definition header_bytes :: "ipc_header \<Rightarrow> byte list" where
  "header_bytes h = le16 (h_length h) @
     [h_mseq h, h_aseq h, h_mainCommand h, h_subCommand h, h_responseType h]"

definition header_of :: "byte list \<Rightarrow> ipc_header" where
  "header_of data =
     \<lparr>h_length = de16 data, h_mseq = data ! 2, h_aseq = data ! 3, h_mainCommand = data ! 4,
      h_subCommand = data ! 5, h_responseType = data ! 6\<rparr>"

record rfs_header =
  r_length :: u32
  r_type :: byte
  r_sequence :: byte

definition rfs_header_size :: nat where "rfs_header_size = 6"

definition rfs_header_bytes :: "rfs_header \<Rightarrow> byte list" where
  "rfs_header_bytes h = le32 (r_length h) @ [r_type h, r_sequence h]"

definition rfs_header_of :: "byte list \<Rightarrow> rfs_header" where
  "rfs_header_of data = \<lparr>r_length = de32 data, r_type = data ! 4, r_sequence = data ! 5\<rparr>"

lemma header_lengths [simp, layout_simps]:
  "length (header_bytes h) = 7" "length (rfs_header_bytes r) = 6"
  by (simp_all add: header_bytes_def rfs_header_bytes_def)

lemma header_round_trips [simp, layout_simps]:
  "header_of (header_bytes h @ xs) = h"
  "rfs_header_of (rfs_header_bytes r @ xs) = r"
  by (simp_all add: header_of_def header_bytes_def rfs_header_of_def rfs_header_bytes_def
      nth_append)

text \<open>A header depends on its own bytes only.\<close>

lemma de_append:
  "2 \<le> length xs \<Longrightarrow> de16 (xs @ ys) = de16 xs"
  "4 \<le> length xs \<Longrightarrow> de32 (xs @ ys) = de32 xs"
  by (auto simp: numeral_eq_Suc Suc_le_length_iff)

lemma header_of_append: "7 \<le> length xs \<Longrightarrow> header_of (xs @ ys) = header_of xs"
  by (simp add: header_of_def nth_append de_append)

lemma rfs_header_of_append: "6 \<le> length xs \<Longrightarrow> rfs_header_of (xs @ ys) = rfs_header_of xs"
  by (simp add: rfs_header_of_def nth_append de_append)

text \<open>
  C25. For every class of the protocol the generated reader and writer are inverse to each other:
  a byte string is accepted with an object exactly when the object fits the class and the writer
  produces that byte string from it.  So nothing that was written is misread, and no two byte
  strings mean the same message.
\<close>

theorem protocol_round_trip:
  assumes "g \<in> set protocol" and "c \<in> set (g_messages g)"
  shows "unmarshal (c_fields c) bytes = Some obj \<longleftrightarrow>
    conforms [] (c_fields c) obj \<and> marshal (c_fields c) obj = Some bytes"
  by (rule unmarshal_iff [OF protocol_well_formed [OF assms]])

theorem protocol_round_trip_witness:
  "unmarshal [U8 ''modeType'', U16 ''subType''] [1, 5, 0x10] =
     Some [(''modeType'', VU8 1), (''subType'', VU16 0x1005)]"
proof -
  let ?c = "message Out ''ENTER_SERVICE_MODE'' 1 IPC_CMD_SET [U8 ''modeType'', U16 ''subType'']"
  have "group_SVC \<in> set protocol" and "?c \<in> set (g_messages group_SVC)"
    by (simp_all add: protocol_def group_SVC_def)
  from protocol_round_trip [OF this] show ?thesis
    by (simp add: marshal_def DataStream_appending write_u8_def write_u16_def le16_def)
qed

end
