(* ===== verification/Socket_Handler.thy ===== *)
theory Socket_Handler
  imports Message
begin

text \<open>
  The reassembly of packets from the byte stream of a modem channel
  (libsamsung-ipc/SocketHandler.cpp).  \<open>SocketHandler\<close> is abstract in three virtual functions,
  \<open>headerSize\<close>, \<open>messageSize\<close> and \<open>handleReassembledMessage\<close>; they are arguments here, and the
  locale \<open>framed_handler\<close> states what the reassembly relies on.  The handler's own state (the
  fields of the derived class and its effects) is the type \<open>'s\<close>.
\<close>

section \<open>State and operations\<close>

text \<open>\<open>m_reassemblyBuf\<close> holds the \<open>m_reassemblyBufUsed\<close> valid bytes of the allocation.\<close>

record reassembly =
  m_reassemblyBuf :: "byte list"
  m_reassemblyBufSize :: nat

definition IOBufSize :: nat where "IOBufSize = 4096"

abbreviation m_reassemblyBufUsed :: "reassembly \<Rightarrow> nat" where
  "m_reassemblyBufUsed st \<equiv> length (m_reassemblyBuf st)"

definition SocketHandler :: reassembly where
  "SocketHandler = \<lparr>m_reassemblyBuf = [], m_reassemblyBufSize = IOBufSize\<rparr>"

text \<open>The room offered to \<open>recv\<close>.\<close>

definition recv_room :: "reassembly \<Rightarrow> nat" where
  "recv_room st = m_reassemblyBufSize st - m_reassemblyBufUsed st"

text \<open>
  The loop that hands out complete packets.  Behind each packet \<open>memcpy\<close> moves the remaining bytes to
  the front of the same buffer; when they are more than the packet was long, the two regions overlap,
  which \<open>memcpy\<close> does not allow.  The loop tests \<open>used >= headerSize()\<close> and \<open>used < size\<close> only: \<open>None\<close>
  is a loop that never leaves.
\<close>

definition memcpy_overlaps :: "nat \<Rightarrow> nat \<Rightarrow> bool" where
  "memcpy_overlaps packet newUsed \<longleftrightarrow> packet < newUsed"

partial_function (option) drain ::
    "nat \<Rightarrow> (byte list \<Rightarrow> nat) \<Rightarrow> (byte list \<Rightarrow> 's \<Rightarrow> 's outcome) \<Rightarrow> byte list \<Rightarrow> 's
      \<Rightarrow> (byte list \<times> 's) outcome option"
where
  "drain headerSize messageSize handle buf s =
     (if headerSize \<le> length buf then
        (if length buf < messageSize buf then Some (Inr (buf, s))
         else (case handle buf s of
                 Inl e \<Rightarrow> Some (Inl e)
               | Inr s' \<Rightarrow>
                   if memcpy_overlaps (messageSize buf) (length buf - messageSize buf)
                   then Some (Inl Undefined)
                   else drain headerSize messageSize handle (drop (messageSize buf) buf) s'))
      else Some (Inr (buf, s)))"

text \<open>The reallocation at the end of \<open>readable\<close> keeps \<open>IOBufSize\<close> bytes of room.\<close>

definition regrow :: "byte list \<Rightarrow> reassembly \<Rightarrow> reassembly" where
  "regrow buf st =
     (if m_reassemblyBufSize st - length buf \<noteq> IOBufSize
      then \<lparr>m_reassemblyBuf = buf, m_reassemblyBufSize = length buf + IOBufSize\<rparr>
      else st\<lparr>m_reassemblyBuf := buf\<rparr>)"

text \<open>\<open>readable\<close>, given the bytes that \<open>recv\<close> stored; none at all is the end of the stream.\<close>

definition readable ::
    "nat \<Rightarrow> (byte list \<Rightarrow> nat) \<Rightarrow> (byte list \<Rightarrow> 's \<Rightarrow> 's outcome) \<Rightarrow> byte list
      \<Rightarrow> reassembly \<times> 's \<Rightarrow> (reassembly \<times> 's) outcome option"
where
  "readable headerSize messageSize handle chunk = (\<lambda>(st, s).
     if chunk = [] then Some (Inl Panic)
     else do { r \<leftarrow> drain headerSize messageSize handle (m_reassemblyBuf st @ chunk) s;
               Some (case r of Inl e \<Rightarrow> Inl e | Inr (buf, s') \<Rightarrow> Inr (regrow buf st, s')) })"

fun receive ::
    "nat \<Rightarrow> (byte list \<Rightarrow> nat) \<Rightarrow> (byte list \<Rightarrow> 's \<Rightarrow> 's outcome) \<Rightarrow> byte list list
      \<Rightarrow> reassembly \<times> 's \<Rightarrow> (reassembly \<times> 's) outcome option"
where
  "receive hs ms handle [] st = Some (Inr st)"
| "receive hs ms handle (c # cs) st =
     do { r \<leftarrow> readable hs ms handle c st;
          case r of Inl e \<Rightarrow> Some (Inl e) | Inr st' \<Rightarrow> receive hs ms handle cs st' }"

section \<open>Specification: a stream is a sequence of packets\<close>

function frames :: "nat \<Rightarrow> (byte list \<Rightarrow> nat) \<Rightarrow> byte list \<Rightarrow> byte list list \<times> byte list" where
  "frames hs ms buf =
     (if hs \<le> length buf \<and> ms buf \<le> length buf \<and> 0 < ms buf
      then (take (ms buf) buf # fst (frames hs ms (drop (ms buf) buf)),
            snd (frames hs ms (drop (ms buf) buf)))
      else ([], buf))"
  by pat_completeness auto
termination
  by (relation "measure (\<lambda>(hs, ms, buf). length buf)") auto

text \<open>No packet announces a size smaller than its header.\<close>

function framed :: "nat \<Rightarrow> (byte list \<Rightarrow> nat) \<Rightarrow> byte list \<Rightarrow> bool" where
  "framed hs ms buf =
     (if hs \<le> length buf
      then 0 < ms buf \<and> hs \<le> ms buf \<and>
        (ms buf \<le> length buf \<longrightarrow> (if 0 < ms buf \<and> ms buf \<le> length buf
           then framed hs ms (drop (ms buf) buf) else True))
      else True)"
  by pat_completeness auto
termination
  by (relation "measure (\<lambda>(hs, ms, buf). length buf)") auto

text \<open>No packet is followed in the buffer by more bytes than it has itself.\<close>

function apart :: "nat \<Rightarrow> (byte list \<Rightarrow> nat) \<Rightarrow> byte list \<Rightarrow> bool" where
  "apart hs ms buf =
     (if hs \<le> length buf \<and> ms buf \<le> length buf \<and> 0 < ms buf
      then length buf - ms buf \<le> ms buf \<and> apart hs ms (drop (ms buf) buf)
      else True)"
  by pat_completeness auto
termination
  by (relation "measure (\<lambda>(hs, ms, buf). length buf)") auto

declare frames.simps [simp del] framed.simps [simp del] apart.simps [simp del]

text \<open>The same for every buffer that the reception of some chunks leads to.\<close>

primrec moves_apart :: "nat \<Rightarrow> (byte list \<Rightarrow> nat) \<Rightarrow> byte list list \<Rightarrow> byte list \<Rightarrow> bool" where
  "moves_apart hs ms [] buf = True"
| "moves_apart hs ms (c # cs) buf =
     (apart hs ms (buf @ c) \<and> moves_apart hs ms cs (snd (frames hs ms (buf @ c))))"

fun deliver_frames :: "(byte list \<Rightarrow> 's \<Rightarrow> 's outcome) \<Rightarrow> byte list list \<Rightarrow> 's \<Rightarrow> 's outcome" where
  "deliver_frames handle [] s = Inr s"
| "deliver_frames handle (f # fs) s = andThen (handle f s) (deliver_frames handle fs)"

lemma deliver_frames_append:
  "deliver_frames handle (fs @ gs) s = andThen (deliver_frames handle fs s) (deliver_frames handle gs)"
  by (induction fs arbitrary: s) (auto simp: andThen_def split: sum.splits)

lemma framed_step:
  assumes "framed hs ms buf" and "hs \<le> length buf"
  shows "0 < ms buf" and "hs \<le> ms buf" and "ms buf \<le> length buf \<Longrightarrow> framed hs ms (drop (ms buf) buf)"
  using assms framed.simps [of hs ms buf] by auto

lemma frames_step:
  "hs \<le> length buf \<Longrightarrow> ms buf \<le> length buf \<Longrightarrow> 0 < ms buf \<Longrightarrow>
     frames hs ms buf = (take (ms buf) buf # fst (frames hs ms (drop (ms buf) buf)),
       snd (frames hs ms (drop (ms buf) buf)))"
  by (subst frames.simps) simp

lemma frames_stop: "\<not> (hs \<le> length buf \<and> ms buf \<le> length buf) \<Longrightarrow> frames hs ms buf = ([], buf)"
  by (subst frames.simps) auto

text \<open>How many frames are handed out until one of them is followed by more bytes than it has.\<close>

function overlap_at :: "nat \<Rightarrow> (byte list \<Rightarrow> nat) \<Rightarrow> byte list \<Rightarrow> nat" where
  "overlap_at hs ms buf =
     (if hs \<le> length buf \<and> ms buf \<le> length buf \<and> 0 < ms buf
      then Suc (if length buf - ms buf \<le> ms buf then overlap_at hs ms (drop (ms buf) buf) else 0)
      else 0)"
  by pat_completeness auto
termination
  by (relation "measure (\<lambda>(hs, ms, buf). length buf)") auto

declare overlap_at.simps [simp del]

lemma overlap_at_step:
  "hs \<le> length buf \<Longrightarrow> ms buf \<le> length buf \<Longrightarrow> 0 < ms buf \<Longrightarrow>
     overlap_at hs ms buf = Suc (if length buf - ms buf \<le> ms buf then overlap_at hs ms (drop (ms buf) buf) else 0)"
  by (subst overlap_at.simps) simp

lemma overlap_at_le: "overlap_at hs ms buf \<le> length (fst (frames hs ms buf))"
proof (induction hs ms buf rule: frames.induct)
  case (1 hs ms buf)
  then show ?case
    by (cases "hs \<le> length buf \<and> ms buf \<le> length buf \<and> 0 < ms buf")
      (auto simp: frames.simps [of hs ms buf] overlap_at.simps [of hs ms buf])
qed

lemma apart_step:
  "hs \<le> length buf \<Longrightarrow> ms buf \<le> length buf \<Longrightarrow> 0 < ms buf \<Longrightarrow>
     apart hs ms buf \<longleftrightarrow> length buf - ms buf \<le> ms buf \<and> apart hs ms (drop (ms buf) buf)"
  by (subst apart.simps) simp

lemma apart_stop: "\<not> (hs \<le> length buf \<and> ms buf \<le> length buf) \<Longrightarrow> apart hs ms buf"
  by (subst apart.simps) auto

text \<open>The frames and the rest are the whole stream.\<close>

lemma frames_concat: "concat (fst (frames hs ms buf)) @ snd (frames hs ms buf) = buf"
proof (induction hs ms buf rule: frames.induct)
  case (1 hs ms buf)
  then show ?case
    by (cases "hs \<le> length buf \<and> ms buf \<le> length buf \<and> 0 < ms buf")
      (auto simp: frames.simps [of hs ms buf])
qed

section \<open>The contract of the virtual functions\<close>

text \<open>
  \<open>messageSize\<close> looks at the header only, and \<open>handleReassembledMessage\<close> at the packet only,
  although both are given a pointer to the whole buffer.
\<close>

locale framed_handler =
  fixes headerSize :: nat
    and messageSize :: "byte list \<Rightarrow> nat"
    and handle :: "byte list \<Rightarrow> 's \<Rightarrow> 's outcome"
  assumes header_nonempty: "0 < headerSize"
    and messageSize_local: "headerSize \<le> length xs \<Longrightarrow> messageSize (xs @ ys) = messageSize xs"
    and handle_local: "headerSize \<le> messageSize xs \<Longrightarrow> messageSize xs = length xs \<Longrightarrow>
      handle (xs @ ys) s = handle xs s"
begin

lemma handle_take:
  assumes "headerSize \<le> length buf" "headerSize \<le> messageSize buf" "messageSize buf \<le> length buf"
  shows "handle buf s = handle (take (messageSize buf) buf) s"
proof -
  let ?xs = "take (messageSize buf) buf"
  have "messageSize (?xs @ drop (messageSize buf) buf) = messageSize ?xs"
    using assms by (intro messageSize_local) simp
  then have "messageSize ?xs = messageSize buf" by simp
  then show ?thesis
    using assms handle_local [of ?xs "drop (messageSize buf) buf" s] by simp
qed

lemma drain_step:
  assumes "headerSize \<le> length buf" "headerSize \<le> messageSize buf" "messageSize buf \<le> length buf"
  shows "drain headerSize messageSize handle buf s =
    (case handle (take (messageSize buf) buf) s of Inl e \<Rightarrow> Some (Inl e)
     | Inr s' \<Rightarrow> if length buf - messageSize buf \<le> messageSize buf
                then drain headerSize messageSize handle (drop (messageSize buf) buf) s'
                else Some (Inl Undefined))"
  unfolding handle_take [OF assms, of s, symmetric]
  using assms by (simp add: drain.simps [of headerSize messageSize handle buf s] memcpy_overlaps_def not_less
      split: sum.splits)

lemma drain_wait:
  "\<not> (headerSize \<le> length buf \<and> messageSize buf \<le> length buf) \<Longrightarrow>
     drain headerSize messageSize handle buf s = Some (Inr (buf, s))"
  by (cases "headerSize \<le> length buf"; subst drain.simps) simp_all

text \<open>
  The loop hands out the frames in order; it ends with the rest, or with the first frame that is
  followed by more bytes than it has.
\<close>

lemma drain_frames:
  assumes "framed headerSize messageSize buf"
  shows "drain headerSize messageSize handle buf s =
    (if apart headerSize messageSize buf
     then Some (andThen (deliver_frames handle (fst (frames headerSize messageSize buf)) s)
       (\<lambda>s'. Inr (snd (frames headerSize messageSize buf), s')))
     else Some (andThen (deliver_frames handle (take (overlap_at headerSize messageSize buf)
         (fst (frames headerSize messageSize buf))) s) (\<lambda>s'. Inl Undefined)))"
  using assms
proof (induction "length buf" arbitrary: buf s rule: less_induct)
  case less
  show ?case
  proof (cases "headerSize \<le> length buf \<and> messageSize buf \<le> length buf")
    case True
    note step = framed_step [OF less.prems conjunct1 [OF True]]
    let ?tl = "drop (messageSize buf) buf"
    note IH = less.hyps [of ?tl]
    have tl: "length ?tl < length buf" "framed headerSize messageSize ?tl" using step True by auto
    have cond: "headerSize \<le> length buf" "messageSize buf \<le> length buf" "0 < messageSize buf"
      using True step(1) by auto
    show ?thesis
      unfolding drain_step [OF cond(1) step(2) cond(2)]
        frames_step [of headerSize buf messageSize, OF cond] apart_step [of headerSize buf messageSize, OF cond]
        overlap_at_step [of headerSize buf messageSize, OF cond]
      by (cases "handle (take (messageSize buf) buf) s") (simp_all add: IH [OF tl])
  next
    case False
    then show ?thesis
      by (simp add: drain_wait frames_stop apart_stop)
  qed
qed

lemma framed_prefix: "framed headerSize messageSize (xs @ ys) \<Longrightarrow> framed headerSize messageSize xs"
proof (induction "length xs" arbitrary: xs rule: less_induct)
  case less
  show ?case
  proof (cases "headerSize \<le> length xs")
    case True
    then have s: "messageSize (xs @ ys) = messageSize xs" by (rule messageSize_local)
    from True have "headerSize \<le> length (xs @ ys)" by simp
    note step = framed_step [OF less.prems this, unfolded s]
    have "framed headerSize messageSize (drop (messageSize xs) xs)" if le: "messageSize xs \<le> length xs"
    proof (rule less.hyps)
      show "length (drop (messageSize xs) xs) < length xs"
        using step(1) le by simp
      show "framed headerSize messageSize (drop (messageSize xs) xs @ ys)"
        using step(3) le by simp
    qed
    with step(1,2) show ?thesis
      by (simp add: framed.simps [of headerSize messageSize xs])
  next
    case False
    then show ?thesis by (simp add: framed.simps [of headerSize messageSize xs])
  qed
qed

lemma frames_append:
  "framed headerSize messageSize (xs @ ys) \<Longrightarrow>
     framed headerSize messageSize (snd (frames headerSize messageSize xs) @ ys) \<and>
     frames headerSize messageSize (xs @ ys) =
       (fst (frames headerSize messageSize xs) @
          fst (frames headerSize messageSize (snd (frames headerSize messageSize xs) @ ys)),
        snd (frames headerSize messageSize (snd (frames headerSize messageSize xs) @ ys)))"
proof (induction "length xs" arbitrary: xs rule: less_induct)
  case less
  show ?case
  proof (cases "headerSize \<le> length xs \<and> messageSize xs \<le> length xs")
    case True
    then have s: "messageSize (xs @ ys) = messageSize xs" by (simp add: messageSize_local)
    note step = framed_step [OF less.prems]
    have pos: "0 < messageSize xs" using step(1) True s by auto
    have "framed headerSize messageSize (drop (messageSize xs) xs @ ys)"
      using step(3) True s by simp
    with True pos have IH: "framed headerSize messageSize
        (snd (frames headerSize messageSize (drop (messageSize xs) xs)) @ ys) \<and>
      frames headerSize messageSize (drop (messageSize xs) xs @ ys) =
       (fst (frames headerSize messageSize (drop (messageSize xs) xs)) @
          fst (frames headerSize messageSize
            (snd (frames headerSize messageSize (drop (messageSize xs) xs)) @ ys)),
        snd (frames headerSize messageSize
          (snd (frames headerSize messageSize (drop (messageSize xs) xs)) @ ys)))"
      by (intro less.hyps) auto
    show ?thesis
      using True pos s IH frames_step [of headerSize xs messageSize]
        frames_step [of headerSize "xs @ ys" messageSize] by simp
  next
    case False
    then show ?thesis using less.prems by (simp add: frames_stop)
  qed
qed

text \<open>
  As long as no move overlaps, it does not matter how the stream was cut into chunks: the handler
  sees the frames of the whole stream in order, and what is left waits in the buffer.  Otherwise it
  sees some of the first frames, and then the behaviour is undefined.
\<close>

lemma readable_frames:
  assumes "framed headerSize messageSize (m_reassemblyBuf st @ c)" "c \<noteq> []"
  defines "buf \<equiv> m_reassemblyBuf st @ c"
  defines "rest \<equiv> snd (frames headerSize messageSize buf)"
  shows "readable headerSize messageSize handle c (st, s) =
    (if apart headerSize messageSize buf
     then Some (andThen (deliver_frames handle (fst (frames headerSize messageSize buf)) s)
       (\<lambda>s'. Inr (\<lparr>m_reassemblyBuf = rest, m_reassemblyBufSize = length rest + IOBufSize\<rparr>, s')))
     else Some (andThen (deliver_frames handle (take (overlap_at headerSize messageSize buf)
         (fst (frames headerSize messageSize buf))) s) (\<lambda>s'. Inl Undefined)))"
proof -
  have grow: "regrow rest st = \<lparr>m_reassemblyBuf = rest, m_reassemblyBufSize = length rest + IOBufSize\<rparr>"
    by (cases st) (auto simp: regrow_def IOBufSize_def)
  show ?thesis
    using assms(2) drain_frames [OF assms(1), of s]
    by (auto simp: readable_def andThen_def buf_def [symmetric] rest_def [symmetric] grow split: sum.splits)
qed

lemma receive_frames:
  assumes "framed headerSize messageSize (m_reassemblyBuf st @ concat chunks)"
    and "[] \<notin> set chunks"
    and "m_reassemblyBufSize st = m_reassemblyBufUsed st + IOBufSize"
    and "frames headerSize messageSize (m_reassemblyBuf st) = ([], m_reassemblyBuf st)"
    and "moves_apart headerSize messageSize chunks (m_reassemblyBuf st)"
  shows "receive headerSize messageSize handle chunks (st, s) =
    (let (fs, rest) = frames headerSize messageSize (m_reassemblyBuf st @ concat chunks)
     in Some (andThen (deliver_frames handle fs s)
       (\<lambda>s'. Inr (\<lparr>m_reassemblyBuf = rest, m_reassemblyBufSize = length rest + IOBufSize\<rparr>, s'))))"
  using assms
proof (induction chunks arbitrary: st s)
  case Nil
  then show ?case by (cases st) auto
next
  case (Cons c cs)
  let ?buf = "m_reassemblyBuf st @ c"
  let ?fs = "fst (frames headerSize messageSize ?buf)"
  let ?rest = "snd (frames headerSize messageSize ?buf)"
  let ?st = "\<lparr>m_reassemblyBuf = ?rest, m_reassemblyBufSize = length ?rest + IOBufSize\<rparr>"
  have whole: "framed headerSize messageSize (?buf @ concat cs)" using Cons.prems(1) by simp
  note app = frames_append [OF whole]
  have fr: "framed headerSize messageSize ?buf" by (rule framed_prefix [OF whole])
  have c: "c \<noteq> []" using Cons.prems(2) by auto
  have self: "frames headerSize messageSize ?rest = ([], ?rest)"
    using frames_append [of "?buf" "[]"] fr by (auto simp: prod_eq_iff)
  have rd: "readable headerSize messageSize handle c (st, s) =
      Some (andThen (deliver_frames handle ?fs s) (\<lambda>s'. Inr (?st, s')))"
    using Cons.prems(5) readable_frames [OF fr c, of s] by simp
  show ?case
  proof (cases "deliver_frames handle ?fs s")
    case (Inl e)
    then show ?thesis
      using rd app by (simp add: case_prod_beta deliver_frames_append)
  next
    case (Inr s')
    have "receive headerSize messageSize handle cs (?st, s') =
      (let (fs, rest) = frames headerSize messageSize (?rest @ concat cs)
       in Some (andThen (deliver_frames handle fs s')
         (\<lambda>s'. Inr (\<lparr>m_reassemblyBuf = rest, m_reassemblyBufSize = length rest + IOBufSize\<rparr>, s'))))"
      using Cons.IH [of ?st s'] app Cons.prems(2,5) self by simp
    then show ?thesis
      using rd app Inr by (simp add: case_prod_beta deliver_frames_append)
  qed
qed

lemma receive_overlaps:
  assumes "framed headerSize messageSize (m_reassemblyBuf st @ concat chunks)"
    and "[] \<notin> set chunks"
    and "\<not> moves_apart headerSize messageSize chunks (m_reassemblyBuf st)"
  shows "\<exists>n. receive headerSize messageSize handle chunks (st, s) =
    Some (andThen (deliver_frames handle
        (take n (fst (frames headerSize messageSize (m_reassemblyBuf st @ concat chunks)))) s)
      (\<lambda>s'. Inl Undefined))"
  using assms
proof (induction chunks arbitrary: st s)
  case (Cons c cs)
  let ?buf = "m_reassemblyBuf st @ c"
  let ?fs = "fst (frames headerSize messageSize ?buf)"
  let ?rest = "snd (frames headerSize messageSize ?buf)"
  let ?st = "\<lparr>m_reassemblyBuf = ?rest, m_reassemblyBufSize = length ?rest + IOBufSize\<rparr>"
  let ?later = "fst (frames headerSize messageSize (?rest @ concat cs))"
  have whole: "framed headerSize messageSize (?buf @ concat cs)" using Cons.prems(1) by simp
  have all: "fst (frames headerSize messageSize (m_reassemblyBuf st @ concat (c # cs))) = ?fs @ ?later"
    using frames_append [OF whole] by simp
  have fr: "framed headerSize messageSize ?buf" by (rule framed_prefix [OF whole])
  have "c \<noteq> []" using Cons.prems(2) by auto
  note rd = readable_frames [OF fr this, of s]
  show ?case
  proof (cases "apart headerSize messageSize ?buf")
    case False
    then have "receive headerSize messageSize handle (c # cs) (st, s) =
        Some (andThen (deliver_frames handle (take (overlap_at headerSize messageSize ?buf) ?fs) s)
          (\<lambda>s'. Inl Undefined))"
      using rd by (simp add: andThen_def split: sum.splits)
    then show ?thesis
      unfolding all using overlap_at_le [of headerSize messageSize ?buf]
      by (intro exI [of _ "overlap_at headerSize messageSize ?buf"]) simp
  next
    case True
    then have rd: "readable headerSize messageSize handle c (st, s) =
        Some (andThen (deliver_frames handle ?fs s) (\<lambda>s'. Inr (?st, s')))"
      using rd by simp
    show ?thesis
    proof (cases "deliver_frames handle ?fs s")
      case (Inl e)
      then show ?thesis
        unfolding all using rd by (intro exI [of _ "length ?fs"]) simp
    next
      case (Inr s')
      have "framed headerSize messageSize (?rest @ concat cs)" using frames_append [OF whole] by simp
      then obtain n where "receive headerSize messageSize handle cs (?st, s') =
          Some (andThen (deliver_frames handle (take n ?later) s') (\<lambda>s'. Inl Undefined))"
        using Cons.IH [of ?st s'] Cons.prems(2,3) True by auto
      then show ?thesis
        unfolding all using rd Inr
        by (intro exI [of _ "length ?fs + n"]) (simp add: deliver_frames_append)
    qed
  qed
qed simp

lemma receive_from_start:
  assumes "framed headerSize messageSize (concat chunks)" and "[] \<notin> set chunks"
  shows "moves_apart headerSize messageSize chunks [] \<Longrightarrow>
      receive headerSize messageSize handle chunks (SocketHandler, s) =
    (let (fs, rest) = frames headerSize messageSize (concat chunks)
     in Some (andThen (deliver_frames handle fs s)
       (\<lambda>s'. Inr (\<lparr>m_reassemblyBuf = rest, m_reassemblyBufSize = length rest + IOBufSize\<rparr>, s'))))"
    and "\<not> moves_apart headerSize messageSize chunks [] \<Longrightarrow>
      \<exists>n. receive headerSize messageSize handle chunks (SocketHandler, s) =
        Some (andThen (deliver_frames handle (take n (fst (frames headerSize messageSize (concat chunks)))) s)
          (\<lambda>s'. Inl Undefined))"
  using receive_frames [of SocketHandler chunks s] receive_overlaps [of SocketHandler chunks s] assms header_nonempty
  by (simp_all add: SocketHandler_def frames_stop)

text \<open>A \<open>recv\<close> that gives one packet at a time never makes a move overlap.\<close>

lemma single_packets_apart:
  assumes "\<And>p. p \<in> set ps \<Longrightarrow> headerSize \<le> length p \<and> messageSize p = length p"
  shows "moves_apart headerSize messageSize ps []"
  using assms
proof (induction ps)
  case (Cons p ps)
  then have p: "headerSize \<le> length p" "messageSize p = length p" by simp_all
  then have cond: "messageSize p \<le> length p" "0 < messageSize p" using header_nonempty by linarith+
  have "moves_apart headerSize messageSize ps []" using Cons by simp
  then show ?case
    using frames_step [of headerSize p messageSize, OF p(1) cond] apart_step [of headerSize p messageSize, OF p(1) cond]
      header_nonempty p(2)
    by (simp add: frames_stop apart_stop)
qed simp

end

section \<open>Room and progress\<close>

lemma regrow_room: "recv_room (regrow buf st) = IOBufSize"
  by (simp add: recv_room_def regrow_def)

text \<open>The loop always ends, because a packet of size zero makes the move overlap.\<close>

lemma drain_returns: "0 < hs \<Longrightarrow> drain hs ms handle buf s \<noteq> None"
proof (induction "length buf" arbitrary: buf s rule: less_induct)
  case less
  have IH: "drain hs ms handle (drop (ms buf) buf) s' \<noteq> None"
    if "hs \<le> length buf" "\<not> memcpy_overlaps (ms buf) (length buf - ms buf)" for s'
    using that less.prems by (intro less.hyps) (auto simp: memcpy_overlaps_def)
  show ?case
    by (subst drain.simps) (auto split: sum.splits dest: IH)
qed

text \<open>A packet that announces size zero is handed out, and then copied onto itself.\<close>

lemma drain_zero:
  assumes "hs \<le> length buf" "0 < hs" "ms buf = 0" "handle buf s = Inr s'"
  shows "drain hs ms handle buf s = Some (Inl Undefined)"
  using assms by (subst drain.simps) (auto simp: memcpy_overlaps_def)

end
