(* ===== verification/IFile_System.thy ===== *)
theory IFile_System
  imports Kernel
begin

text \<open>
  The interface of the file system (libsamsung-ipc/IFileSystem.h), which the RFS handler and the
  boot loader are written against, and the laws the RFS handler relies on.
\<close>

datatype FirmwareType = PSI | EBL | SecureImage | Firmware | DefaultNVData

text \<open>
  The virtual functions.  A buffer or \<open>struct stat\<close> passed by reference is an argument and a
  component of the result; an uninitialised \<open>struct stat\<close> is \<open>None\<close>.
\<close>

record 'f fs_ops =
  fs_getFirmware :: "FirmwareType \<Rightarrow> 'f \<Rightarrow> ((bool \<times> byte list) \<times> 'f) outcome"
  fs_readNVData :: "u32 \<Rightarrow> byte list \<Rightarrow> 'f \<Rightarrow> (int \<times> byte list) \<times> 'f"
  fs_writeNVData :: "u32 \<Rightarrow> byte list \<Rightarrow> 'f \<Rightarrow> (int \<times> 'f) outcome"
  fs_backupNVData :: "bool \<Rightarrow> 'f \<Rightarrow> 'f outcome"
  fs_readFile :: "int \<Rightarrow> byte list \<Rightarrow> 'f \<Rightarrow> (int \<times> byte list) \<times> 'f"
  fs_writeFile :: "int \<Rightarrow> byte list \<Rightarrow> 'f \<Rightarrow> int \<times> 'f"
  fs_lseekFile :: "int \<Rightarrow> int \<Rightarrow> int \<Rightarrow> 'f \<Rightarrow> int \<times> 'f"
  fs_closeFile :: "int \<Rightarrow> 'f \<Rightarrow> int \<times> 'f"
  fs_renameFile :: "path \<Rightarrow> path \<Rightarrow> 'f \<Rightarrow> int \<times> 'f"
  fs_getFileInfoByHandle :: "int \<Rightarrow> stat_buf option \<Rightarrow> 'f \<Rightarrow> (int \<times> stat_buf option) \<times> 'f"
  fs_deleteFile :: "path \<Rightarrow> 'f \<Rightarrow> int \<times> 'f"
  fs_makeDirectory :: "path \<Rightarrow> 'f \<Rightarrow> int \<times> 'f"
  fs_deleteDirectory :: "path \<Rightarrow> 'f \<Rightarrow> int \<times> 'f"
  fs_openDirectory :: "path \<Rightarrow> 'f \<Rightarrow> int \<times> 'f"
  fs_readDirectory :: "int \<Rightarrow> path \<Rightarrow> 'f \<Rightarrow> (int \<times> path) \<times> 'f"
  fs_closeDirectory :: "int \<Rightarrow> 'f \<Rightarrow> int \<times> 'f"
  fs_openFile :: "path \<Rightarrow> int \<Rightarrow> 'f \<Rightarrow> int \<times> 'f"
  fs_ftruncateFile :: "int \<Rightarrow> nat \<Rightarrow> 'f \<Rightarrow> int \<times> 'f"

section \<open>The contract\<close>

text \<open>
  A negative result is a failure that leaves the descriptors alone; \<open>openFile\<close> gives the descriptor
  it returns, \<open>closeFile\<close> takes its argument when it returns 0, and the operations on an open file
  change no descriptor and no buffer length.
\<close>

locale file_service =
  fixes ops :: "'f fs_ops"
    and descriptors :: "'f \<Rightarrow> int set"
  assumes open_failed: "fs_openFile ops name flags f = (r, f') \<Longrightarrow> r < 0 \<Longrightarrow> descriptors f' = descriptors f"
    and open_gives: "fs_openFile ops name flags f = (r, f') \<Longrightarrow> 0 \<le> r \<Longrightarrow>
      descriptors f' = insert r (descriptors f)"
    and close_takes: "fs_closeFile ops fd f = (0, f') \<Longrightarrow> descriptors f' = descriptors f - {fd}"
    and close_failed: "fs_closeFile ops fd f = (r, f') \<Longrightarrow> r \<noteq> 0 \<Longrightarrow> descriptors f' = descriptors f"
    and read_keeps: "fs_readFile ops fd data f = ((r, data'), f') \<Longrightarrow>
      descriptors f' = descriptors f \<and> length data' = length data \<and> r \<le> int (length data)"
    and write_keeps: "fs_writeFile ops fd data f = (r, f') \<Longrightarrow> descriptors f' = descriptors f"
    and stat_keeps: "fs_getFileInfoByHandle ops fd buf f = ((r, buf'), f') \<Longrightarrow>
      descriptors f' = descriptors f \<and> (r = 0 \<longrightarrow> buf' \<noteq> None)"
    and nv_length: "fs_readNVData ops offset data f = ((r, data'), f') \<Longrightarrow> length data' = length data"
begin

text \<open>A file that is opened, used and closed leaves no descriptor unless closing it fails.\<close>

lemma open_use_close:
  assumes "fs_openFile ops name flags f = (fd, f1)" "0 \<le> fd" "fd \<notin> descriptors f"
    and "descriptors f2 = descriptors f1" and "fs_closeFile ops fd f2 = (r, f3)"
  shows "descriptors f3 = (if r = 0 then descriptors f else insert fd (descriptors f))"
  using assms open_gives [OF assms(1,2)] close_takes [of fd f2 f3] close_failed [of fd f2 r f3] by auto

end

end
