(* ===== verification/RFS_Handler.thy ===== *)
theory RFS_Handler
  imports Socket_Handler IFile_System
begin

text \<open>
  The remote file system channel (libsamsung-ipc/RFSSocketHandler.cpp): the modem's requests for
  files and NV data, answered through the file system interface.  The file system is the record of
  its operations; \<open>localtime_r\<close> is a parameter.
\<close>

section \<open>Fields of requests and replies\<close>

definition get_u32 :: "string \<Rightarrow> object \<Rightarrow> u32" where
  "get_u32 x obj = (case map_of obj x of Some (VU32 v) \<Rightarrow> v | _ \<Rightarrow> 0)"

definition get_bytes :: "string \<Rightarrow> object \<Rightarrow> byte list" where
  "get_bytes x obj = (case map_of obj x of Some (VBytes bs) \<Rightarrow> bs | _ \<Rightarrow> [])"

definition get_int :: "string \<Rightarrow> object \<Rightarrow> int" where "get_int x obj = sint (get_u32 x obj)"

text \<open>A reply of the RFS group with the values its setters were given.\<close>

definition rfs_class :: "string \<Rightarrow> message_class" where
  "rfs_class i = the (find (\<lambda>c. c_id c = i) (g_messages group_RFS))"

definition rfs_reply :: "string \<Rightarrow> object \<Rightarrow> wire_message" where
  "rfs_reply i values =
     \<lparr>w_group = group_RFS, w_class = rfs_class i,
      w_object = map (\<lambda>f. (field_name f, the (map_of values (field_name f)))) (c_fields (rfs_class i))\<rparr>"

definition buildReply :: "int \<Rightarrow> object" where
  "buildReply ret =
     (if ret < 0 then [(''ret'', VU32 (- 1)), (''errno'', VU32 (of_int (- ret)))]
      else [(''ret'', VU32 (of_int ret)), (''errno'', VU32 0)])"

record tm =
  tm_year :: int
  tm_mon :: int
  tm_mday :: int
  tm_hour :: int
  tm_min :: int
  tm_sec :: int

text \<open>Reading a \<open>struct stat\<close> that nobody filled is undefined.\<close>

definition buildFileInfo :: "(int \<Rightarrow> tm) \<Rightarrow> stat_buf option \<Rightarrow> object outcome" where
  "buildFileInfo localtime statbuf =
     (case statbuf of
        None \<Rightarrow> Inl Undefined
      | Some st \<Rightarrow>
          (let c = localtime (st_ctime st); m = localtime (st_mtime st)
           in Inr [(''type'', VU16 (if st_is_dir st then 1 else 2)), (''size'', VU32 (of_nat (st_size st))),
                (''cyear'', VU8 (of_int (tm_year c - 100))), (''cmonth'', VU8 (of_int (tm_mon c + 1))),
                (''cday'', VU8 (of_int (tm_mday c))), (''chour'', VU8 (of_int (tm_hour c))),
                (''cminute'', VU8 (of_int (tm_min c))), (''csecond'', VU8 (of_int (tm_sec c))),
                (''myear'', VU8 (of_int (tm_year m - 100))), (''mmonth'', VU8 (of_int (tm_mon m + 1))),
                (''mday'', VU8 (of_int (tm_mday m))), (''mhour'', VU8 (of_int (tm_hour m))),
                (''mminute'', VU8 (of_int (tm_min m))), (''msecond'', VU8 (of_int (tm_sec m)))]))"

text \<open>\<open>name.assign(&field[0], min(field.size(), size))\<close>.\<close>

definition name_of :: "string \<Rightarrow> string \<Rightarrow> object \<Rightarrow> path" where
  "name_of field len obj = take (unat (get_u32 len obj)) (get_bytes field obj)"

section \<open>Handlers\<close>

type_synonym 'f rfs_handler = "object \<Rightarrow> 'f \<Rightarrow> (wire_message \<times> 'f) outcome"

definition handleNvRead :: "'f fs_ops \<Rightarrow> 'f rfs_handler" where
  "handleNvRead ops msg f =
     (let data = replicate (min 512 (unat (get_u32 ''size'' msg))) 0 in
      case fs_readNVData ops (get_u32 ''offset'' msg) data f of ((ret, data), f) \<Rightarrow>
        Inr (rfs_reply ''NV_READ_REPLY''
          [(''offset'', VU32 (get_u32 ''offset'' msg)), (''size'', VU32 (get_u32 ''size'' msg)),
           (''status'', VU8 (if ret = 0 then 1 else 0)), (''data'', VBytes (resize 512 data))], f))"

definition nv_write_reply :: "string \<Rightarrow> object \<Rightarrow> int \<Rightarrow> wire_message" where
  "nv_write_reply i msg ret =
     rfs_reply i [(''offset'', VU32 (get_u32 ''offset'' msg)), (''size'', VU32 (get_u32 ''size'' msg)),
       (''status'', VU8 (if ret = 0 then 1 else 0))]"

definition handleNvWrite :: "'f fs_ops \<Rightarrow> 'f rfs_handler" where
  "handleNvWrite ops msg f =
     andThen (fs_writeNVData ops (get_u32 ''offset'' msg) (get_bytes ''data'' msg) f) (\<lambda>(ret, f).
       Inr (nv_write_reply ''NV_WRITE_REPLY'' msg ret, f))"

definition handleReadFile :: "'f fs_ops \<Rightarrow> 'f rfs_handler" where
  "handleReadFile ops msg f =
     (let data = replicate (min 4096 (unat (get_u32 ''bytes'' msg))) 0 in
      case fs_readFile ops (get_int ''fd'' msg) data f of ((ret, data), f) \<Rightarrow>
        Inr (rfs_reply ''READ_FILE_REPLY'' (buildReply ret @ [(''data'', VBytes (resize 4096 data))]), f))"

definition handleWriteFile :: "'f fs_ops \<Rightarrow> 'f rfs_handler" where
  "handleWriteFile ops msg f =
     (case fs_writeFile ops (get_int ''fd'' msg) (get_bytes ''data'' msg) f of (ret, f) \<Rightarrow>
        Inr (rfs_reply ''WRITE_FILE_REPLY'' (buildReply ret), f))"

definition handleLseekFile :: "'f fs_ops \<Rightarrow> 'f rfs_handler" where
  "handleLseekFile ops msg f =
     (case fs_lseekFile ops (get_int ''fd'' msg) (get_int ''offset'' msg) (get_int ''whence'' msg) f of
        (ret, f) \<Rightarrow> Inr (rfs_reply ''LSEEK_FILE_REPLY'' (buildReply ret), f))"

definition handleCloseFile :: "'f fs_ops \<Rightarrow> 'f rfs_handler" where
  "handleCloseFile ops msg f =
     (case fs_closeFile ops (get_int ''fd'' msg) f of (ret, f) \<Rightarrow>
        Inr (rfs_reply ''CLOSE_FILE_REPLY'' (buildReply ret), f))"

definition handlePutFile :: "'f fs_ops \<Rightarrow> 'f rfs_handler" where
  "handlePutFile ops msg f =
     (case fs_openFile ops (name_of ''name'' ''nameSize'' msg) (get_int ''flags'' msg) f of (ret, f) \<Rightarrow>
        (case (if 0 \<le> ret then
                 (case fs_writeFile ops ret (get_bytes ''data'' msg) f of (written, f) \<Rightarrow>
                    (written, snd (fs_closeFile ops ret f)))
               else (ret, f)) of (ret, f) \<Rightarrow>
           Inr (rfs_reply ''PUT_FILE_REPLY'' (buildReply ret), f)))"

definition handleGetFile :: "'f fs_ops \<Rightarrow> 'f rfs_handler" where
  "handleGetFile ops msg f =
     (let data = replicate (min 4096 (unat (get_u32 ''size'' msg))) 0 in
      case fs_openFile ops (name_of ''name'' ''nameSize'' msg) 0 f of (ret, f) \<Rightarrow>
        (case (if 0 \<le> ret then
                 (case fs_readFile ops ret data f of ((got, data), f) \<Rightarrow>
                    ((got, data), snd (fs_closeFile ops ret f)))
               else ((ret, data), f)) of ((ret, data), f) \<Rightarrow>
           Inr (rfs_reply ''GET_FILE_REPLY'' (buildReply ret @ [(''data'', VBytes (resize 4096 data))]), f)))"

definition handleRenameFile :: "'f fs_ops \<Rightarrow> 'f rfs_handler" where
  "handleRenameFile ops msg f =
     (case fs_renameFile ops (name_of ''oldName'' ''oldNameSize'' msg) (name_of ''newName'' ''newNameSize'' msg) f of
        (ret, f) \<Rightarrow> Inr (rfs_reply ''RENAME_FILE_REPLY'' (buildReply ret), f))"

definition handleGetFileInfo :: "(int \<Rightarrow> tm) \<Rightarrow> 'f fs_ops \<Rightarrow> 'f rfs_handler" where
  "handleGetFileInfo localtime ops msg f =
     (case fs_openFile ops (c_str (name_of ''name'' ''nameSize'' msg)) 0 f of (ret, f) \<Rightarrow>
        (case (if 0 \<le> ret then
                 (case fs_getFileInfoByHandle ops ret None f of ((r, statbuf), f) \<Rightarrow>
                    ((r, statbuf), snd (fs_closeFile ops ret f)))
               else ((ret, None), f)) of ((ret, statbuf), f) \<Rightarrow>
           andThen (buildFileInfo localtime statbuf) (\<lambda>info.
             Inr (rfs_reply ''GET_FILE_INFO_REPLY'' (buildReply ret @ info), f))))"

definition handleDeleteFile :: "'f fs_ops \<Rightarrow> 'f rfs_handler" where
  "handleDeleteFile ops msg f =
     (case fs_deleteFile ops (name_of ''name'' ''nameSize'' msg) f of (ret, f) \<Rightarrow>
        Inr (rfs_reply ''DELETE_FILE_REPLY'' (buildReply ret), f))"

definition handleMakeDirectory :: "'f fs_ops \<Rightarrow> 'f rfs_handler" where
  "handleMakeDirectory ops msg f =
     (case fs_makeDirectory ops (name_of ''name'' ''nameSize'' msg) f of (ret, f) \<Rightarrow>
        Inr (rfs_reply ''MAKE_DIRECTORY_REPLY'' (buildReply ret), f))"

definition handleDeleteDirectory :: "'f fs_ops \<Rightarrow> 'f rfs_handler" where
  "handleDeleteDirectory ops msg f =
     (case fs_deleteDirectory ops (name_of ''name'' ''nameSize'' msg) f of (ret, f) \<Rightarrow>
        Inr (rfs_reply ''DELETE_DIRECTORY_REPLY'' (buildReply ret), f))"

definition handleOpenDirectory :: "'f fs_ops \<Rightarrow> 'f rfs_handler" where
  "handleOpenDirectory ops msg f =
     (case fs_openDirectory ops (name_of ''name'' ''nameSize'' msg) f of (ret, f) \<Rightarrow>
        Inr (rfs_reply ''OPEN_DIRECTORY_REPLY'' (buildReply ret), f))"

definition handleReadDirectory :: "'f fs_ops \<Rightarrow> 'f rfs_handler" where
  "handleReadDirectory ops msg f =
     (case fs_readDirectory ops (get_int ''fd'' msg) [] f of ((ret, name), f) \<Rightarrow>
        (let data = replicate 1024 0; len = min (length data) (length name)
         in Inr (rfs_reply ''READ_DIRECTORY_REPLY''
              (if ret = 1 then
                 [(''nameLength'', VU32 (of_nat len)), (''ret'', VU32 0), (''errno'', VU32 0),
                  (''name'', VBytes (take len name @ drop len data))]
               else
                 [(''nameLength'', VU32 0), (''ret'', VU32 (- 1)), (''errno'', VU32 (of_int (- ret))),
                  (''name'', VBytes data)]), f)))"

definition handleCloseDirectory :: "'f fs_ops \<Rightarrow> 'f rfs_handler" where
  "handleCloseDirectory ops msg f =
     (case fs_closeDirectory ops (get_int ''fd'' msg) f of (ret, f) \<Rightarrow>
        Inr (rfs_reply ''CLOSE_DIRECTORY_REPLY'' (buildReply ret), f))"

definition handleOpenFile :: "'f fs_ops \<Rightarrow> 'f rfs_handler" where
  "handleOpenFile ops msg f =
     (case fs_openFile ops (name_of ''name'' ''nameSize'' msg) (get_int ''flags'' msg) f of (ret, f) \<Rightarrow>
        Inr (rfs_reply ''OPEN_FILE_REPLY'' (buildReply ret), f))"

definition handleFtruncateFile :: "'f fs_ops \<Rightarrow> 'f rfs_handler" where
  "handleFtruncateFile ops msg f =
     (case fs_ftruncateFile ops (get_int ''fd'' msg) (unat (get_u32 ''size'' msg)) f of (ret, f) \<Rightarrow>
        Inr (rfs_reply ''FTRUNCATE_FILE_REPLY'' (buildReply ret), f))"

definition handleGetFileInfoByHandle :: "(int \<Rightarrow> tm) \<Rightarrow> 'f fs_ops \<Rightarrow> 'f rfs_handler" where
  "handleGetFileInfoByHandle localtime ops msg f =
     (case fs_getFileInfoByHandle ops (get_int ''fd'' msg) None f of ((ret, statbuf), f) \<Rightarrow>
        andThen (buildFileInfo localtime statbuf) (\<lambda>info.
          Inr (rfs_reply ''GET_FILE_INFO_BY_HANDLE_REPLY'' (buildReply ret @ info), f)))"

definition handleNvWriteAll :: "'f fs_ops \<Rightarrow> 'f rfs_handler" where
  "handleNvWriteAll ops msg f =
     andThen (fs_writeNVData ops (get_u32 ''offset'' msg) (get_bytes ''data'' msg) f) (\<lambda>(ret, f).
       Inr (nv_write_reply ''NV_WRITE_ALL_REPLY'' msg ret, f))"

section \<open>Dispatch\<close>

text \<open>Type 20 has no handler.\<close>

definition m_handlers :: "(int \<Rightarrow> tm) \<Rightarrow> 'f fs_ops \<Rightarrow> 'f rfs_handler option list" where
  "m_handlers localtime ops =
     [Some (handleNvRead ops), Some (handleNvWrite ops), Some (handleReadFile ops),
      Some (handleWriteFile ops), Some (handleLseekFile ops), Some (handleCloseFile ops),
      Some (handlePutFile ops), Some (handleGetFile ops), Some (handleRenameFile ops),
      Some (handleGetFileInfo localtime ops), Some (handleDeleteFile ops), Some (handleMakeDirectory ops),
      Some (handleDeleteDirectory ops), Some (handleOpenDirectory ops), Some (handleReadDirectory ops),
      Some (handleCloseDirectory ops), Some (handleOpenFile ops), Some (handleFtruncateFile ops),
      Some (handleGetFileInfoByHandle localtime ops), None, Some (handleNvWriteAll ops)]"

definition FirstType :: byte where "FirstType = 1"
definition LastType :: byte where "LastType = 21"
definition CMD_RFS :: byte where "CMD_RFS = 21"

definition find_handler :: "(int \<Rightarrow> tm) \<Rightarrow> 'f fs_ops \<Rightarrow> byte \<Rightarrow> 'f rfs_handler option" where
  "find_handler localtime ops t =
     (if t < FirstType \<or> t > LastType then None else m_handlers localtime ops ! (unat t - unat FirstType))"

text \<open>The packets sent are collected in order beside the state of the file system.\<close>

type_synonym 'f rfs_state = "'f \<times> byte list list"

definition rfs_sendMessage :: "rfs_header \<Rightarrow> byte list \<Rightarrow> 'f rfs_state \<Rightarrow> 'f rfs_state outcome" where
  "rfs_sendMessage header data st =
     (if unat (r_length header) < rfs_header_size then Inl Undefined
      else Inr (fst st, snd st @
        [rfs_header_bytes header @ take (unat (r_length header) - rfs_header_size) data]))"

text \<open>
  A length below the header size makes the dump of an unhandled packet, or the copy of a handled
  one, run over memory it does not own.
\<close>

definition rfs_handleMessage ::
    "(int \<Rightarrow> tm) \<Rightarrow> 'f fs_ops \<Rightarrow> rfs_header \<Rightarrow> byte list \<Rightarrow> 'f rfs_state \<Rightarrow> 'f rfs_state outcome"
where
  "rfs_handleMessage localtime ops header data st =
     (case find_handler localtime ops (r_type header) of
        None \<Rightarrow> if unat (r_length header) < rfs_header_size then Inl Undefined else Inr st
      | Some handler \<Rightarrow>
     (case create wire_ops CMD_RFS (r_type header) of
        None \<Rightarrow> Inr st
      | Some msg \<Rightarrow>
     if unat (r_length header) < rfs_header_size then Inl Undefined
     else case readMessage wire_ops msg (take (unat (r_length header) - rfs_header_size) data) of
        None \<Rightarrow> Inr st
      | Some msg \<Rightarrow>
          andThen (handler (w_object msg) (fst st)) (\<lambda>(response, f).
            case writeMessage wire_ops response of
              None \<Rightarrow> Inr (f, snd st)
            | Some data \<Rightarrow>
                rfs_sendMessage
                  \<lparr>r_length = of_nat (rfs_header_size + length data), r_type = m_subcommand wire_ops response,
                   r_sequence = r_sequence header\<rparr> data (f, snd st))))"

definition rfs_messageSize :: "byte list \<Rightarrow> nat" where
  "rfs_messageSize data = unat (r_length (rfs_header_of data))"

definition rfs_handleReassembledMessage ::
    "(int \<Rightarrow> tm) \<Rightarrow> 'f fs_ops \<Rightarrow> byte list \<Rightarrow> 'f rfs_state \<Rightarrow> 'f rfs_state outcome"
where
  "rfs_handleReassembledMessage localtime ops data st =
     rfs_handleMessage localtime ops (rfs_header_of data) (drop rfs_header_size data) st"

section \<open>Every handler answers with a reply of its own type\<close>

lemma rfs_classes:
  "rfs_class ''NV_READ_REPLY'' = message Out ''NV_READ_REPLY'' 1 IPC_CMD_EXEC
     [U8 ''status'', U32 ''offset'', U32 ''size'', Vector ''data'' (Fixed 512)]"
  "rfs_class ''NV_WRITE_REPLY'' = message Out ''NV_WRITE_REPLY'' 2 IPC_CMD_EXEC
     [U8 ''status'', U32 ''offset'', U32 ''size'']"
  "rfs_class ''READ_FILE_REPLY'' = message Out ''READ_FILE_REPLY'' 3 IPC_CMD_EXEC
     [U32 ''ret'', U32 ''errno'', Vector ''data'' (Fixed 4096)]"
  "rfs_class ''WRITE_FILE_REPLY'' = message Out ''WRITE_FILE_REPLY'' 4 IPC_CMD_EXEC [U32 ''ret'', U32 ''errno'']"
  "rfs_class ''LSEEK_FILE_REPLY'' = message Out ''LSEEK_FILE_REPLY'' 5 IPC_CMD_EXEC [U32 ''ret'', U32 ''errno'']"
  "rfs_class ''CLOSE_FILE_REPLY'' = message Out ''CLOSE_FILE_REPLY'' 6 IPC_CMD_EXEC [U32 ''ret'', U32 ''errno'']"
  "rfs_class ''PUT_FILE_REPLY'' = message Out ''PUT_FILE_REPLY'' 7 IPC_CMD_EXEC [U32 ''ret'', U32 ''errno'']"
  "rfs_class ''GET_FILE_REPLY'' = message Out ''GET_FILE_REPLY'' 8 IPC_CMD_EXEC
     [U32 ''ret'', U32 ''errno'', Vector ''data'' (Fixed 4096)]"
  "rfs_class ''RENAME_FILE_REPLY'' = message Out ''RENAME_FILE_REPLY'' 9 IPC_CMD_EXEC [U32 ''ret'', U32 ''errno'']"
  "rfs_class ''DELETE_FILE_REPLY'' = message Out ''DELETE_FILE_REPLY'' 11 IPC_CMD_EXEC [U32 ''ret'', U32 ''errno'']"
  "rfs_class ''MAKE_DIRECTORY_REPLY'' = message Out ''MAKE_DIRECTORY_REPLY'' 12 IPC_CMD_EXEC [U32 ''ret'', U32 ''errno'']"
  "rfs_class ''DELETE_DIRECTORY_REPLY'' = message Out ''DELETE_DIRECTORY_REPLY'' 13 IPC_CMD_EXEC
     [U32 ''ret'', U32 ''errno'']"
  "rfs_class ''OPEN_DIRECTORY_REPLY'' = message Out ''OPEN_DIRECTORY_REPLY'' 14 IPC_CMD_EXEC [U32 ''ret'', U32 ''errno'']"
  "rfs_class ''READ_DIRECTORY_REPLY'' = message Out ''READ_DIRECTORY_REPLY'' 15 IPC_CMD_EXEC
     [U32 ''ret'', U32 ''nameLength'', Vector ''name'' (Fixed 1024), U32 ''errno'']"
  "rfs_class ''CLOSE_DIRECTORY_REPLY'' = message Out ''CLOSE_DIRECTORY_REPLY'' 16 IPC_CMD_EXEC
     [U32 ''ret'', U32 ''errno'']"
  "rfs_class ''OPEN_FILE_REPLY'' = message Out ''OPEN_FILE_REPLY'' 17 IPC_CMD_EXEC [U32 ''ret'', U32 ''errno'']"
  "rfs_class ''FTRUNCATE_FILE_REPLY'' = message Out ''FTRUNCATE_FILE_REPLY'' 18 IPC_CMD_EXEC [U32 ''ret'', U32 ''errno'']"
  "rfs_class ''NV_WRITE_ALL_REPLY'' = message Out ''NV_WRITE_ALL_REPLY'' 21 IPC_CMD_EXEC
     [U8 ''status'', U32 ''offset'', U32 ''size'']"
  by (simp_all add: rfs_class_def group_RFS_def)

definition file_info_fields :: "field list" where
  "file_info_fields =
     [U32 ''ret'', U16 ''type'', U32 ''size'', U8 ''cyear'', U8 ''cmonth'', U8 ''cday'',
      U8 ''chour'', U8 ''cminute'', U8 ''csecond'', U8 ''myear'', U8 ''mmonth'',
      U8 ''mday'', U8 ''mhour'', U8 ''mminute'', U8 ''msecond'', U32 ''errno'']"

lemma rfs_info_classes:
  "rfs_class ''GET_FILE_INFO_REPLY'' = message Out ''GET_FILE_INFO_REPLY'' 10 IPC_CMD_EXEC file_info_fields"
  "rfs_class ''GET_FILE_INFO_BY_HANDLE_REPLY'' =
     message Out ''GET_FILE_INFO_BY_HANDLE_REPLY'' 19 IPC_CMD_EXEC file_info_fields"
  by (simp_all add: rfs_class_def group_RFS_def file_info_fields_def)

definition answers :: "byte \<Rightarrow> wire_message \<Rightarrow> bool" where
  "answers t m \<longleftrightarrow> m_subcommand wire_ops m = t \<and>
     (\<exists>bytes. writeMessage wire_ops m = Some bytes \<and> length bytes \<le> 4104)"

lemma answers_reply:
  assumes "c_type (rfs_class i) = t"
    and "conforms [] (c_fields (rfs_class i)) (w_object (rfs_reply i values))"
    and "length (enc_fields (c_fields (rfs_class i)) (w_object (rfs_reply i values))) \<le> 4104"
  shows "answers t (rfs_reply i values)"
  using assms marshal_conforms [OF assms(2)]
  by (simp add: answers_def wire_ops_def) (simp add: rfs_reply_def)

lemma map_of_buildReply_only [simp]:
  "map_of (buildReply ret) ''ret'' = Some (VU32 (if ret < 0 then - 1 else of_int ret))"
  "map_of (buildReply ret) ''errno'' = Some (VU32 (if ret < 0 then of_int (- ret) else 0))"
  by (simp_all add: buildReply_def)

lemma map_of_buildReply_append [simp]:
  "(f ++ map_of (buildReply ret)) ''ret'' = Some (VU32 (if ret < 0 then - 1 else of_int ret))"
  "(f ++ map_of (buildReply ret)) ''errno'' = Some (VU32 (if ret < 0 then of_int (- ret) else 0))"
  "x \<noteq> ''ret'' \<Longrightarrow> x \<noteq> ''errno'' \<Longrightarrow> (f ++ map_of (buildReply ret)) x = f x"
  by (auto simp: buildReply_def map_add_def split: option.splits)

lemma short_replies:
  "answers 4 (rfs_reply ''WRITE_FILE_REPLY'' (buildReply ret))"
  "answers 5 (rfs_reply ''LSEEK_FILE_REPLY'' (buildReply ret))"
  "answers 6 (rfs_reply ''CLOSE_FILE_REPLY'' (buildReply ret))"
  "answers 7 (rfs_reply ''PUT_FILE_REPLY'' (buildReply ret))"
  "answers 9 (rfs_reply ''RENAME_FILE_REPLY'' (buildReply ret))"
  "answers 11 (rfs_reply ''DELETE_FILE_REPLY'' (buildReply ret))"
  "answers 12 (rfs_reply ''MAKE_DIRECTORY_REPLY'' (buildReply ret))"
  "answers 13 (rfs_reply ''DELETE_DIRECTORY_REPLY'' (buildReply ret))"
  "answers 14 (rfs_reply ''OPEN_DIRECTORY_REPLY'' (buildReply ret))"
  "answers 16 (rfs_reply ''CLOSE_DIRECTORY_REPLY'' (buildReply ret))"
  "answers 17 (rfs_reply ''OPEN_FILE_REPLY'' (buildReply ret))"
  "answers 18 (rfs_reply ''FTRUNCATE_FILE_REPLY'' (buildReply ret))"
  by (rule answers_reply; simp add: rfs_classes rfs_reply_def)+

lemma data_replies:
  "answers 1 (rfs_reply ''NV_READ_REPLY'' [(''offset'', VU32 a), (''size'', VU32 b), (''status'', VU8 c),
     (''data'', VBytes (resize 512 data))])"
  "answers 2 (nv_write_reply ''NV_WRITE_REPLY'' msg ret)"
  "answers 21 (nv_write_reply ''NV_WRITE_ALL_REPLY'' msg ret)"
  "answers 3 (rfs_reply ''READ_FILE_REPLY'' (buildReply ret @ [(''data'', VBytes (resize 4096 data))]))"
  "answers 8 (rfs_reply ''GET_FILE_REPLY'' (buildReply ret @ [(''data'', VBytes (resize 4096 data))]))"
  unfolding nv_write_reply_def
  by (rule answers_reply; simp add: rfs_classes rfs_reply_def)+

lemma name_replies:
  "length bs = 1024 \<Longrightarrow> answers 15 (rfs_reply ''READ_DIRECTORY_REPLY''
     [(''nameLength'', VU32 a), (''ret'', VU32 b), (''errno'', VU32 c), (''name'', VBytes bs)])"
  by (rule answers_reply; simp add: rfs_classes rfs_reply_def)

lemma info_replies:
  assumes "buildFileInfo localtime statbuf = Inr info"
  shows "answers 10 (rfs_reply ''GET_FILE_INFO_REPLY'' (buildReply ret @ info))"
    and "answers 19 (rfs_reply ''GET_FILE_INFO_BY_HANDLE_REPLY'' (buildReply ret @ info))"
  using assms unfolding buildFileInfo_def Let_def
  by (auto split: option.splits intro!: answers_reply simp del: One_nat_def)
    (simp_all add: rfs_info_classes rfs_reply_def file_info_fields_def)

lemma below_21:
  "{..<21 :: nat} = {0, 1, 2, 3, 4, 5, 6, 7, 8, 9, 10, 11, 12, 13, 14, 15, 16, 17, 18, 19, 20}"
  by (simp add: lessThan_nat_numeral lessThan_Suc insert_commute)

lemma find_handler_cases:
  assumes "find_handler localtime ops t = Some h"
  shows "(t, h) \<in> set [(1, handleNvRead ops), (2, handleNvWrite ops), (3, handleReadFile ops),
      (4, handleWriteFile ops), (5, handleLseekFile ops), (6, handleCloseFile ops),
      (7, handlePutFile ops), (8, handleGetFile ops), (9, handleRenameFile ops),
      (10, handleGetFileInfo localtime ops), (11, handleDeleteFile ops), (12, handleMakeDirectory ops),
      (13, handleDeleteDirectory ops), (14, handleOpenDirectory ops), (15, handleReadDirectory ops),
      (16, handleCloseDirectory ops), (17, handleOpenFile ops), (18, handleFtruncateFile ops),
      (19, handleGetFileInfoByHandle localtime ops), (21, handleNvWriteAll ops)]"
proof -
  have lo: "t \<noteq> 0" "t \<le> LastType" and nth: "m_handlers localtime ops ! (unat t - 1) = Some h"
    using assms by (auto simp: find_handler_def not_less FirstType_def split: if_splits)
  define i where "i = unat t - 1"
  have "1 \<le> unat t" "unat t \<le> 21"
    using lo by (auto simp: LastType_def word_le_nat_alt Suc_le_eq unat_gt_0)
  then have t: "t = of_nat (Suc i)" and "i < 21" by (simp_all add: i_def del: of_nat_Suc)
  then have "i \<in> {..<21}" by simp
  moreover have "m_handlers localtime ops ! i = Some h" using nth by (simp add: i_def)
  ultimately show ?thesis
    unfolding below_21 t by (elim insertE emptyE) (simp_all add: m_handlers_def)
qed

lemmas rfs_handler_defs = handleNvRead_def handleNvWrite_def handleReadFile_def handleWriteFile_def
  handleLseekFile_def handleCloseFile_def handlePutFile_def handleGetFile_def handleRenameFile_def
  handleGetFileInfo_def handleDeleteFile_def handleMakeDirectory_def handleDeleteDirectory_def
  handleOpenDirectory_def handleReadDirectory_def handleCloseDirectory_def handleOpenFile_def
  handleFtruncateFile_def handleGetFileInfoByHandle_def handleNvWriteAll_def

lemma handler_answers:
  assumes "find_handler localtime ops t = Some h" and "h msg f = Inr (m, f')"
  shows "answers t m"
  using find_handler_cases [OF assms(1)] assms(2)
  by (auto simp: rfs_handler_defs andThen_eq_Inr Let_def split: prod.splits if_splits
      intro!: short_replies data_replies name_replies info_replies)

section \<open>The handler meets the reassembly contract\<close>

lemma rfs_handleMessage_take:
  "unat (r_length header) - rfs_header_size \<le> n \<Longrightarrow>
     rfs_handleMessage localtime ops header (take n data) st = rfs_handleMessage localtime ops header data st"
  by (simp add: rfs_handleMessage_def min_def cong: option.case_cong if_cong)

interpretation rfs: framed_handler rfs_header_size rfs_messageSize "rfs_handleReassembledMessage localtime ops"
  for localtime :: "int \<Rightarrow> tm" and ops :: "'f fs_ops"
proof unfold_locales
  show "0 < rfs_header_size" by (simp add: rfs_header_size_def)
  show "rfs_messageSize (xs @ ys) = rfs_messageSize xs" if "rfs_header_size \<le> length xs" for xs ys
    using that by (simp add: rfs_messageSize_def rfs_header_size_def rfs_header_of_append)
  fix xs ys :: "byte list" and s :: "'f rfs_state"
  assume sz: "rfs_header_size \<le> rfs_messageSize xs" "rfs_messageSize xs = length xs"
  then have len: "6 \<le> length xs" by (simp add: rfs_header_size_def)
  have "rfs_handleMessage localtime ops (rfs_header_of xs) (take (length xs - 6) (drop 6 (xs @ ys))) s =
      rfs_handleMessage localtime ops (rfs_header_of xs) (drop 6 (xs @ ys)) s"
    using sz by (intro rfs_handleMessage_take) (simp add: rfs_messageSize_def rfs_header_size_def)
  then show "rfs_handleReassembledMessage localtime ops (xs @ ys) s =
      rfs_handleReassembledMessage localtime ops xs s"
    using len by (simp add: rfs_handleReassembledMessage_def rfs_header_size_def rfs_header_of_append)
qed

section \<open>What the handlers can reach\<close>

text \<open>
  A relation between states of the file system that every operation respects is respected by the
  handlers, and so by the whole channel.
\<close>

locale tracked_files =
  fixes ops :: "'f fs_ops"
    and R :: "'f \<Rightarrow> 'f \<Rightarrow> bool"
  assumes R_refl: "R f f"
    and R_trans: "R f f1 \<Longrightarrow> R f1 f2 \<Longrightarrow> R f f2"
    and R_nv: "fs_readNVData ops offset data f = (r, f') \<Longrightarrow> R f f'"
      "fs_writeNVData ops offset data f = Inr (w, f') \<Longrightarrow> R f f'"
    and R_open: "fs_openFile ops name flags f = (v, f') \<Longrightarrow> R f f'"
    and R_close: "fs_closeFile ops fd f = (v, f') \<Longrightarrow> R f f'"
    and R_read: "fs_readFile ops fd data f = (u, f') \<Longrightarrow> R f f'"
    and R_write: "fs_writeFile ops fd data f = (v, f') \<Longrightarrow> R f f'"
    and R_seek: "fs_lseekFile ops fd off whence f = (v, f') \<Longrightarrow> R f f'"
    and R_truncate: "fs_ftruncateFile ops fd n f = (v, f') \<Longrightarrow> R f f'"
    and R_stat: "fs_getFileInfoByHandle ops fd buf f = (x, f') \<Longrightarrow> R f f'"
    and R_rename: "fs_renameFile ops name new f = (v, f') \<Longrightarrow> R f f'"
    and R_delete: "fs_deleteFile ops name f = (v, f') \<Longrightarrow> R f f'"
    and R_mkdir: "fs_makeDirectory ops name f = (v, f') \<Longrightarrow> R f f'"
    and R_rmdir: "fs_deleteDirectory ops name f = (v, f') \<Longrightarrow> R f f'"
    and R_opendir: "fs_openDirectory ops name f = (v, f') \<Longrightarrow> R f f'"
    and R_readdir: "fs_readDirectory ops fd name f = (y, f') \<Longrightarrow> R f f'"
    and R_closedir: "fs_closeDirectory ops fd f = (v, f') \<Longrightarrow> R f f'"
begin

lemmas op_tracked = R_nv R_open R_close R_read R_write R_seek R_truncate R_stat R_rename R_delete
  R_mkdir R_rmdir R_opendir R_readdir R_closedir

lemma close_after: "R f f1 \<Longrightarrow> R f (snd (fs_closeFile ops fd f1))"
  using R_close [of fd f1 "fst (fs_closeFile ops fd f1)" "snd (fs_closeFile ops fd f1)"]
  by (auto intro: R_trans)

lemma close_after_use: "R f f1 \<Longrightarrow> R f1 f2 \<Longrightarrow> R f (snd (fs_closeFile ops fd f2))"
  by (rule close_after [OF R_trans])

lemma handler_tracked:
  assumes "find_handler localtime ops t = Some h" and "h msg f = Inr (m, f')"
  shows "R f f'"
  using find_handler_cases [OF assms(1)] assms(2)
  by (auto simp: rfs_handler_defs andThen_eq_Inr Let_def split: prod.splits if_splits
      dest!: op_tracked intro: R_trans close_after close_after_use)

lemma handleMessage_tracked:
  assumes "rfs_handleMessage localtime ops header data (f, sent) = Inr (f', sent')"
  shows "R f f'"
  using assms
  by (auto simp: rfs_handleMessage_def rfs_sendMessage_def andThen_eq_Inr R_refl
      split: option.splits if_splits dest: handler_tracked)

lemma channel_tracked:
  "deliver_frames (rfs_handleReassembledMessage localtime ops) packets (f, sent) = Inr (f', sent') \<Longrightarrow> R f f'"
proof (induction packets arbitrary: f sent)
  case (Cons p packets)
  then obtain f1 sent1 where p: "rfs_handleReassembledMessage localtime ops p (f, sent) = Inr (f1, sent1)"
    and rest: "deliver_frames (rfs_handleReassembledMessage localtime ops) packets (f1, sent1) = Inr (f', sent')"
    by (auto simp: andThen_eq_Inr)
  from p have "R f f1" unfolding rfs_handleReassembledMessage_def by (rule handleMessage_tracked)
  from R_trans [OF this Cons.IH [OF rest]] show ?case .
qed (simp add: R_refl)

end

end
