(* ===== verification/File_System.thy ===== *)
theory File_System
  imports IFile_System
begin

text \<open>
  The file system that the modem reaches through the RFS channel, and the non-volatile data behind
  it (libandroidhal/AndroidFileSystem.cpp).  The kernel and the MD5 of OpenSSL are parameters.
\<close>

section \<open>State\<close>

text \<open>
  The two hash sets hold the descriptors and the \<open>DIR *\<close> the modem opened.  \<open>history\<close> is the
  sequence of system calls made so far, the latest first.
\<close>

record file_system =
  m_firmware :: path
  m_efs :: path
  m_nvdata :: int
  m_md5_enabled :: bool
  m_rfsDescriptors :: "int set"
  m_rfsDirectories :: "nat set"
  history :: history

definition NVDATA_SIZE :: nat where "NVDATA_SIZE = 2 * 1024 * 1024"
definition CORE_SIZE :: nat where "CORE_SIZE = 1024 * 1024"

definition syscall_on :: "kernel \<Rightarrow> syscall \<Rightarrow> file_system \<Rightarrow> (errno + nat) \<times> file_system" where
  "syscall_on k c fs = (case sys k c (history fs) of (r, h) \<Rightarrow> (r, fs\<lparr>history := h\<rparr>))"

definition translateReturn :: "errno + nat \<Rightarrow> int" where
  "translateReturn r = (case r of Inl e \<Rightarrow> - numeral e | Inr v \<Rightarrow> int v)"

definition isSafeDescriptor :: "int \<Rightarrow> file_system \<Rightarrow> bool" where
  "isSafeDescriptor fd fs \<longleftrightarrow> fd \<in> m_rfsDescriptors fs"

section \<open>File names\<close>

definition slash :: byte where "slash = 0x2F"

text \<open>\<open>std::string::find('/', from)\<close>; \<open>None\<close> is \<open>npos\<close>.\<close>

definition find_slash :: "path \<Rightarrow> nat \<Rightarrow> nat option" where
  "find_slash s from = find (\<lambda>i. s ! i = slash) [from..<length s]"

lemma find_slash_Some: "find_slash s from = Some i \<Longrightarrow> from \<le> i \<and> i < length s \<and> s ! i = slash"
  by (auto simp: find_slash_def find_Some_iff)

lemma find_slash_measure:
  "Some n = find_slash s (offset + 1) \<Longrightarrow> length s - n < length s - offset"
  using find_slash_Some [of s "offset + 1" n] by (auto intro!: diff_less_mono2)

definition prefix_to :: "path \<Rightarrow> nat option \<Rightarrow> path" where
  "prefix_to s stop = (case stop of None \<Rightarrow> s | Some n \<Rightarrow> take n s)"

text \<open>The loop body: the first component must be the EFS mount point; no component may be ``/..''.\<close>

function check_components :: "path \<Rightarrow> path \<Rightarrow> nat \<Rightarrow> int" where
  "check_components efs expanded offset =
     (let stop = find_slash expanded (offset + 1) in
      if offset = 0 \<and> prefix_to expanded stop \<noteq> efs then - EACCES
      else let rest = drop (offset + 1) expanded;
               component = (case stop of None \<Rightarrow> rest | Some n \<Rightarrow> take (n - offset) rest)
           in if component = lit ''/..'' then - EACCES
              else case stop of None \<Rightarrow> 0 | Some n \<Rightarrow> check_components efs expanded n)"
  by pat_completeness auto
termination
  by (relation "measure (\<lambda>(efs, s, offset). length s - offset)")
    (use find_slash_measure in auto)

declare check_components.simps [simp del]

definition expanded_name :: "path \<Rightarrow> path \<Rightarrow> path" where
  "expanded_name efs filename =
     (if 0 < length filename \<and> filename ! 0 = slash then filename else efs @ lit ''/'' @ filename)"

definition expandAndValidateFilename :: "path \<Rightarrow> file_system \<Rightarrow> int + path" where
  "expandAndValidateFilename filename fs =
     (let expanded = expanded_name (m_efs fs) filename;
          ret = check_components (m_efs fs) expanded 0
      in if ret \<noteq> 0 then Inl ret else Inr expanded)"

text \<open>\<open>makePath\<close> creates every directory above the name, from the top.\<close>

function make_from :: "kernel \<Rightarrow> path \<Rightarrow> nat \<Rightarrow> history \<Rightarrow> int \<times> history" where
  "make_from k expanded offset h =
     (let next = (\<lambda>h. case find_slash expanded (offset + 1) of
            None \<Rightarrow> (0, h) | Some n \<Rightarrow> make_from k expanded n h)
      in if offset \<noteq> 0 then
           (case sys k (SysMkdir (c_str (take offset expanded))) h of
              (Inl e, h) \<Rightarrow> if e \<noteq> EEXIST then (- numeral e, h) else next h
            | (Inr v, h) \<Rightarrow> next h)
         else next h)"
  by pat_completeness auto
termination
  by (relation "measure (\<lambda>(k, s, offset, h). length s - offset)")
    (use find_slash_measure in auto)

declare make_from.simps [simp del]

definition makePath :: "kernel \<Rightarrow> path \<Rightarrow> file_system \<Rightarrow> int \<times> file_system" where
  "makePath k expanded fs =
     (case make_from k expanded 0 (history fs) of (ret, h) \<Rightarrow> (ret, fs\<lparr>history := h\<rparr>))"

section \<open>File operations\<close>

definition openFile :: "kernel \<Rightarrow> path \<Rightarrow> int \<Rightarrow> file_system \<Rightarrow> int \<times> file_system" where
  "openFile k filename flags fs =
     (case expandAndValidateFilename filename fs of
        Inl ret \<Rightarrow> (ret, fs)
      | Inr expanded \<Rightarrow>
          (case makePath k expanded fs of (ret, fs) \<Rightarrow>
             if ret \<noteq> 0 then (ret, fs)
             else (case syscall_on k (SysOpen (c_str expanded) flags) fs of (fd, fs) \<Rightarrow>
                    (translateReturn fd,
                     case fd of Inl e \<Rightarrow> fs
                     | Inr n \<Rightarrow> fs\<lparr>m_rfsDescriptors := insert (int n) (m_rfsDescriptors fs)\<rparr>))))"

definition closeFile :: "kernel \<Rightarrow> int \<Rightarrow> file_system \<Rightarrow> int \<times> file_system" where
  "closeFile k fd fs =
     (if fd \<notin> m_rfsDescriptors fs then (- EBADF, fs)
      else (case syscall_on k (SysClose fd) fs of (ret, fs) \<Rightarrow>
             (translateReturn ret,
              if ret = Inr 0 then fs\<lparr>m_rfsDescriptors := m_rfsDescriptors fs - {fd}\<rparr> else fs)))"

text \<open>The buffer keeps its length; the bytes the kernel stored are its first ones.\<close>

definition readFile :: "kernel \<Rightarrow> int \<Rightarrow> byte list \<Rightarrow> file_system \<Rightarrow> (int \<times> byte list) \<times> file_system" where
  "readFile k fd data fs =
     (if \<not> isSafeDescriptor fd fs then ((- EBADF, data), fs)
      else (case sys_data k (SysRead fd (length data)) (length data) (history fs) of
             (Inl e, h) \<Rightarrow> ((- numeral e, data), fs\<lparr>history := h\<rparr>)
           | (Inr bytes, h) \<Rightarrow>
               ((int (length bytes), bytes @ drop (length bytes) data), fs\<lparr>history := h\<rparr>)))"

definition writeFile :: "kernel \<Rightarrow> int \<Rightarrow> byte list \<Rightarrow> file_system \<Rightarrow> int \<times> file_system" where
  "writeFile k fd data fs =
     (if \<not> isSafeDescriptor fd fs then (- EBADF, fs)
      else map_prod translateReturn id (syscall_on k (SysWrite fd data) fs))"

definition lseekFile :: "kernel \<Rightarrow> int \<Rightarrow> int \<Rightarrow> int \<Rightarrow> file_system \<Rightarrow> int \<times> file_system" where
  "lseekFile k fd offset whence fs =
     (if \<not> isSafeDescriptor fd fs then (- EBADF, fs)
      else map_prod translateReturn id (syscall_on k (SysLseek fd offset whence) fs))"

text \<open>The size, an \<open>unsigned int\<close>, becomes a signed \<open>off_t\<close>.\<close>

definition ftruncateFile :: "kernel \<Rightarrow> int \<Rightarrow> nat \<Rightarrow> file_system \<Rightarrow> int \<times> file_system" where
  "ftruncateFile k fd n fs =
     (if \<not> isSafeDescriptor fd fs then (- EBADF, fs)
      else map_prod translateReturn id (syscall_on k (SysFtruncate fd (sint (of_nat n :: u32))) fs))"

text \<open>\<open>fstat\<close> stores into the caller's buffer only when it succeeds.\<close>

definition getFileInfoByHandle ::
    "kernel \<Rightarrow> int \<Rightarrow> stat_buf option \<Rightarrow> file_system \<Rightarrow> (int \<times> stat_buf option) \<times> file_system"
where
  "getFileInfoByHandle k fd statbuf fs =
     (if \<not> isSafeDescriptor fd fs then ((- EBADF, statbuf), fs)
      else (case call (k_stat k) (SysFstat fd) (history fs) of
             (Inl e, h) \<Rightarrow> ((- numeral e, statbuf), fs\<lparr>history := h\<rparr>)
           | (Inr st, h) \<Rightarrow> ((0, Some st), fs\<lparr>history := h\<rparr>)))"

definition renameFile :: "kernel \<Rightarrow> path \<Rightarrow> path \<Rightarrow> file_system \<Rightarrow> int \<times> file_system" where
  "renameFile k oldName newName fs =
     (case expandAndValidateFilename oldName fs of
        Inl ret \<Rightarrow> (ret, fs)
      | Inr oldExpanded \<Rightarrow>
     (case expandAndValidateFilename newName fs of
        Inl ret \<Rightarrow> (ret, fs)
      | Inr newExpanded \<Rightarrow>
     (case makePath k newExpanded fs of (ret, fs) \<Rightarrow>
        if ret \<noteq> 0 then (ret, fs)
        else map_prod translateReturn id
               (syscall_on k (SysRename (c_str oldExpanded) (c_str newExpanded)) fs))))"

definition deleteFile :: "kernel \<Rightarrow> path \<Rightarrow> file_system \<Rightarrow> int \<times> file_system" where
  "deleteFile k filename fs =
     (case expandAndValidateFilename filename fs of
        Inl ret \<Rightarrow> (ret, fs)
      | Inr expanded \<Rightarrow> map_prod translateReturn id (syscall_on k (SysUnlink (c_str expanded)) fs))"

definition makeDirectory :: "kernel \<Rightarrow> path \<Rightarrow> file_system \<Rightarrow> int \<times> file_system" where
  "makeDirectory k filename fs =
     (case expandAndValidateFilename filename fs of
        Inl ret \<Rightarrow> (ret, fs)
      | Inr expanded \<Rightarrow>
     (case makePath k expanded fs of (ret, fs) \<Rightarrow>
        if ret \<noteq> 0 then (ret, fs)
        else map_prod translateReturn id (syscall_on k (SysMkdir (c_str expanded)) fs)))"

definition deleteDirectory :: "kernel \<Rightarrow> path \<Rightarrow> file_system \<Rightarrow> int \<times> file_system" where
  "deleteDirectory k filename fs =
     (case expandAndValidateFilename filename fs of
        Inl ret \<Rightarrow> (ret, fs)
      | Inr expanded \<Rightarrow>
     (case makePath k expanded fs of (ret, fs) \<Rightarrow>
        if ret \<noteq> 0 then (ret, fs)
        else map_prod translateReturn id (syscall_on k (SysRmdir (c_str expanded)) fs)))"

text \<open>
  A directory handle is the \<open>DIR *\<close> itself, cast to a 32-bit \<open>int\<close>; casting it back gives the
  pointer again.
\<close>

definition int_of_pointer :: "nat \<Rightarrow> int" where "int_of_pointer p = sint (of_nat p :: u32)"
definition pointer_of_int :: "int \<Rightarrow> nat" where "pointer_of_int i = unat (of_int i :: u32)"

definition openDirectory :: "kernel \<Rightarrow> path \<Rightarrow> file_system \<Rightarrow> int \<times> file_system" where
  "openDirectory k filename fs =
     (case expandAndValidateFilename filename fs of
        Inl ret \<Rightarrow> (ret, fs)
      | Inr expanded \<Rightarrow>
     (case makePath k expanded fs of (ret, fs) \<Rightarrow>
        if ret \<noteq> 0 then (ret, fs)
        else (case syscall_on k (SysOpendir (c_str expanded)) fs of
               (Inl e, fs) \<Rightarrow> (- numeral e, fs)
             | (Inr dir, fs) \<Rightarrow>
                 (int_of_pointer dir, fs\<lparr>m_rfsDirectories := insert dir (m_rfsDirectories fs)\<rparr>))))"

definition readDirectory :: "kernel \<Rightarrow> int \<Rightarrow> path \<Rightarrow> file_system \<Rightarrow> (int \<times> path) \<times> file_system" where
  "readDirectory k fd filename fs =
     (let dir = pointer_of_int fd in
      if dir \<notin> m_rfsDirectories fs then ((- EBADF, filename), fs)
      else (case call (k_dirent k) (SysReaddir dir) (history fs) of
             (Inl e, h) \<Rightarrow> ((- numeral e, filename), fs\<lparr>history := h\<rparr>)
           | (Inr None, h) \<Rightarrow> ((0, filename), fs\<lparr>history := h\<rparr>)
           | (Inr (Some d_name), h) \<Rightarrow> ((1, c_str d_name), fs\<lparr>history := h\<rparr>)))"

definition closeDirectory :: "kernel \<Rightarrow> int \<Rightarrow> file_system \<Rightarrow> int \<times> file_system" where
  "closeDirectory k fd fs =
     (let dir = pointer_of_int fd in
      if dir \<notin> m_rfsDirectories fs then (- EBADF, fs)
      else (case syscall_on k (SysClosedir dir) fs of (ret, fs) \<Rightarrow>
             (translateReturn ret,
              if ret = Inr 0 then fs\<lparr>m_rfsDirectories := m_rfsDirectories fs - {dir}\<rparr> else fs)))"

section \<open>Requests\<close>

text \<open>A call of one of the operations above, and what it leaves of the state.\<close>

datatype file_request =
    OpenFile path int | CloseFile int | ReadFile int "byte list" | WriteFile int "byte list"
  | LseekFile int int int | FtruncateFile int nat | GetFileInfoByHandle int "stat_buf option"
  | RenameFile path path | DeleteFile path | MakeDirectory path | DeleteDirectory path
  | OpenDirectory path | ReadDirectory int path | CloseDirectory int

fun file_step :: "kernel \<Rightarrow> file_request \<Rightarrow> file_system \<Rightarrow> file_system" where
  "file_step k (OpenFile p flags) fs = snd (openFile k p flags fs)"
| "file_step k (CloseFile fd) fs = snd (closeFile k fd fs)"
| "file_step k (ReadFile fd data) fs = snd (readFile k fd data fs)"
| "file_step k (WriteFile fd data) fs = snd (writeFile k fd data fs)"
| "file_step k (LseekFile fd offset whence) fs = snd (lseekFile k fd offset whence fs)"
| "file_step k (FtruncateFile fd n) fs = snd (ftruncateFile k fd n fs)"
| "file_step k (GetFileInfoByHandle fd buf) fs = snd (getFileInfoByHandle k fd buf fs)"
| "file_step k (RenameFile a b) fs = snd (renameFile k a b fs)"
| "file_step k (DeleteFile p) fs = snd (deleteFile k p fs)"
| "file_step k (MakeDirectory p) fs = snd (makeDirectory k p fs)"
| "file_step k (DeleteDirectory p) fs = snd (deleteDirectory k p fs)"
| "file_step k (OpenDirectory p) fs = snd (openDirectory k p fs)"
| "file_step k (ReadDirectory fd p) fs = snd (readDirectory k fd p fs)"
| "file_step k (CloseDirectory fd) fs = snd (closeDirectory k fd fs)"

definition file_run :: "kernel \<Rightarrow> file_request list \<Rightarrow> file_system \<Rightarrow> file_system" where
  "file_run k rs fs = fold (file_step k) rs fs"

lemmas file_op_defs = openFile_def closeFile_def readFile_def writeFile_def lseekFile_def
  ftruncateFile_def getFileInfoByHandle_def renameFile_def deleteFile_def makeDirectory_def
  deleteDirectory_def openDirectory_def readDirectory_def closeDirectory_def

section \<open>What the name check accepts\<close>

definition accepted :: "path \<Rightarrow> path \<Rightarrow> bool" where
  "accepted efs p \<longleftrightarrow> prefix_to p (find_slash p 1) = efs"

text \<open>The name is the directory \<open>efs\<close> or textually below it.\<close>

definition inside :: "path \<Rightarrow> path \<Rightarrow> bool" where
  "inside efs p \<longleftrightarrow> take (length efs) p = efs \<and> (length efs < length p \<longrightarrow> p ! length efs = slash)"

lemma find_slash_next:
  "n < length s \<Longrightarrow> s ! n = slash \<Longrightarrow> find_slash s n = Some n"
  by (simp add: find_slash_def upt_conv_Cons)

text \<open>A component starts behind a slash, so it starts with a slash only when it is a single one.\<close>

lemma component_not_dots:
  assumes "offset < length s"
  shows "(case find_slash s (offset + 1) of None \<Rightarrow> drop (offset + 1) s
      | Some n \<Rightarrow> take (n - offset) (drop (offset + 1) s)) \<noteq> lit ''/..''" (is "?c \<noteq> _")
proof
  assume eq: "?c = lit ''/..''"
  then have "take 1 ?c = [slash]" "length ?c = 3" by (simp_all add: lit_def slash_def)
  then have hd: "offset + 1 < length s" "s ! (offset + 1) = slash"
    by (auto split: option.splits simp: min_def take_Suc_conv_app_nth hd_drop_conv_nth take_Suc split: if_splits)
  then have "find_slash s (offset + 1) = Some (offset + 1)" by (rule find_slash_next)
  with \<open>length ?c = 3\<close> show False by simp
qed

lemma check_components_later: "0 < offset \<Longrightarrow> offset < length s \<Longrightarrow> check_components efs s offset = 0"
proof (induction efs s offset rule: check_components.induct)
  case (1 efs s offset)
  show ?case
  proof (cases "find_slash s (offset + 1)")
    case None
    then show ?thesis
      using "1.prems" component_not_dots [of offset s] by (subst check_components.simps) (simp add: Let_def)
  next
    case (Some n)
    then have "0 < n" "n < length s" using find_slash_Some [OF Some] by auto
    then have "check_components efs s n = 0"
      using "1.prems" Some component_not_dots [of offset s]
      by (intro "1.IH" [OF refl _ refl refl]) auto
    then show ?thesis
      using "1.prems" Some component_not_dots [of offset s] by (subst check_components.simps) (simp add: Let_def)
  qed
qed

lemma check_components_start:
  assumes "s \<noteq> []"
  shows "check_components efs s 0 = (if accepted efs s then 0 else - EACCES)"
proof (cases "find_slash s 1")
  case None
  then show ?thesis
    using assms component_not_dots [of 0 s]
    by (subst check_components.simps) (auto simp: Let_def accepted_def)
next
  case (Some n)
  then have "check_components efs s n = 0" using find_slash_Some [OF Some] by (auto intro: check_components_later)
  with Some show ?thesis
    using assms component_not_dots [of 0 s]
    by (subst check_components.simps) (auto simp: Let_def accepted_def)
qed

lemma expanded_name_nonempty: "expanded_name efs filename \<noteq> []"
  by (auto simp: expanded_name_def lit_def)

lemma expandAndValidate_iff:
  "expandAndValidateFilename filename fs = Inr p \<longleftrightarrow>
     p = expanded_name (m_efs fs) filename \<and> accepted (m_efs fs) p"
  using check_components_start [OF expanded_name_nonempty, of "m_efs fs" "m_efs fs" filename]
  by (auto simp: expandAndValidateFilename_def Let_def EACCES_def)

lemma expandAndValidate_Inl:
  "expandAndValidateFilename filename fs = Inl ret \<Longrightarrow> ret = - EACCES"
  using check_components_start [OF expanded_name_nonempty, of "m_efs fs" "m_efs fs" filename]
  by (auto simp: expandAndValidateFilename_def Let_def split: if_splits)

section \<open>Confinement to the mount point\<close>

lemma find_slash_least: "find_slash s from = Some i \<Longrightarrow> from \<le> j \<Longrightarrow> j < length s \<Longrightarrow> s ! j = slash \<Longrightarrow> i \<le> j"
  by (rule ccontr) (auto simp: find_slash_def find_Some_iff not_le dest!: spec [where x = "j - from"])

lemma find_slash_None: "find_slash s from = None \<Longrightarrow> from \<le> j \<Longrightarrow> j < length s \<Longrightarrow> s ! j \<noteq> slash"
  by (auto simp: find_slash_def find_None_iff)

lemma find_slash_eqI:
  assumes "from \<le> i" "i < length s" "s ! i = slash" "slash \<notin> set (drop from (take i s))"
  shows "find_slash s from = Some i"
proof (cases "find_slash s from")
  case None
  with find_slash_None [OF None assms(1,2)] assms(3) show ?thesis by simp
next
  case (Some j)
  then have j: "from \<le> j" "j < length s" "s ! j = slash" "j \<le> i"
    using find_slash_Some [OF Some] find_slash_least [OF Some assms(1-3)] by auto
  have "j = i"
  proof (rule ccontr)
    assume "j \<noteq> i"
    then have "drop from (take i s) ! (j - from) = slash" "j - from < length (drop from (take i s))"
      using j assms(2) by auto
    with assms(4) show False by (metis nth_mem)
  qed
  with Some show ?thesis by simp
qed

lemma accepted_inside: "accepted efs p \<Longrightarrow> inside efs p"
  by (auto simp: accepted_def inside_def prefix_to_def split: option.splits dest!: find_slash_Some)

text \<open>Every directory that \<open>makePath\<close> creates above an accepted name is the mount point or below it.\<close>

lemma accepted_cut:
  assumes acc: "accepted efs p" and n: "1 \<le> n" "n < length p" "p ! n = slash"
  shows "inside efs (take n p)"
proof (cases "find_slash p 1")
  case None
  with find_slash_None [OF None n(1,2)] n(3) show ?thesis by simp
next
  case (Some i)
  then have "i \<le> n" using find_slash_least n by blast
  moreover have "efs = take i p" "i < length p" "p ! i = slash"
    using acc Some find_slash_Some [OF Some] by (auto simp: accepted_def prefix_to_def)
  ultimately show ?thesis by (simp add: inside_def min_def)
qed

lemma takeWhile_take_all: "(\<And>x. x \<in> set xs \<Longrightarrow> P x) \<Longrightarrow> takeWhile P (xs @ ys) = xs @ takeWhile P ys"
  by (induction xs) auto

lemma inside_iff: "inside efs p \<longleftrightarrow> (\<exists>r. p = efs @ r \<and> (r = [] \<or> hd r = slash))"
proof
  assume "inside efs p"
  then show "\<exists>r. p = efs @ r \<and> (r = [] \<or> hd r = slash)"
    by (intro exI [of _ "drop (length efs) p"])
      (cases "length efs < length p"; auto simp: inside_def hd_drop_conv_nth
        intro: append_take_drop_id [symmetric, of _ "length efs", THEN trans])
qed (auto simp: inside_def nth_append hd_conv_nth)

lemma inside_c_str:
  assumes "0 \<notin> set efs" "inside efs p"
  shows "inside efs (c_str p)"
proof -
  from assms(2) obtain r where r: "p = efs @ r" "r = [] \<or> hd r = slash" by (auto simp: inside_iff)
  have "c_str p = efs @ c_str r"
    unfolding r(1) c_str_def using assms(1) by (intro takeWhile_take_all) auto
  moreover have "c_str r = [] \<or> hd (c_str r) = slash"
    using r(2) by (cases r) (auto simp: c_str_def)
  ultimately show ?thesis by (auto simp: inside_iff)
qed

fun path_confined :: "path \<Rightarrow> syscall \<Rightarrow> bool" where
  "path_confined efs (SysAccess p) = inside efs p"
| "path_confined efs (SysOpen p flags) = inside efs p"
| "path_confined efs (SysRename a b) = (inside efs a \<and> inside efs b)"
| "path_confined efs (SysUnlink p) = inside efs p"
| "path_confined efs (SysMkdir p) = inside efs p"
| "path_confined efs (SysRmdir p) = inside efs p"
| "path_confined efs (SysOpendir p) = inside efs p"
| "path_confined efs _ = True"

text \<open>What every operation keeps: the mount point, the NV descriptor, and the confinement of its calls.\<close>

definition confined_step :: "file_system \<Rightarrow> file_system \<Rightarrow> bool" where
  "confined_step fs fs' \<longleftrightarrow> m_efs fs' = m_efs fs \<and> m_nvdata fs' = m_nvdata fs \<and>
     emits (path_confined (m_efs fs)) (history fs) (history fs')"

lemma confined_step_refl [intro, simp]: "confined_step fs fs"
  by (simp add: confined_step_def)

lemma confined_step_trans: "confined_step fs fs1 \<Longrightarrow> confined_step fs1 fs2 \<Longrightarrow> confined_step fs fs2"
  by (auto simp: confined_step_def intro: emits_trans)

lemma make_from_confined:
  assumes "0 \<notin> set efs" "accepted efs p"
  shows "offset = 0 \<or> offset < length p \<and> p ! offset = slash \<Longrightarrow>
    emits (path_confined efs) h (snd (make_from k p offset h))"
  using assms(2)
proof (induction k p offset h rule: make_from.induct)
  case (1 k p offset h)
  have rest: "emits (path_confined efs) h' (snd (make_from k p n h'))"
    if "find_slash p (offset + 1) = Some n" for n h'
    using "1.IH" [OF that] find_slash_Some [OF that] "1.prems" by blast
  have cut: "path_confined efs (SysMkdir (c_str (take offset p)))" if "0 < offset"
    unfolding path_confined.simps
  proof (rule inside_c_str [OF assms(1)], rule accepted_cut)
  qed (use that "1.prems" in auto)
  have first: "emits (path_confined efs) h (snd (make_from k p n (c # h)))"
    if "find_slash p (offset + 1) = Some n" "path_confined efs c" for n c
    using emits_trans [OF _ rest [OF that(1), of "c # h"]] that(2) by simp
  show ?case
    using cut rest first
    by (subst make_from.simps)
      (auto simp: Let_def sys_eq split: option.splits sum.splits)
qed

lemma makePath_confined:
  assumes "0 \<notin> set (m_efs fs)" "accepted (m_efs fs) p"
  shows "confined_step fs (snd (makePath k p fs))"
  using make_from_confined [OF assms, of 0 "history fs" k]
  by (auto simp: makePath_def confined_step_def split: prod.splits)

lemma accepted_name:
  "expandAndValidateFilename filename fs = Inr p \<Longrightarrow> 0 \<notin> set (m_efs fs) \<Longrightarrow>
     accepted (m_efs fs) p \<and> inside (m_efs fs) (c_str p)"
  by (auto simp: expandAndValidate_iff intro: inside_c_str accepted_inside)

text \<open>A call after \<open>makePath\<close>.\<close>

lemma after_makePath:
  assumes "0 \<notin> set (m_efs fs)" "accepted (m_efs fs) p" "makePath k p fs = (ret, fs1)"
  shows "confined_step fs fs1"
    and "path_confined (m_efs fs) c \<Longrightarrow> confined_step fs (fs1\<lparr>history := c # history fs1\<rparr>)"
  using makePath_confined [OF assms(1,2), of k] assms(3) by (auto simp: confined_step_def)

lemma confined_fields [simp]:
  "confined_step fs (fs'\<lparr>m_rfsDescriptors := D\<rparr>) = confined_step fs fs'"
  "confined_step fs (fs'\<lparr>m_rfsDirectories := E\<rparr>) = confined_step fs fs'"
  by (simp_all add: confined_step_def)

lemma snd_syscall_on [simp]: "snd (syscall_on k c fs) = fs\<lparr>history := c # history fs\<rparr>"
  by (simp add: syscall_on_def sys_eq)

lemma file_step_confined:
  assumes efs: "0 \<notin> set (m_efs fs)"
  shows "confined_step fs (file_step k r fs)"
proof (cases r)
  case (OpenFile p flags)
  then show ?thesis
    using efs by (auto simp: openFile_def syscall_on_def sys_eq split: sum.splits prod.splits dest!: accepted_name [OF _ efs]
      intro: after_makePath [OF efs])
next
  case (RenameFile a b)
  then show ?thesis
    using efs by (auto simp: renameFile_def split: sum.splits prod.splits dest!: accepted_name [OF _ efs]
      intro: after_makePath [OF efs])
next
  case (DeleteFile p)
  then show ?thesis
    using efs by (auto simp: deleteFile_def confined_step_def split: sum.splits prod.splits dest!: accepted_name [OF _ efs])
next
  case (MakeDirectory p)
  then show ?thesis
    using efs by (auto simp: makeDirectory_def split: sum.splits prod.splits dest!: accepted_name [OF _ efs]
      intro: after_makePath [OF efs])
next
  case (DeleteDirectory p)
  then show ?thesis
    using efs by (auto simp: deleteDirectory_def split: sum.splits prod.splits dest!: accepted_name [OF _ efs]
      intro: after_makePath [OF efs])
next
  case (OpenDirectory p)
  then show ?thesis
    using efs by (auto simp: openDirectory_def syscall_on_def sys_eq split: sum.splits prod.splits dest!: accepted_name [OF _ efs]
      intro: after_makePath [OF efs])
qed (auto simp: file_op_defs Let_def syscall_on_def sys_eq sys_data_def call_def confined_step_def
    split: sum.splits option.splits)

section \<open>Sessions of descriptors\<close>

text \<open>The descriptor a call works on; \<open>open\<close> and the calls on names have none.\<close>

fun works_on :: "syscall \<Rightarrow> int option" where
  "works_on (SysRead fd n) = Some fd"
| "works_on (SysWrite fd data) = Some fd"
| "works_on (SysLseek fd offset whence) = Some fd"
| "works_on (SysFstat fd) = Some fd"
| "works_on (SysFtruncate fd n) = Some fd"
| "works_on (SysPread fd n offset) = Some fd"
| "works_on (SysPwrite fd data offset) = Some fd"
| "works_on (SysFsync fd) = Some fd"
| "works_on (SysSendfile out inp offset n) = Some out"
| "works_on (SysClose fd) = Some fd"
| "works_on _ = None"

text \<open>
  A legal session: \<open>open\<close> gives a descriptor, a successful \<open>close\<close> takes it away, and in between
  only descriptors that were given are worked on.  The sets are the open descriptors before and
  after the calls that separate the two histories.
\<close>

inductive session :: "kernel \<Rightarrow> int set \<Rightarrow> history \<Rightarrow> int set \<Rightarrow> history \<Rightarrow> bool"
  for k D h
where
  start: "session k D h D h"
| opened: "session k D h D1 h1 \<Longrightarrow> k_int k h1 (SysOpen p flags) = Inr n \<Longrightarrow>
    session k D h (insert (int n) D1) (SysOpen p flags # h1)"
| refused: "session k D h D1 h1 \<Longrightarrow> k_int k h1 (SysOpen p flags) = Inl e \<Longrightarrow>
    session k D h D1 (SysOpen p flags # h1)"
| closed: "session k D h D1 h1 \<Longrightarrow> fd \<in> D1 \<Longrightarrow> k_int k h1 (SysClose fd) = Inr 0 \<Longrightarrow>
    session k D h (D1 - {fd}) (SysClose fd # h1)"
| kept: "session k D h D1 h1 \<Longrightarrow> fd \<in> D1 \<Longrightarrow> k_int k h1 (SysClose fd) \<noteq> Inr 0 \<Longrightarrow>
    session k D h D1 (SysClose fd # h1)"
| worked: "session k D h D1 h1 \<Longrightarrow> works_on c = Some fd \<Longrightarrow> fd \<in> D1 \<Longrightarrow> c \<noteq> SysClose fd \<Longrightarrow>
    session k D h D1 (c # h1)"
| other: "session k D h D1 h1 \<Longrightarrow> works_on c = None \<Longrightarrow> (\<And>p flags. c \<noteq> SysOpen p flags) \<Longrightarrow>
    session k D h D1 (c # h1)"

inductive_cases session_callE: "session k D h D' (c # h')"

lemma session_trans:
  "session k D1 h1 D2 h2 \<Longrightarrow> session k D h D1 h1 \<Longrightarrow> session k D h D2 h2"
  by (induction rule: session.induct) (auto intro: session.intros)

lemma session_make_from: "session k D h D' h' \<Longrightarrow> session k D h D' (snd (make_from k p offset h'))"
proof (induction k p offset h' rule: make_from.induct)
  case (1 k p offset h')
  have "session k D h D' (SysMkdir q # h')" for q
    by (rule session.other [OF "1.prems"]) simp_all
  then show ?case
    using "1.prems" "1.IH"
    by (subst make_from.simps) (auto simp: Let_def sys_eq split: option.splits sum.splits)
qed

lemma session_makePath:
  "makePath k p fs = (ret, fs1) \<Longrightarrow>
     session k (m_rfsDescriptors fs) (history fs) (m_rfsDescriptors fs1) (history fs1)"
  using session_make_from [OF session.start, of k _ "history fs" p 0]
  by (auto simp: makePath_def split: prod.splits)

lemma session_file_step:
  "session k (m_rfsDescriptors fs) (history fs) (m_rfsDescriptors (file_step k r fs)) (history (file_step k r fs))"
  by (cases r) (auto simp: file_op_defs Let_def syscall_on_def sys_eq sys_data_def call_def isSafeDescriptor_def
    split: sum.splits option.splits prod.splits intro: session.intros dest!: session_makePath)

section \<open>A kernel that never fails\<close>

text \<open>
  It opens everything as descriptor 3, writes everything, reads 32 times the character 0 when 32
  bytes are asked for and nothing otherwise, and has one directory, at an address in the top half.
\<close>

definition calm_kernel :: kernel where
  "calm_kernel =
     \<lparr>k_int = (\<lambda>h c. case c of SysOpen p f \<Rightarrow> Inr 3 | SysWrite fd data \<Rightarrow> Inr (length data)
        | SysLseek fd off w \<Rightarrow> Inr 32 | SysOpendir p \<Rightarrow> Inr 0xB0000000 | _ \<Rightarrow> Inr 0),
      k_data = (\<lambda>h c. case c of SysPread fd n off \<Rightarrow> Inr (if n = 32 then replicate 32 0x30 else []) | _ \<Rightarrow> Inr []),
      k_stat = (\<lambda>h c. Inr \<lparr>st_is_dir = False, st_size = 2097152, st_ctime = 0, st_mtime = 0\<rparr>),
      k_dirent = (\<lambda>h c. Inr None)\<rparr>"

definition calm_state :: file_system where
  "calm_state =
     \<lparr>m_firmware = lit ''/dev/fw'', m_efs = lit ''/efs'', m_nvdata = 3, m_md5_enabled = True,
      m_rfsDescriptors = {}, m_rfsDirectories = {}, history = []\<rparr>"

lemma calm_name: "expandAndValidateFilename (lit ''a'') calm_state = Inr (lit ''/efs/a'')"
proof -
  have "find_slash (lit ''/efs/a'') 1 = Some 4"
    by (rule find_slash_eqI) (simp_all add: lit_def slash_def)
  then show ?thesis
    by (simp add: expandAndValidate_iff accepted_def prefix_to_def expanded_name_def calm_state_def)
      (simp add: lit_def slash_def)
qed

lemma calm_makePath:
  "makePath calm_kernel (lit ''/efs/a'') calm_state = (0, calm_state\<lparr>history := [SysMkdir (lit ''/efs'')]\<rparr>)"
proof -
  have "find_slash (lit ''/efs/a'') 1 = Some 4" "find_slash (lit ''/efs/a'') 5 = None"
    by (rule find_slash_eqI) (simp_all add: lit_def slash_def find_slash_def)
  then show ?thesis
    by (simp add: makePath_def make_from.simps [of _ _ 0] make_from.simps [of _ _ 4] sys_eq calm_kernel_def
        calm_state_def Let_def) (simp add: lit_def c_str_def)
qed

section \<open>Properties\<close>

text \<open>
  The name check accepts exactly the names whose first component is the mount point.  The test
  for ``..'' never rejects anything: a component starts behind its slash, and is compared with
  ``/..''.
\<close>

theorem name_check:
  "expandAndValidateFilename filename fs =
    (let p = expanded_name (m_efs fs) filename
     in if prefix_to p (find_slash p 1) = m_efs fs then Inr p else Inl (- EACCES))"
  using expandAndValidate_iff [of filename fs] expandAndValidate_Inl [of filename fs]
  by (cases "expandAndValidateFilename filename fs") (auto simp: accepted_def Let_def)

text \<open>
  So the modem can leave the mount point: a name that climbs out of it with ``..'' is opened as
  it stands.
\<close>

theorem traversal_opened:
  assumes "m_efs fs = lit ''/efs''"
  shows "expandAndValidateFilename (lit ''/efs/../data/'' @ name) fs = Inr (lit ''/efs/../data/'' @ name)"
proof -
  have "find_slash (lit ''/efs/../data/'' @ name) 1 = Some 4"
    by (rule find_slash_eqI) (simp_all add: lit_def slash_def)
  then show ?thesis
    using assms
    by (simp add: expandAndValidate_iff accepted_def prefix_to_def expanded_name_def)
      (simp add: lit_def slash_def)
qed

theorem traversal_opened_witness:
  "expandAndValidateFilename (lit ''/efs/../data/'' @ lit ''x'') calm_state = Inr (lit ''/efs/../data/x'')"
  using traversal_opened [of calm_state "lit ''x''"] by (simp add: calm_state_def) (simp add: lit_def)

text \<open>
  Whatever the modem asks for and whatever the kernel answers, every name that a file operation
  hands to the kernel, those of the directories made on the way included, is textually the mount
  point or below it.
\<close>

theorem file_names_confined:
  assumes "0 \<notin> set (m_efs fs)"
  shows "emits (path_confined (m_efs fs)) (history fs) (history (file_run k rs fs))"
proof -
  have "confined_step fs (file_run k rs fs)"
    unfolding file_run_def using assms
  proof (induction rs arbitrary: fs)
    case (Cons r rs)
    from file_step_confined [OF Cons.prems] have 1: "confined_step fs (file_step k r fs)" .
    then have "0 \<notin> set (m_efs (file_step k r fs))" using Cons.prems by (simp add: confined_step_def)
    from confined_step_trans [OF 1 Cons.IH [OF this]] show ?case by simp
  qed simp
  then show ?thesis by (simp add: confined_step_def)
qed

theorem file_names_confined_witness:
  "history (file_run calm_kernel [OpenFile (lit ''a'') 0] calm_state) =
     [SysOpen (lit ''/efs/a'') 0, SysMkdir (lit ''/efs'')] \<and>
   emits (path_confined (lit ''/efs'')) [] (history (file_run calm_kernel [OpenFile (lit ''a'') 0] calm_state))"
proof
  show "history (file_run calm_kernel [OpenFile (lit ''a'') 0] calm_state) =
      [SysOpen (lit ''/efs/a'') 0, SysMkdir (lit ''/efs'')]"
    by (simp add: file_run_def openFile_def calm_name calm_makePath syscall_on_def sys_eq split: sum.splits)
      (simp add: lit_def c_str_def)
  have "0 \<notin> set (m_efs calm_state)" by (simp add: calm_state_def lit_def)
  from file_names_confined [OF this, of calm_kernel "[OpenFile (lit ''a'') 0]"]
  show "emits (path_confined (lit ''/efs'')) [] (history (file_run calm_kernel [OpenFile (lit ''a'') 0] calm_state))"
    by (simp add: calm_state_def)
qed

text \<open>
  C22. The modem works only on descriptors it opened itself and has not closed: over any requests and
  any kernel the calls form a legal session that takes the descriptor table from its old to its new
  content.  The descriptor of the NV data, in particular, is out of its reach.
\<close>

theorem descriptors_confined:
  "session k (m_rfsDescriptors fs) (history fs)
     (m_rfsDescriptors (file_run k rs fs)) (history (file_run k rs fs))"
  unfolding file_run_def
  by (induction rs arbitrary: fs) (auto intro: session.start session_trans session_file_step)

text \<open>
  A directory handle is the pointer cast to \<open>int\<close> and back: reading a directory that was opened
  asks the kernel for exactly that directory, also when the handle came out negative.
\<close>

theorem directory_round_trip:
  assumes "openDirectory k filename fs = (fd, fs1)" and "dir \<in> m_rfsDirectories fs1 - m_rfsDirectories fs"
    and "dir < 2 ^ 32"
  shows "fd = int_of_pointer dir \<and> dir \<in> m_rfsDirectories fs1 \<and>
    history (snd (readDirectory k fd name fs1)) = SysReaddir dir # history fs1"
proof -
  have D: "m_rfsDirectories fs1' = m_rfsDirectories fs" if "makePath k p fs = (r, fs1')" for p r fs1'
    using that by (auto simp: makePath_def split: prod.splits)
  have fd: "fd = int_of_pointer dir"
    using assms(1,2) by (auto simp: openDirectory_def syscall_on_def sys_eq dest!: D split: sum.splits prod.splits if_splits)
  moreover have "pointer_of_int fd = dir"
    using assms(3) fd by (simp add: pointer_of_int_def int_of_pointer_def unat_of_nat)
  ultimately show ?thesis
    using assms(2) by (simp add: readDirectory_def call_def split: sum.splits option.splits)
qed

theorem directory_round_trip_witness:
  "\<exists>fs1. openDirectory calm_kernel (lit ''a'') calm_state = (- 1342177280, fs1) \<and>
     history (snd (readDirectory calm_kernel (- 1342177280) [] fs1)) = SysReaddir 0xB0000000 # history fs1"
proof -
  define fs1 where "fs1 = snd (openDirectory calm_kernel (lit ''a'') calm_state)"
  have op: "openDirectory calm_kernel (lit ''a'') calm_state = (int_of_pointer 0xB0000000, fs1)"
    and dir: "0xB0000000 \<in> m_rfsDirectories fs1 - m_rfsDirectories calm_state"
    unfolding fs1_def openDirectory_def calm_name sum.case calm_makePath
    by (simp_all add: syscall_on_def sys_eq calm_kernel_def) (simp add: calm_state_def)
  have "int_of_pointer 0xB0000000 = - 1342177280" by (simp add: int_of_pointer_def)
  with directory_round_trip [OF op dir, of "[]"] op show ?thesis by simp
qed

end
