(* ===== verification/NV_Data.thy ===== *)
theory NV_Data
  imports File_System
begin

text \<open>
  The modem's non-volatile data (libandroidhal/AndroidFileSystem.cpp): its checksums, its backups,
  the recovery when the file system object is created, and the firmware partition.  \<open>md5\<close>, the
  digest of OpenSSL, is a parameter.
\<close>

section \<open>Checksums\<close>

definition samsung_magic_words :: "byte list" where
  "samsung_magic_words = lit ''Samsung_Android_RIL''"

definition hex_digit :: "byte \<Rightarrow> byte" where
  "hex_digit n = (if n < 10 then 0x30 + n else 0x57 + n)"

text \<open>\<open>snprintf(buf, 3, "%02hhx", x)\<close> for every byte.\<close>

definition binaryToHex :: "byte list \<Rightarrow> byte list" where
  "binaryToHex data = concat (map (\<lambda>x. [hex_digit (drop_bit 4 x), hex_digit (take_bit 4 x)]) data)"

definition calculateMD5 :: "(byte list \<Rightarrow> byte list) \<Rightarrow> byte list \<Rightarrow> byte list" where
  "calculateMD5 md5 data = binaryToHex (md5 (data @ samsung_magic_words))"

text \<open>The read loop: what the kernel returned for each block of 16384 bytes, a short block as it is.\<close>

function pread_blocks :: "kernel \<Rightarrow> int \<Rightarrow> nat \<Rightarrow> nat \<Rightarrow> byte list \<Rightarrow> history \<Rightarrow> byte list option \<times> history" where
  "pread_blocks k fd i stop acc h =
     (if i < stop then
        (case sys_data k (SysPread fd 16384 (int i)) 16384 h of
           (Inl e, h) \<Rightarrow> (None, h)
         | (Inr bytes, h) \<Rightarrow> pread_blocks k fd (i + 16384) stop (acc @ bytes) h)
      else (Some acc, h))"
  by pat_completeness auto
termination
  by (relation "measure (\<lambda>(k, fd, i, stop, acc, h). stop - i)") auto

declare pread_blocks.simps [simp del]

definition calculateFileMD5 ::
    "kernel \<Rightarrow> (byte list \<Rightarrow> byte list) \<Rightarrow> int \<Rightarrow> nat \<Rightarrow> nat \<Rightarrow> history \<Rightarrow> byte list option \<times> history"
where
  "calculateFileMD5 k md5 fd offset n h =
     (case pread_blocks k fd offset (offset + n) [] h of (content, h) \<Rightarrow>
        (map_option (\<lambda>content. binaryToHex (md5 (content @ samsung_magic_words))) content, h))"

text \<open>A call that must return exactly \<open>n\<close>, or the process is aborted.\<close>

definition expect :: "nat \<Rightarrow> (errno + nat) \<times> history \<Rightarrow> history outcome" where
  "expect n r = (if fst r = Inr n then Inr (snd r) else Inl Panic)"

definition open_or_panic :: "kernel \<Rightarrow> path \<Rightarrow> int \<Rightarrow> history \<Rightarrow> (int \<times> history) outcome" where
  "open_or_panic k filename flags h =
     andThen (or_panic (sys k (SysOpen (c_str filename) flags) h)) (\<lambda>(fd, h). Inr (int fd, h))"

definition digest_or_panic ::
    "kernel \<Rightarrow> (byte list \<Rightarrow> byte list) \<Rightarrow> int \<Rightarrow> nat \<Rightarrow> history \<Rightarrow> (byte list \<times> history) outcome"
where
  "digest_or_panic k md5 fd n h =
     (case calculateFileMD5 k md5 fd 0 n h of (Some d, h) \<Rightarrow> Inr (d, h) | (None, h) \<Rightarrow> Inl Panic)"

definition updateMD5 :: "kernel \<Rightarrow> (byte list \<Rightarrow> byte list) \<Rightarrow> file_system \<Rightarrow> file_system outcome" where
  "updateMD5 k md5 fs =
     andThen (digest_or_panic k md5 (m_nvdata fs) NVDATA_SIZE (history fs)) (\<lambda>(digest, h).
     andThen (open_or_panic k (m_efs fs @ lit ''/nv_data.bin.md5'') (O_WRONLY + O_TRUNC + O_CREAT) h)
       (\<lambda>(file, h).
     andThen (expect 32 (sys k (SysWrite file digest) h)) (\<lambda>h.
     let h = SysClose file # h in
     if m_md5_enabled fs then Inr (fs\<lparr>history := h\<rparr>)
     else
       andThen (open_or_panic k (m_efs fs @ lit ''/.nv_state'') (O_WRONLY + O_TRUNC + O_CREAT) h)
         (\<lambda>(marker, h).
       andThen (expect 1 (sys k (SysWrite marker (lit ''1'')) h)) (\<lambda>h.
       Inr (fs\<lparr>history := SysClose marker # SysFsync marker # h, m_md5_enabled := True\<rparr>))))))"

section \<open>Loading\<close>

definition tryLoadNV ::
    "kernel \<Rightarrow> (byte list \<Rightarrow> byte list) \<Rightarrow> path \<Rightarrow> bool \<Rightarrow> nat \<Rightarrow> history \<Rightarrow> (int \<times> history) outcome"
where
  "tryLoadNV k md5 filename md5_enabled expected_size h =
     (case sys k (SysOpen (c_str filename) O_RDWR) h of
        (Inl e, h) \<Rightarrow> Inr (-1, h)
      | (Inr n, h) \<Rightarrow>
     (let fd = int n; failed = (\<lambda>h. Inr (-1, SysClose fd # h)) in
      case call (k_stat k) (SysFstat fd) h of
        (Inl e, h) \<Rightarrow> failed h
      | (Inr statbuf, h) \<Rightarrow>
          if st_size statbuf \<noteq> expected_size then failed h
          else if md5_enabled then
            (case sys k (SysAccess (c_str (filename @ lit ''.md5''))) h of (readable, h) \<Rightarrow>
             if readable \<noteq> Inr 0 then failed h
             else andThen (NativeFile_get k (filename @ lit ''.md5'') h) (\<lambda>(stored, h).
               case calculateFileMD5 k md5 fd 0 expected_size h of
                 (None, h) \<Rightarrow> failed h
               | (Some digest, h) \<Rightarrow>
                   if length stored \<noteq> 32 \<or> stored \<noteq> digest then failed h
                   else Inr (fd, h)))
          else Inr (fd, h)))"

section \<open>Firmware\<close>

fun firmware_slice :: "FirmwareType \<Rightarrow> nat \<times> nat" where
  "firmware_slice PSI = (0, 61440)"
| "firmware_slice EBL = (61440, 102400)"
| "firmware_slice SecureImage = (10483712, 2048)"
| "firmware_slice Firmware = (163840, 10321920)"
| "firmware_slice DefaultNVData = (10485760, NVDATA_SIZE)"

definition getFirmware :: "kernel \<Rightarrow> FirmwareType \<Rightarrow> file_system \<Rightarrow> ((bool \<times> byte list) \<times> file_system) outcome" where
  "getFirmware k type fs =
     (let (offset, n) = firmware_slice type in
      andThen (NativeFile_open k (m_firmware fs) O_RDONLY (history fs)) (\<lambda>(file, h).
      andThen (NativeFile_pread k file n (int offset) h) (\<lambda>(data, h).
      if length data \<noteq> n then Inl Panic
      else Inr ((True, data), fs\<lparr>history := SysClose file # h\<rparr>))))"

section \<open>Reading and writing\<close>

text \<open>\<open>off_t\<close> and \<open>size_t\<close> have 32 bits; their sum is unsigned and wraps.\<close>

definition exceeds_nvdata :: "u32 \<Rightarrow> nat \<Rightarrow> bool" where
  "exceeds_nvdata offset n \<longleftrightarrow> offset + of_nat n > of_nat NVDATA_SIZE"

definition readNVData ::
    "kernel \<Rightarrow> u32 \<Rightarrow> byte list \<Rightarrow> file_system \<Rightarrow> (int \<times> byte list) \<times> file_system"
where
  "readNVData k offset data fs =
     (if exceeds_nvdata offset (length data) then ((- ERANGE, data), fs)
      else (case sys_data k (SysPread (m_nvdata fs) (length data) (sint offset)) (length data) (history fs) of
             (Inl e, h) \<Rightarrow> ((- numeral e, data), fs\<lparr>history := h\<rparr>)
           | (Inr bytes, h) \<Rightarrow> ((0, bytes @ drop (length bytes) data), fs\<lparr>history := h\<rparr>)))"

definition writeNVData ::
    "kernel \<Rightarrow> (byte list \<Rightarrow> byte list) \<Rightarrow> u32 \<Rightarrow> byte list \<Rightarrow> file_system \<Rightarrow> (int \<times> file_system) outcome"
where
  "writeNVData k md5 offset data fs =
     (if exceeds_nvdata offset (length data) then Inr (- ERANGE, fs)
      else (case syscall_on k (SysPwrite (m_nvdata fs) data (sint offset)) fs of
             (Inl e, fs) \<Rightarrow> Inr (- numeral e, fs)
           | (Inr n, fs) \<Rightarrow> andThen (updateMD5 k md5 fs) (\<lambda>fs. Inr (0, fs))))"

section \<open>Backup\<close>

definition backupNVData ::
    "kernel \<Rightarrow> (byte list \<Rightarrow> byte list) \<Rightarrow> bool \<Rightarrow> file_system \<Rightarrow> file_system outcome"
where
  "backupNVData k md5 full fs =
     andThen (if m_md5_enabled fs then Inr fs else updateMD5 k md5 fs) (\<lambda>fs.
     andThen (NativeFile_get k (m_efs fs @ lit ''/nv_data.bin.md5'') (history fs)) (\<lambda>(digest, h).
     andThen (open_or_panic k (m_efs fs @ lit ''/.nv_data.bak'') (O_WRONLY + O_CREAT + O_TRUNC) h)
       (\<lambda>(backup, h).
     andThen (expect NVDATA_SIZE (sys k (SysSendfile backup (m_nvdata fs) 0 NVDATA_SIZE) h)) (\<lambda>h.
     andThen (NativeFile_put k (m_efs fs @ lit ''/.nv_data.bak.md5'') digest True
                (SysClose backup # SysFsync backup # h)) (\<lambda>h.
     if \<not> full then Inr (fs\<lparr>history := h\<rparr>)
     else
       andThen (open_or_panic k (m_efs fs @ lit ''/.nv_core.bak'') (O_RDWR + O_CREAT + O_TRUNC) h)
         (\<lambda>(backup, h).
       andThen (expect CORE_SIZE (sys k (SysSendfile backup (m_nvdata fs) 0 CORE_SIZE) h)) (\<lambda>h.
       andThen (digest_or_panic k md5 backup CORE_SIZE h) (\<lambda>(core_digest, h).
       andThen (NativeFile_put k (m_efs fs @ lit ''/.nv_core.bak.md5'') core_digest False
                  (SysClose backup # SysFsync backup # h)) (\<lambda>h.
       Inr (fs\<lparr>history := h\<rparr>))))))))))"

section \<open>Construction and recovery\<close>

definition md5_marker :: "kernel \<Rightarrow> path \<Rightarrow> history \<Rightarrow> (bool \<times> history) outcome" where
  "md5_marker k efs h =
     (case sys k (SysAccess (c_str (efs @ lit ''/.nv_state''))) h of (ret, h) \<Rightarrow>
        if ret \<noteq> Inr 0 then Inr (False, h)
        else andThen (NativeFile_get k (efs @ lit ''/.nv_state'') h) (\<lambda>(content, h).
          Inr (length content \<noteq> 1 \<or> content \<noteq> lit ''0'', h)))"

definition recover_from_backup ::
    "kernel \<Rightarrow> (byte list \<Rightarrow> byte list) \<Rightarrow> file_system \<Rightarrow> file_system outcome"
where
  "recover_from_backup k md5 fs =
     andThen (tryLoadNV k md5 (m_efs fs @ lit ''/.nv_data.bak'') (m_md5_enabled fs) NVDATA_SIZE (history fs))
       (\<lambda>(source, h).
     if source = -1 then Inr (fs\<lparr>m_nvdata := -1, history := h\<rparr>)
     else
       andThen (open_or_panic k (m_efs fs @ lit ''/nv_data.bin'') (O_RDWR + O_CREAT + O_TRUNC) h)
         (\<lambda>(nvdata, h).
       andThen (expect NVDATA_SIZE (sys k (SysSendfile nvdata source 0 NVDATA_SIZE) h)) (\<lambda>h.
       updateMD5 k md5 (fs\<lparr>m_nvdata := nvdata, history := SysClose source # h\<rparr>))))"

definition nv_padding :: "byte list" where
  "nv_padding = replicate (NVDATA_SIZE - CORE_SIZE) 0xFF"

definition recover_from_core ::
    "kernel \<Rightarrow> (byte list \<Rightarrow> byte list) \<Rightarrow> file_system \<Rightarrow> file_system outcome"
where
  "recover_from_core k md5 fs =
     andThen (tryLoadNV k md5 (m_efs fs @ lit ''/.nv_core.bak'') (m_md5_enabled fs) CORE_SIZE (history fs))
       (\<lambda>(source, h).
     if source = -1 then Inr (fs\<lparr>m_nvdata := -1, history := h\<rparr>)
     else
       andThen (open_or_panic k (m_efs fs @ lit ''/nv_data.bin'') (O_RDWR + O_CREAT + O_TRUNC) h)
         (\<lambda>(nvdata, h).
       andThen (open_or_panic k (m_efs fs @ lit ''/.nv_data.bak'') (O_RDWR + O_CREAT + O_TRUNC) h)
         (\<lambda>(backup, h).
       andThen (expect CORE_SIZE (sys k (SysSendfile nvdata source 0 CORE_SIZE) h)) (\<lambda>h.
       andThen (expect CORE_SIZE (sys k (SysSendfile backup source 0 CORE_SIZE) h)) (\<lambda>h.
       andThen (expect (NVDATA_SIZE - CORE_SIZE) (sys k (SysWrite nvdata nv_padding) h)) (\<lambda>h.
       andThen (expect (NVDATA_SIZE - CORE_SIZE) (sys k (SysWrite backup nv_padding) h)) (\<lambda>h.
       andThen (digest_or_panic k md5 nvdata NVDATA_SIZE
         (SysClose backup # SysFsync nvdata # SysClose source # SysFsync backup # h)) (\<lambda>(digest, h).
       andThen (NativeFile_put k (m_efs fs @ lit ''/.nv_data.bak.md5'') digest True h) (\<lambda>h.
       andThen (NativeFile_put k (m_efs fs @ lit ''/.nv_data.md5'') digest True h) (\<lambda>h.
       Inr (fs\<lparr>m_nvdata := nvdata, history := h\<rparr>)))))))))))"

definition restore_defaults ::
    "kernel \<Rightarrow> (byte list \<Rightarrow> byte list) \<Rightarrow> file_system \<Rightarrow> file_system outcome"
where
  "restore_defaults k md5 fs =
     andThen (open_or_panic k (m_efs fs @ lit ''/nv_data.bin'') (O_RDWR + O_CREAT + O_TRUNC) (history fs))
       (\<lambda>(nvdata, h).
     andThen (getFirmware k DefaultNVData (fs\<lparr>m_nvdata := nvdata, history := h\<rparr>)) (\<lambda>((ok, data), fs).
     andThen (expect NVDATA_SIZE (sys k (SysWrite nvdata data) (history fs))) (\<lambda>h.
     andThen (updateMD5 k md5 (fs\<lparr>history := h\<rparr>)) (backupNVData k md5 True))))"

text \<open>Each stage runs only when the one before it left no descriptor.\<close>

definition unless_loaded :: "(file_system \<Rightarrow> file_system outcome) \<Rightarrow> file_system \<Rightarrow> file_system outcome" where
  "unless_loaded stage fs = (if m_nvdata fs = -1 then stage fs else Inr fs)"

definition AndroidFileSystem ::
    "kernel \<Rightarrow> (byte list \<Rightarrow> byte list) \<Rightarrow> path \<Rightarrow> path \<Rightarrow> history \<Rightarrow> file_system outcome"
where
  "AndroidFileSystem k md5 firmware efs h =
     andThen (md5_marker k efs h) (\<lambda>(enabled, h).
     andThen (tryLoadNV k md5 (efs @ lit ''/nv_data.bin'') enabled NVDATA_SIZE h) (\<lambda>(nvdata, h).
     andThen (unless_loaded (recover_from_backup k md5)
        \<lparr>m_firmware = firmware, m_efs = efs, m_nvdata = nvdata, m_md5_enabled = enabled,
         m_rfsDescriptors = {}, m_rfsDirectories = {}, history = h\<rparr>) (\<lambda>fs.
     andThen (unless_loaded (recover_from_core k md5) fs)
       (unless_loaded (restore_defaults k md5)))))"

section \<open>The file system behind the interface\<close>

definition android_ops :: "kernel \<Rightarrow> (byte list \<Rightarrow> byte list) \<Rightarrow> file_system fs_ops" where
  "android_ops k md5 =
     \<lparr>fs_getFirmware = getFirmware k, fs_readNVData = readNVData k, fs_writeNVData = writeNVData k md5,
      fs_backupNVData = backupNVData k md5, fs_readFile = readFile k, fs_writeFile = writeFile k,
      fs_lseekFile = lseekFile k, fs_closeFile = closeFile k, fs_renameFile = renameFile k,
      fs_getFileInfoByHandle = getFileInfoByHandle k, fs_deleteFile = deleteFile k,
      fs_makeDirectory = makeDirectory k, fs_deleteDirectory = deleteDirectory k,
      fs_openDirectory = openDirectory k, fs_readDirectory = readDirectory k,
      fs_closeDirectory = closeDirectory k, fs_openFile = openFile k, fs_ftruncateFile = ftruncateFile k\<rparr>"

lemma makePath_keeps: "makePath k p fs = (r, fs') \<Longrightarrow> m_rfsDescriptors fs' = m_rfsDescriptors fs"
  by (auto simp: makePath_def split: prod.splits)

lemma make_from_nonpos: "fst (make_from k p offset h) \<le> 0"
proof (induction k p offset h rule: make_from.induct)
  case (1 k p offset h)
  then show ?case
    by (subst make_from.simps) (auto simp: Let_def sys_eq split: option.splits sum.splits)
qed

lemma makePath_nonpos: "makePath k p fs = (r, fs') \<Longrightarrow> r \<le> 0"
  using make_from_nonpos [of k p 0 "history fs"] by (auto simp: makePath_def split: prod.splits)

interpretation android: file_service "android_ops k md5" m_rfsDescriptors
  for k :: kernel and md5 :: "byte list \<Rightarrow> byte list"
proof unfold_locales
  fix name flags fs r fs'
  assume op: "fs_openFile (android_ops k md5) name flags fs = (r, fs')"
  show "r < 0 \<Longrightarrow> m_rfsDescriptors fs' = m_rfsDescriptors fs"
    "0 \<le> r \<Longrightarrow> m_rfsDescriptors fs' = insert r (m_rfsDescriptors fs)"
    using op makePath_keeps makePath_nonpos expandAndValidate_Inl
    by (fastforce simp: android_ops_def openFile_def syscall_on_def sys_eq translateReturn_def EACCES_def
        split: sum.splits prod.splits if_splits)+
qed (auto simp: android_ops_def closeFile_def readFile_def writeFile_def getFileInfoByHandle_def readNVData_def
    syscall_on_def sys_eq sys_data_def call_def translateReturn_def EBADF_def
    split: sum.splits prod.splits if_splits intro: order_trans [of _ 0])

section \<open>Bounds\<close>

lemma exceeds_nvdata_iff: "exceeds_nvdata offset n \<longleftrightarrow> NVDATA_SIZE < (unat offset + n) mod 2 ^ 32"
proof -
  have "unat (of_nat (unat offset + n) :: u32) = (unat offset + n) mod 2 ^ 32"
    by (simp only: unsigned_of_nat take_bit_eq_mod) simp
  moreover have "offset + of_nat n = of_nat (unat offset + n)" by simp
  ultimately show ?thesis
    by (simp add: exceeds_nvdata_def NVDATA_SIZE_def word_less_nat_alt del: of_nat_add)
qed

text \<open>The top half of the offsets is negative as an \<open>off_t\<close>.\<close>

lemma sint_u32: "sint (w :: u32) = (if unat w < 2 ^ 31 then int (unat w) else int (unat w) - 2 ^ 32)"
proof -
  define n where "n = unat w"
  have n: "uint w = int n" "n < 2 ^ 32" using unsigned_less [of w] by (simp_all add: n_def)
  have "sint w = (int n + 2 ^ 31) mod 2 ^ 32 - 2 ^ 31"
    by (simp add: n(1) [symmetric] sint_uint signed_take_bit_eq_take_bit_shift take_bit_eq_mod)
  moreover have "(int n + 2 ^ 31) mod 2 ^ 32 = int n + 2 ^ 31" if "n < 2 ^ 31"
    using that by (intro mod_pos_pos_trivial) auto
  moreover have "(int n + 2 ^ 31) mod 2 ^ 32 = int n + 2 ^ 31 - 2 ^ 32" if "\<not> n < 2 ^ 31"
    unfolding minus_mod_self2 [of "int n + 2 ^ 31" "2 ^ 32", symmetric]
    using that n(2) by (intro mod_pos_pos_trivial) auto
  ultimately show ?thesis by (simp add: n_def)
qed

section \<open>Checksums\<close>

lemma length_binaryToHex [simp, layout_simps]: "length (binaryToHex data) = 2 * length data"
  by (induction data) (auto simp: binaryToHex_def)

lemma pread_blocks_length:
  "pread_blocks k fd i stop acc h = (Some content, h') \<Longrightarrow> \<exists>read. content = acc @ read"
  by (induction k fd i stop acc h rule: pread_blocks.induct)
    (subst (asm) (2) pread_blocks.simps, auto split: if_splits sum.splits prod.splits)

lemma open_or_panic_Inr:
  "open_or_panic k p flags h = Inr (fd, h') \<longleftrightarrow>
     (\<exists>n. k_int k h (SysOpen (c_str p) flags) = Inr n \<and> fd = int n \<and> h' = SysOpen (c_str p) flags # h)"
  by (auto simp: open_or_panic_def andThen_eq_Inr or_panic_eq_Inr sys_eq split: prod.splits)

lemma expect_Inr: "expect n (sys k c h) = Inr h' \<longleftrightarrow> k_int k h c = Inr n \<and> h' = c # h"
  by (auto simp: expect_def sys_eq)

lemma digest_or_panic_Inr:
  "digest_or_panic k md5 fd n h = Inr (d, h') \<longleftrightarrow>
     (\<exists>content. pread_blocks k fd 0 n [] h = (Some content, h') \<and> d = calculateMD5 md5 content)"
  by (auto simp: digest_or_panic_def calculateFileMD5_def calculateMD5_def split: prod.splits option.splits)

text \<open>What \<open>updateMD5\<close> did: the calls after the digest was computed, the latest first.\<close>

definition checksum_calls :: "path \<Rightarrow> bool \<Rightarrow> int \<Rightarrow> int \<Rightarrow> byte list \<Rightarrow> syscall list" where
  "checksum_calls efs enabled file marker digest =
     (if enabled then []
      else [SysClose marker, SysFsync marker, SysWrite marker (lit ''1''),
            SysOpen (c_str (efs @ lit ''/.nv_state'')) (O_WRONLY + O_TRUNC + O_CREAT)]) @
     [SysClose file, SysWrite file digest,
      SysOpen (c_str (efs @ lit ''/nv_data.bin.md5'')) (O_WRONLY + O_TRUNC + O_CREAT)]"

lemma updateMD5_Inr:
  assumes "updateMD5 k md5 fs = Inr fs'"
  obtains content h out marker where
    "pread_blocks k (m_nvdata fs) 0 NVDATA_SIZE [] (history fs) = (Some content, h)"
    "fs' = fs\<lparr>history := checksum_calls (m_efs fs) (m_md5_enabled fs) out marker (calculateMD5 md5 content) @ h,
             m_md5_enabled := True\<rparr>"
  using assms
  by (cases fs; cases "m_md5_enabled fs")
    (auto simp: updateMD5_def andThen_eq_Inr digest_or_panic_Inr open_or_panic_Inr expect_Inr Let_def checksum_calls_def)

section \<open>The checksum of the calm kernel\<close>

lemma calm_read: "sys_data calm_kernel (SysPread fd n off) n h =
    (Inr (if n = 32 then replicate 32 0x30 else []), SysPread fd n off # h)"
  by (simp add: sys_data_def call_def calm_kernel_def)

lemma calm_blocks: "\<exists>h'. pread_blocks calm_kernel fd i stop [] h = (Some [], h')"
proof (induction k\<equiv>calm_kernel fd i stop acc\<equiv>"[] :: byte list" h rule: pread_blocks.induct)
  case (1 fd i stop h)
  then show ?case by (subst pread_blocks.simps) (auto simp: calm_read)
qed

lemma calm_digest: "binaryToHex (replicate 16 0) = replicate 32 0x30"
proof -
  have "binaryToHex (replicate n 0) = replicate (2 * n) 0x30" for n
    by (induction n) (simp_all add: binaryToHex_def hex_digit_def)
  from this [of 16] show ?thesis by simp
qed

lemma calm_int [simp]:
  "k_int calm_kernel h (SysOpen p f) = Inr 3" "k_int calm_kernel h (SysAccess p) = Inr 0"
  "k_int calm_kernel h (SysLseek fd off w) = Inr 32" "k_int calm_kernel h (SysWrite fd data) = Inr (length data)"
  by (simp_all add: calm_kernel_def)

lemma calm_get: "\<exists>h'. NativeFile_get calm_kernel p h = Inr (replicate 32 0x30, h')"
  by (simp add: NativeFile_get_def NativeFile_open_def NativeFile_seek_def NativeFile_pread_def or_panic_def
      sys_eq calm_read del: replicate.simps)

lemma calm_load:
  "\<exists>h'. tryLoadNV calm_kernel (\<lambda>_. replicate 16 0) p True NVDATA_SIZE h = Inr (3, h')"
proof -
  let ?h = "SysAccess (c_str (p @ lit ''.md5'')) # SysFstat 3 # SysOpen (c_str p) O_RDWR # h"
  obtain h1 where get: "NativeFile_get calm_kernel (p @ lit ''.md5'') ?h = Inr (replicate 32 0x30, h1)"
    using calm_get by blast
  obtain h2 where "pread_blocks calm_kernel 3 0 NVDATA_SIZE [] h1 = (Some [], h2)"
    using calm_blocks by blast
  moreover have "k_stat calm_kernel h' c = Inr \<lparr>st_is_dir = False, st_size = 2097152, st_ctime = 0, st_mtime = 0\<rparr>" for h' c
    by (simp add: calm_kernel_def)
  ultimately show ?thesis
    using get
    by (simp add: tryLoadNV_def sys_eq call_def calculateFileMD5_def calm_digest NVDATA_SIZE_def
        del: replicate.simps)
qed

lemma calm_constructed:
  obtains fs where "AndroidFileSystem calm_kernel (\<lambda>_. replicate 16 0) firmware efs start = Inr fs"
proof -
  obtain h where marker: "md5_marker calm_kernel efs start = Inr (True, h)"
    using calm_get [of "efs @ lit ''/.nv_state''" "SysAccess (c_str (efs @ lit ''/.nv_state'')) # start"]
    by (auto simp: md5_marker_def sys_eq)
  obtain h' where "tryLoadNV calm_kernel (\<lambda>_. replicate 16 0) (efs @ lit ''/nv_data.bin'') True
      NVDATA_SIZE h = Inr (3, h')"
    using calm_load by blast
  with marker show thesis
    by (intro that [of "\<lparr>m_firmware = firmware, m_efs = efs, m_nvdata = 3, m_md5_enabled = True,
      m_rfsDescriptors = {}, m_rfsDirectories = {}, history = h'\<rparr>"]) (simp add: AndroidFileSystem_def unless_loaded_def)
qed

section \<open>Properties\<close>

text \<open>
  \<open>readNVData\<close> reaches the kernel with a range inside the 2 MB of NV data, or else with an
  \<open>off_t\<close> that is negative; the latter passes the guard because its sum is taken modulo 2^32.  When
  the guard rejects the request nothing happens.  A buffer that the process can hold is at most
  2^31 bytes long.
\<close>

theorem nv_read_bounds:
  assumes "length data \<le> 2 ^ 31"
  shows "snd (readNVData k offset data fs) = fs \<and> fst (readNVData k offset data fs) = (- ERANGE, data) \<or>
    history (snd (readNVData k offset data fs)) =
      SysPread (m_nvdata fs) (length data) (sint offset) # history fs \<and>
    (sint offset < 0 \<or> 0 \<le> sint offset \<and> sint offset + int (length data) \<le> int NVDATA_SIZE)"
proof (cases "exceeds_nvdata offset (length data)")
  case False
  then have le: "(unat offset + length data) mod 2 ^ 32 \<le> NVDATA_SIZE" by (simp add: exceeds_nvdata_iff)
  have "sint offset < 0 \<or> 0 \<le> sint offset \<and> sint offset + int (length data) \<le> int NVDATA_SIZE"
  proof (cases "unat offset < 2 ^ 31")
    case True
    then have "(unat offset + length data) mod 2 ^ 32 = unat offset + length data" using assms by simp
    with le have "int (unat offset) + int (length data) \<le> int NVDATA_SIZE" by linarith
    with True show ?thesis by (simp add: sint_u32)
  next
    case False
    moreover have "uint offset < 2 ^ 32" using unsigned_less [of offset] by simp
    ultimately show ?thesis by (simp add: sint_u32)
  qed
  then show ?thesis
    using False by (auto simp: readNVData_def sys_data_def call_def split: sum.splits)
qed (simp add: readNVData_def)

theorem nv_read_bounds_witness:
  "history (snd (readNVData calm_kernel (- 1) [0, 0] calm_state)) = [SysPread 3 2 (- 1)]"
  using nv_read_bounds [of "[0, 0]" calm_kernel "- 1" calm_state]
  by (auto simp: readNVData_def exceeds_nvdata_def NVDATA_SIZE_def calm_state_def ERANGE_def sys_data_def call_def
      calm_kernel_def)

text \<open>
  The guard lets exactly the requests through whose end, modulo 2^32, is at most 2 MB: two bytes
  at offset 2^32 - 1 pass.
\<close>

theorem nv_guard_wraps:
  "(exceeds_nvdata offset n \<longleftrightarrow> NVDATA_SIZE < (unat offset + n) mod 2 ^ 32) \<and> \<not> exceeds_nvdata (- 1) 2"
  using exceeds_nvdata_iff [of offset n] by (simp add: exceeds_nvdata_def NVDATA_SIZE_def)

text \<open>
  C33. A successful NV write stores the bytes, reads the whole NV file back in blocks, and writes the
  hexadecimal MD5 of what it read, with the vendor's magic words behind it, to \<open>nv_data.bin.md5\<close>;
  if checksums were not enabled it then writes the marker file that enables them.  Nothing else is
  done, in this order.
\<close>

theorem nv_write_keeps_checksum:
  assumes "writeNVData k md5 offset data fs = Inr (0, fs')"
  shows "\<exists>content h out marker.
    pread_blocks k (m_nvdata fs) 0 NVDATA_SIZE [] (SysPwrite (m_nvdata fs) data (sint offset) # history fs) =
      (Some content, h) \<and>
    history fs' = checksum_calls (m_efs fs) (m_md5_enabled fs) out marker (calculateMD5 md5 content) @ h \<and>
    m_md5_enabled fs' \<and> m_nvdata fs' = m_nvdata fs"
proof -
  let ?fs = "fs\<lparr>history := SysPwrite (m_nvdata fs) data (sint offset) # history fs\<rparr>"
  have "updateMD5 k md5 ?fs = Inr fs'"
    using assms
    by (auto simp: writeNVData_def syscall_on_def sys_eq ERANGE_def andThen_eq_Inr split: if_splits sum.splits)
  then show ?thesis by (rule updateMD5_Inr) auto
qed

theorem nv_write_keeps_checksum_witness:
  "\<exists>fs' h out. writeNVData calm_kernel (\<lambda>_. replicate 16 0) 0 [7] calm_state = Inr (0, fs') \<and>
     history fs' = [SysClose out, SysWrite out (replicate 32 0x30),
       SysOpen (c_str (lit ''/efs'' @ lit ''/nv_data.bin.md5'')) (O_WRONLY + O_TRUNC + O_CREAT)] @ h"
proof -
  have "\<exists>h. pread_blocks calm_kernel 3 0 NVDATA_SIZE [] [SysPwrite 3 [7] 0] = (Some [], h)"
    by (rule calm_blocks)
  then obtain h where blocks: "pread_blocks calm_kernel 3 0 NVDATA_SIZE [] [SysPwrite 3 [7] 0] = (Some [], h)" ..
  have "\<exists>fs'. writeNVData calm_kernel (\<lambda>_. replicate 16 0) 0 [7] calm_state = Inr (0, fs')"
    using blocks
    by (simp add: writeNVData_def exceeds_nvdata_def NVDATA_SIZE_def calm_state_def syscall_on_def sys_eq
        updateMD5_def digest_or_panic_def calculateFileMD5_def open_or_panic_def or_panic_def expect_def calm_kernel_def)
  then obtain fs' where wr: "writeNVData calm_kernel (\<lambda>_. replicate 16 0) 0 [7] calm_state = Inr (0, fs')" ..
  from nv_write_keeps_checksum [OF wr] wr show ?thesis
    by (auto simp: calm_state_def checksum_calls_def calculateMD5_def calm_digest)
qed

text \<open>
  NV data is loaded only when its size is the expected one and, with checksums enabled, when the
  32 bytes stored beside it are the digest of what the file contains.
\<close>

theorem nv_load_checks:
  assumes "tryLoadNV k md5 filename enabled expected h = Inr (fd, h')" and "fd \<noteq> -1"
  shows "\<exists>statbuf. k_int k h (SysOpen (c_str filename) O_RDWR) = Inr (nat fd) \<and>
    k_stat k (SysOpen (c_str filename) O_RDWR # h) (SysFstat fd) = Inr statbuf \<and>
    st_size statbuf = expected \<and>
    (enabled \<longrightarrow> (\<exists>h1 h2 content. NativeFile_get k (filename @ lit ''.md5'') h1 =
        Inr (calculateMD5 md5 content, h2) \<and> length (calculateMD5 md5 content) = 32 \<and>
        pread_blocks k fd 0 expected [] h2 = (Some content, h')))"
  using assms
  by (fastforce simp: tryLoadNV_def sys_eq call_def Let_def andThen_eq_Inr calculateFileMD5_def calculateMD5_def
      split: sum.splits if_splits option.splits prod.splits)

theorem nv_load_checks_witness:
  "\<exists>h. tryLoadNV calm_kernel (\<lambda>_. replicate 16 0) (lit ''/efs/nv_data.bin'') True NVDATA_SIZE [] = Inr (3, h) \<and>
     (\<exists>h1 h2. NativeFile_get calm_kernel (lit ''/efs/nv_data.bin.md5'') h1 = Inr (replicate 32 0x30, h2))"
proof -
  obtain h where load: "tryLoadNV calm_kernel (\<lambda>_. replicate 16 0) (lit ''/efs/nv_data.bin'') True NVDATA_SIZE [] = Inr (3, h)"
    using calm_load by blast
  have "lit ''/efs/nv_data.bin'' @ lit ''.md5'' = lit ''/efs/nv_data.bin.md5''" by (simp add: lit_def)
  with nv_load_checks [OF load] load show ?thesis by (auto simp: calculateMD5_def calm_digest)
qed

lemma updateMD5_keeps:
  "updateMD5 k md5 fs = Inr fs' \<Longrightarrow> m_nvdata fs' = m_nvdata fs \<and> m_efs fs' = m_efs fs \<and>
     m_rfsDescriptors fs' = m_rfsDescriptors fs \<and> m_rfsDirectories fs' = m_rfsDirectories fs"
  by (erule updateMD5_Inr) simp

lemma backupNVData_keeps:
  "backupNVData k md5 full fs = Inr fs' \<Longrightarrow> m_nvdata fs' = m_nvdata fs \<and> m_efs fs' = m_efs fs \<and>
     m_rfsDescriptors fs' = m_rfsDescriptors fs \<and> m_rfsDirectories fs' = m_rfsDirectories fs"
  by (auto simp: backupNVData_def andThen_eq_Inr split: if_splits dest!: updateMD5_keeps)

lemma open_or_panic_nonneg: "open_or_panic k p flags h = Inr (fd, h') \<Longrightarrow> fd \<noteq> -1"
  by (auto simp: open_or_panic_Inr)

text \<open>What every recovery stage leaves of the state it is given.\<close>

definition fresh_state :: "path \<Rightarrow> file_system \<Rightarrow> bool" where
  "fresh_state efs fs \<longleftrightarrow> m_efs fs = efs \<and> m_rfsDescriptors fs = {} \<and> m_rfsDirectories fs = {}"

lemma stages_fresh:
  "recover_from_backup k md5 fs = Inr fs' \<Longrightarrow> fresh_state efs fs \<Longrightarrow> fresh_state efs fs'"
  "recover_from_core k md5 fs = Inr fs' \<Longrightarrow> fresh_state efs fs \<Longrightarrow> fresh_state efs fs'"
  by (auto simp: recover_from_backup_def recover_from_core_def andThen_eq_Inr fresh_state_def
      split: if_splits dest!: updateMD5_keeps)

lemma restore_defaults_loaded:
  assumes "restore_defaults k md5 fs = Inr fs'" "fresh_state efs fs"
  shows "fresh_state efs fs' \<and> m_nvdata fs' \<noteq> -1"
  using assms
  by (auto simp: restore_defaults_def andThen_eq_Inr getFirmware_def fresh_state_def
      split: if_splits dest!: updateMD5_keeps backupNVData_keeps open_or_panic_nonneg)

text \<open>
  When construction returns, NV data is open: every combination of missing, truncated or corrupt
  NV files ends in a loaded or rebuilt file or in an abort, never in an object without NV data; and
  the modem has no open file or directory yet.
\<close>

theorem nv_always_available:
  assumes "AndroidFileSystem k md5 firmware efs h = Inr fs"
  shows "m_nvdata fs \<noteq> -1 \<and> m_efs fs = efs \<and> m_rfsDescriptors fs = {} \<and> m_rfsDirectories fs = {}"
proof -
  obtain nvdata enabled h' fs1 fs2 where stages:
    "unless_loaded (recover_from_backup k md5)
      \<lparr>m_firmware = firmware, m_efs = efs, m_nvdata = nvdata, m_md5_enabled = enabled,
       m_rfsDescriptors = {}, m_rfsDirectories = {}, history = h'\<rparr> = Inr fs1" (is "unless_loaded _ ?fs0 = _")
    "unless_loaded (recover_from_core k md5) fs1 = Inr fs2"
    "unless_loaded (restore_defaults k md5) fs2 = Inr fs"
    using assms by (auto simp: AndroidFileSystem_def andThen_eq_Inr)
  have "fresh_state efs ?fs0" by (simp add: fresh_state_def)
  then have "fresh_state efs fs1" using stages(1) stages_fresh(1) by (auto simp: unless_loaded_def split: if_splits)
  then have "fresh_state efs fs2" using stages(2) stages_fresh(2) by (auto simp: unless_loaded_def split: if_splits)
  then have "fresh_state efs fs \<and> m_nvdata fs \<noteq> -1"
    using stages(3) restore_defaults_loaded by (auto simp: unless_loaded_def split: if_splits)
  then show ?thesis by (simp add: fresh_state_def)
qed

theorem nv_always_available_witness:
  "\<exists>fs. AndroidFileSystem calm_kernel (\<lambda>_. replicate 16 0) (lit ''/dev/fw'') (lit ''/efs'') [] = Inr fs \<and>
     m_nvdata fs \<noteq> -1"
proof -
  obtain fs where
    made: "AndroidFileSystem calm_kernel (\<lambda>_. replicate 16 0) (lit ''/dev/fw'') (lit ''/efs'') [] = Inr fs"
    by (rule calm_constructed)
  with nv_always_available [OF made] show ?thesis by blast
qed

end
