(* ===== verification/Remote_Files.thy ===== *)
theory Remote_Files
  imports RFS_Handler NV_Data
begin

text \<open>
  The RFS channel on the Android file system: what packets from the modem can make the kernel do.
\<close>

section \<open>Temporary files\<close>

context file_service
begin

text \<open>A handler that opens a file for one request closes it again.\<close>

lemma put_file_descriptors:
  assumes "handlePutFile ops msg f = Inr (m, f')"
    and "fs_openFile ops (name_of ''name'' ''nameSize'' msg) (get_int ''flags'' msg) f = (fd, f1)"
    and "0 \<le> fd \<Longrightarrow> fd \<notin> descriptors f"
  shows "descriptors f' = descriptors f \<or> 0 \<le> fd \<and> descriptors f' = insert fd (descriptors f) \<and>
    (\<exists>f2. fd \<in> descriptors f2 \<and> fst (fs_closeFile ops fd f2) \<noteq> 0)"
proof (cases "0 \<le> fd")
  case True
  obtain w f2 where wr: "fs_writeFile ops fd (get_bytes ''data'' msg) f1 = (w, f2)" by fastforce
  obtain r f3 where cl: "fs_closeFile ops fd f2 = (r, f3)" by fastforce
  have "f' = f3" using assms(1,2) True wr cl by (simp add: handlePutFile_def)
  moreover have "fd \<in> descriptors f2" using open_gives [OF assms(2) True] write_keeps [OF wr] by simp
  ultimately show ?thesis
    using open_use_close [OF assms(2) True assms(3) [OF True] write_keeps [OF wr] cl] True cl
    by (auto split: if_splits intro: exI [of _ f2])
next
  case False
  with assms open_failed [OF assms(2)] show ?thesis by (simp add: handlePutFile_def)
qed

lemma get_file_descriptors:
  assumes "handleGetFile ops msg f = Inr (m, f')"
    and "fs_openFile ops (name_of ''name'' ''nameSize'' msg) 0 f = (fd, f1)"
    and "0 \<le> fd \<Longrightarrow> fd \<notin> descriptors f"
  shows "descriptors f' = descriptors f \<or> 0 \<le> fd \<and> descriptors f' = insert fd (descriptors f) \<and>
    (\<exists>f2. fd \<in> descriptors f2 \<and> fst (fs_closeFile ops fd f2) \<noteq> 0)"
proof (cases "0 \<le> fd")
  case True
  obtain w data f2 where rd:
    "fs_readFile ops fd (replicate (min 4096 (unat (get_u32 ''size'' msg))) 0) f1 = ((w, data), f2)"
    by (metis surj_pair)
  obtain r f3 where cl: "fs_closeFile ops fd f2 = (r, f3)" by fastforce
  have "f' = f3" using assms(1,2) True rd cl by (simp add: handleGetFile_def Let_def)
  moreover have "fd \<in> descriptors f2" using open_gives [OF assms(2) True] read_keeps [OF rd] by simp
  ultimately show ?thesis
    using open_use_close [OF assms(2) True assms(3) [OF True] conjunct1 [OF read_keeps [OF rd]] cl] True cl
    by (auto split: if_splits intro: exI [of _ f2])
next
  case False
  with assms open_failed [OF assms(2)] show ?thesis by (simp add: handleGetFile_def Let_def)
qed

text \<open>A read never reports more bytes than the request asked for, nor than the reply carries.\<close>

lemma read_file_bound:
  assumes "fs_readFile ops fd (replicate (min 4096 n) 0) f = ((r, data), f')"
  shows "r \<le> int n \<and> r \<le> 4096 \<and> length data = min 4096 n"
  using read_keeps [OF assms] by (auto simp: min_def split: if_splits)

end

section \<open>Every operation stays at the mount point\<close>

definition stays :: "file_system \<Rightarrow> file_system \<Rightarrow> bool" where
  "stays fs fs' \<longleftrightarrow> (0 \<notin> set (m_efs fs) \<longrightarrow> confined_step fs fs')"

lemma stays_trans: "stays fs fs1 \<Longrightarrow> stays fs1 fs2 \<Longrightarrow> stays fs fs2"
  by (auto simp: stays_def intro: confined_step_trans) (auto simp: confined_step_def)

lemma stays_request: "stays fs (file_step k r fs)"
  by (simp add: stays_def file_step_confined)

lemmas stays_requests = stays_request [where r = "OpenFile _ _"] stays_request [where r = "CloseFile _"]
  stays_request [where r = "ReadFile _ _"] stays_request [where r = "WriteFile _ _"]
  stays_request [where r = "LseekFile _ _ _"] stays_request [where r = "FtruncateFile _ _"]
  stays_request [where r = "GetFileInfoByHandle _ _"] stays_request [where r = "RenameFile _ _"]
  stays_request [where r = "DeleteFile _"] stays_request [where r = "MakeDirectory _"]
  stays_request [where r = "DeleteDirectory _"] stays_request [where r = "OpenDirectory _"]
  stays_request [where r = "ReadDirectory _ _"] stays_request [where r = "CloseDirectory _"]

lemma pread_blocks_emits:
  "emits (path_confined efs) h (snd (pread_blocks k fd i stop acc h))"
proof (induction k fd i stop acc h rule: pread_blocks.induct)
  case (1 k fd i stop acc h)
  show ?case
  proof (cases "k_data k h (SysPread fd 16384 (int i))")
    case (Inr bytes)
    then have rd: "sys_data k (SysPread fd 16384 (int i)) 16384 h =
        (Inr (take 16384 bytes), SysPread fd 16384 (int i) # h)"
      by (simp add: sys_data_def call_def)
    have "emits (path_confined efs) h (snd (pread_blocks k fd (i + 16384) stop (acc @ take 16384 bytes)
        (SysPread fd 16384 (int i) # h)))" if "i < stop"
      using "1.IH" [OF that rd [symmetric] refl] by (rule emits_trans [rotated]) simp
    with rd show ?thesis by (subst pread_blocks.simps) simp
  qed (subst pread_blocks.simps, simp add: sys_data_def call_def)
qed

lemma own_file_inside:
  "0 \<notin> set efs \<Longrightarrow> hd name = slash \<Longrightarrow> inside efs (c_str (efs @ name))"
  by (rule inside_c_str) (auto simp: inside_iff)

lemma stays_updateMD5:
  assumes "updateMD5 k md5 fs = Inr fs'"
  shows "stays fs fs'"
  using assms
proof (rule updateMD5_Inr)
  fix content h out marker
  assume blocks: "pread_blocks k (m_nvdata fs) 0 NVDATA_SIZE [] (history fs) = (Some content, h)"
    and fs': "fs' = fs\<lparr>history := checksum_calls (m_efs fs) (m_md5_enabled fs) out marker (calculateMD5 md5 content) @ h,
      m_md5_enabled := True\<rparr>"
  have "emits (path_confined (m_efs fs)) (history fs) h"
    using pread_blocks_emits [of "m_efs fs" "history fs" k "m_nvdata fs" 0 NVDATA_SIZE "[]"] blocks by simp
  moreover have "hd (lit ''/nv_data.bin.md5'') = slash" "hd (lit ''/.nv_state'') = slash"
    by (simp_all add: lit_def slash_def)
  ultimately show "stays fs fs'"
    unfolding stays_def fs' by (auto simp: confined_step_def checksum_calls_def own_file_inside intro!: emits_step)
qed

lemma stays_writeNVData: "writeNVData k md5 offset data fs = Inr (r, fs') \<Longrightarrow> stays fs fs'"
proof -
  assume wr: "writeNVData k md5 offset data fs = Inr (r, fs')"
  let ?fs1 = "fs\<lparr>history := SysPwrite (m_nvdata fs) data (sint offset) # history fs\<rparr>"
  have "stays fs fs" "stays fs ?fs1" by (simp_all add: stays_def confined_step_def)
  with wr show ?thesis
    by (auto simp: writeNVData_def syscall_on_def sys_eq andThen_eq_Inr split: if_splits sum.splits
        dest: stays_updateMD5 intro: stays_trans)
qed

interpretation android_files: tracked_files "android_ops k md5" stays
  for k :: kernel and md5 :: "byte list \<Rightarrow> byte list"
proof unfold_locales
  show "stays fs fs" for fs by (simp add: stays_def)
  show "fs_readNVData (android_ops k md5) offset data fs = (r, fs') \<Longrightarrow> stays fs fs'" for offset data fs r fs'
    by (auto simp: android_ops_def readNVData_def sys_data_def call_def stays_def confined_step_def
        split: if_splits sum.splits)
qed (use stays_requests [of _ k] in \<open>simp_all add: android_ops_def stays_writeNVData\<close>,
    (erule stays_trans, assumption | metis snd_conv)+)

section \<open>A request to open a file\<close>

text \<open>\<open>OPEN_FILE\<close> for the name \<open>a\<close>, sequence number 9.\<close>

definition open_request_name :: "byte list" where "open_request_name = lit ''a'' @ replicate 1023 0"

definition open_request_object :: object where
  "open_request_object = [(''flags'', VU32 0), (''nameSize'', VU32 1), (''name'', VBytes open_request_name)]"

definition open_request_body :: "byte list" where
  "open_request_body = le32 0 @ le32 1 @ open_request_name"

definition open_request_header :: rfs_header where
  "open_request_header = \<lparr>r_length = 1038, r_type = 17, r_sequence = 9\<rparr>"

lemma length_open_request [simp]: "length open_request_name = 1024" "length open_request_body = 1032"
  by (simp_all add: open_request_name_def open_request_body_def lit_def)

lemma open_request_created:
  obtains msg where "create wire_ops CMD_RFS 17 = Some msg"
    "readMessage wire_ops msg open_request_body = Some (msg\<lparr>w_object := open_request_object\<rparr>)"
proof -
  let ?c = "message In ''OPEN_FILE'' 17 IPC_CMD_EXEC [U32 ''flags'', U32 ''nameSize'', Vector ''name'' (Fixed 1024)]"
  have "Factory_create protocol 21 17 = Some (group_RFS, ?c)"
    by (rule iffD2 [OF Factory_create_unambiguous [OF unambiguous_protocol]])
      (simp add: protocol_def group_RFS_def)
  then have 1: "create wire_ops CMD_RFS 17 = Some \<lparr>w_group = group_RFS, w_class = ?c, w_object = []\<rparr>"
    by (simp add: wire_ops_def wire_create_def CMD_RFS_def)
  have conf: "conforms [] (c_fields ?c) open_request_object" by (simp add: open_request_object_def)
  have "unmarshal (c_fields ?c) open_request_body = Some open_request_object"
    using marshal_conforms [OF conf] conf
    by (simp add: unmarshal_iff) (simp add: open_request_object_def open_request_body_def)
  then have 2: "readMessage wire_ops \<lparr>w_group = group_RFS, w_class = ?c, w_object = []\<rparr> open_request_body =
      Some (\<lparr>w_group = group_RFS, w_class = ?c, w_object = []\<rparr>\<lparr>w_object := open_request_object\<rparr>)"
    by (simp add: wire_ops_def)
  show thesis by (rule that [OF 1 2])
qed

lemma open_request_handler:
  "find_handler localtime ops 17 = Some (handleOpenFile ops)"
  by (simp add: find_handler_def FirstType_def LastType_def m_handlers_def)

definition calm_after_open :: file_system where
  "calm_after_open = calm_state\<lparr>history := [SysOpen (lit ''/efs/a'') 0, SysMkdir (lit ''/efs'')],
     m_rfsDescriptors := {3}\<rparr>"

lemma calm_openFile: "openFile calm_kernel (lit ''a'') 0 calm_state = (3, calm_after_open)"
proof -
  have "c_str (lit ''/efs/a'') = lit ''/efs/a''" by (simp add: lit_def c_str_def)
  then show ?thesis
    by (simp add: openFile_def calm_name calm_makePath syscall_on_def sys_eq translateReturn_def calm_after_open_def)
      (simp add: calm_state_def)
qed

lemma open_request_handled:
  "handleOpenFile (android_ops calm_kernel md5) open_request_object calm_state =
     Inr (rfs_reply ''OPEN_FILE_REPLY'' (buildReply 3), calm_after_open)"
proof -
  have "name_of ''name'' ''nameSize'' open_request_object = lit ''a''"
    by (simp add: name_of_def get_u32_def get_bytes_def open_request_object_def open_request_name_def lit_def)
  moreover have "get_int ''flags'' open_request_object = 0"
    by (simp add: get_int_def get_u32_def open_request_object_def)
  ultimately show ?thesis by (simp add: handleOpenFile_def android_ops_def calm_openFile)
qed

lemma open_request_answered:
  "\<exists>sent. rfs_handleMessage localtime (android_ops calm_kernel md5) open_request_header open_request_body
     (calm_state, []) = Inr (calm_after_open, sent)"
proof -
  obtain msg where "create wire_ops CMD_RFS 17 = Some msg"
    "readMessage wire_ops msg open_request_body = Some (msg\<lparr>w_object := open_request_object\<rparr>)"
    by (rule open_request_created)
  moreover obtain bytes where "writeMessage wire_ops (rfs_reply ''OPEN_FILE_REPLY'' (buildReply 3)) = Some bytes"
    "length bytes \<le> 4104"
    using short_replies(11) [of 3] by (auto simp: answers_def)
  moreover from this(2) have "unat (of_nat (6 + length bytes) :: u32) = 6 + length bytes"
    by (simp add: unat_of_nat del: of_nat_add)
  ultimately show ?thesis
    by (simp add: rfs_handleMessage_def open_request_header_def rfs_header_size_def open_request_handler
        open_request_handled rfs_sendMessage_def)
qed

lemma name_outside: "expandAndValidateFilename (lit ''/x'') calm_state = Inl (- EACCES)"
proof (cases "expandAndValidateFilename (lit ''/x'') calm_state")
  case (Inl r)
  then show ?thesis using expandAndValidate_Inl by simp
next
  case (Inr p)
  then have "p = lit ''/x''" "inside (lit ''/efs'') p"
    using accepted_inside by (auto simp: expandAndValidate_iff expanded_name_def lit_def slash_def calm_state_def)
  then show ?thesis by (simp add: inside_def lit_def)
qed

section \<open>Properties\<close>

text \<open>
  C32. Every request the modem can make is answered by exactly one packet: when the type has a handler
  and the body is well-formed, then (unless the file system aborts the process or the reply would be
  built from an unfilled \<open>struct stat\<close>) one packet is appended, whose header carries its true length,
  the type of the request and its sequence number.
\<close>

theorem rfs_request_answered:
  assumes "find_handler localtime ops (r_type header) = Some handler"
    and "create wire_ops CMD_RFS (r_type header) = Some msg"
    and "rfs_header_size \<le> unat (r_length header)"
    and "readMessage wire_ops msg (take (unat (r_length header) - rfs_header_size) data) = Some request"
    and "rfs_handleMessage localtime ops header data (f, sent) = Inr (f', sent')"
  shows "\<exists>packet. sent' = sent @ [packet] \<and>
    rfs_header_of packet =
      \<lparr>r_length = of_nat (length packet), r_type = r_type header, r_sequence = r_sequence header\<rparr> \<and>
    length packet \<le> 4110"
proof -
  obtain response f1 where h: "handler (w_object request) f = Inr (response, f1)"
    using assms by (cases "handler (w_object request) f") (auto simp: rfs_handleMessage_def)
  obtain bytes where bytes: "writeMessage wire_ops response = Some bytes" "length bytes \<le> 4104"
    and t: "m_subcommand wire_ops response = r_type header"
    using handler_answers [OF assms(1) h] by (auto simp: answers_def)
  have "unat (of_nat (6 + length bytes) :: u32) = 6 + length bytes"
    using bytes(2) by (simp add: unat_of_nat del: of_nat_add)
  then show ?thesis
    using assms h bytes t
    by (auto simp: rfs_handleMessage_def rfs_sendMessage_def rfs_header_size_def)
qed

theorem rfs_request_answered_witness:
  "\<exists>packet. rfs_handleMessage (\<lambda>_. undefined) (android_ops calm_kernel id) open_request_header open_request_body
      (calm_state, []) = Inr (calm_after_open, [packet]) \<and>
    r_type (rfs_header_of packet) = 17 \<and> r_sequence (rfs_header_of packet) = 9"
proof -
  obtain msg where msg: "create wire_ops CMD_RFS 17 = Some msg"
    "readMessage wire_ops msg open_request_body = Some (msg\<lparr>w_object := open_request_object\<rparr>)"
    by (rule open_request_created)
  obtain sent where run: "rfs_handleMessage (\<lambda>_. undefined) (android_ops calm_kernel id) open_request_header
      open_request_body (calm_state, []) = Inr (calm_after_open, sent)"
    using open_request_answered by blast
  have "\<exists>packet. sent = [] @ [packet] \<and> rfs_header_of packet =
      \<lparr>r_length = of_nat (length packet), r_type = r_type open_request_header,
       r_sequence = r_sequence open_request_header\<rparr> \<and> length packet \<le> 4110"
  proof (rule rfs_request_answered [OF _ _ _ _ run])
    show "readMessage wire_ops msg (take (unat (r_length open_request_header) - rfs_header_size) open_request_body) =
        Some (msg\<lparr>w_object := open_request_object\<rparr>)"
      using msg(2) by (simp add: open_request_header_def rfs_header_size_def)
  qed (simp_all add: open_request_header_def open_request_handler msg(1) rfs_header_size_def)
  with run show ?thesis by (auto simp: open_request_header_def)
qed

text \<open>
  Asking for the information of a file that cannot be opened builds the reply from a
  \<open>struct stat\<close> that was never filled.
\<close>

theorem rfs_file_info_unfilled:
  assumes "fs_openFile ops (c_str (name_of ''name'' ''nameSize'' msg)) 0 f = (ret, f')" and "ret < 0"
  shows "handleGetFileInfo localtime ops msg f = Inl Undefined"
  using assms by (simp add: handleGetFileInfo_def buildFileInfo_def)

theorem rfs_file_info_unfilled_witness:
  "handleGetFileInfo (\<lambda>_. undefined) (android_ops calm_kernel id)
     [(''nameSize'', VU32 2), (''name'', VBytes (lit ''/x''))] calm_state = Inl Undefined"
proof (rule rfs_file_info_unfilled)
  have "expandAndValidateFilename (lit ''/x'') calm_state = Inl (- EACCES)"
    using name_outside by simp
  then show "fs_openFile (android_ops calm_kernel id) (c_str (name_of ''name'' ''nameSize''
      [(''nameSize'', VU32 2), (''name'', VBytes (lit ''/x''))])) 0 calm_state = (- EACCES, calm_state)"
    by (simp add: android_ops_def openFile_def name_of_def get_u32_def get_bytes_def) (simp add: lit_def c_str_def)
qed (simp add: EACCES_def)

text \<open>
  As long as no move of the buffer overlaps, the cut of the RFS byte stream into chunks does not
  matter: the requests are handled in order, each once, and an incomplete one waits.
\<close>

theorem rfs_segmentation_independent:
  assumes "framed rfs_header_size rfs_messageSize (concat chunks)" and "[] \<notin> set chunks"
    and "moves_apart rfs_header_size rfs_messageSize chunks []"
  shows "receive rfs_header_size rfs_messageSize (rfs_handleReassembledMessage localtime ops) chunks
      (SocketHandler, st) =
    (let (packets, rest) = frames rfs_header_size rfs_messageSize (concat chunks)
     in Some (andThen (deliver_frames (rfs_handleReassembledMessage localtime ops) packets st)
       (\<lambda>st'. Inr (\<lparr>m_reassemblyBuf = rest, m_reassemblyBufSize = length rest + IOBufSize\<rparr>, st'))))"
  by (rule rfs.receive_from_start(1) [OF assms])


theorem rfs_segmentation_independent_witness:
  "receive rfs_header_size rfs_messageSize (rfs_handleReassembledMessage (\<lambda>_. undefined) (android_ops calm_kernel id))
     [[6, 0, 0], [0, 20, 0, 14]] (SocketHandler, calm_state, []) =
   Some (Inr (\<lparr>m_reassemblyBuf = [14], m_reassemblyBufSize = 4097\<rparr>, calm_state, []))"
proof -
  have fr: "frames 6 rfs_messageSize [6, 0, 0, 0, 20, 0, 14] = ([[6, 0, 0, 0, 20, 0]], [14])"
    by (simp add: frames.simps [of _ _ "_ # _"] rfs_messageSize_def rfs_header_of_def)
  have "framed 6 rfs_messageSize [6, 0, 0, 0, 20, 0, 14]"
    by (simp add: framed.simps [of _ _ "_ # _"] rfs_messageSize_def rfs_header_of_def)
  moreover have "moves_apart 6 rfs_messageSize [[6, 0, 0], [0, 20, 0, 14]] []"
    by (simp add: frames.simps [of _ _ "_ # _"] apart.simps [of _ _ "_ # _"] rfs_messageSize_def rfs_header_of_def)
  moreover have "find_handler (\<lambda>_. undefined) (android_ops calm_kernel id) 20 = None"
    by (simp add: find_handler_def FirstType_def LastType_def m_handlers_def)
  ultimately show ?thesis
    using rfs_segmentation_independent [of "[[6, 0, 0], [0, 20, 0, 14]]" "\<lambda>_. undefined" "android_ops calm_kernel id" "(calm_state, [])"] fr
    by (simp add: rfs_header_size_def rfs_handleReassembledMessage_def rfs_handleMessage_def rfs_header_of_def
        IOBufSize_def)
qed

text \<open>
  Whatever packets the modem sends on the RFS channel, and however the kernel behaves, every file
  name that reaches the kernel is textually the EFS mount point or below it; this includes the
  checksum and marker files that NV writes rewrite.
\<close>

theorem rfs_channel_confined:
  assumes "deliver_frames (rfs_handleReassembledMessage localtime (android_ops k md5)) packets (fs, sent) =
      Inr (fs', sent')"
    and "0 \<notin> set (m_efs fs)"
  shows "emits (path_confined (m_efs fs)) (history fs) (history fs')"
  using android_files.channel_tracked [OF assms(1)] assms(2) by (simp add: stays_def confined_step_def)

theorem rfs_channel_confined_witness:
  "\<exists>fs' sent. deliver_frames (rfs_handleReassembledMessage (\<lambda>_. undefined) (android_ops calm_kernel id))
      [rfs_header_bytes open_request_header @ open_request_body] (calm_state, []) = Inr (fs', sent) \<and>
    history fs' = [SysOpen (lit ''/efs/a'') 0, SysMkdir (lit ''/efs'')] \<and>
    emits (path_confined (lit ''/efs'')) [] (history fs')"
proof -
  obtain sent where "rfs_handleMessage (\<lambda>_. undefined) (android_ops calm_kernel id) open_request_header
      open_request_body (calm_state, []) = Inr (calm_after_open, sent)"
    using open_request_answered by blast
  then have run: "deliver_frames (rfs_handleReassembledMessage (\<lambda>_. undefined) (android_ops calm_kernel id))
      [rfs_header_bytes open_request_header @ open_request_body] (calm_state, []) = Inr (calm_after_open, sent)"
    by (simp add: rfs_handleReassembledMessage_def rfs_header_size_def)
  have "0 \<notin> set (m_efs calm_state)" by (simp add: calm_state_def lit_def)
  from rfs_channel_confined [OF run this] run show ?thesis
    by (auto simp: calm_after_open_def) (simp add: calm_state_def)
qed

text \<open>
  \<open>PUT_FILE\<close> and \<open>GET_FILE\<close> leave the table of open descriptors as it was, unless the kernel
  refuses to close the descriptor that the request itself opened.
\<close>

theorem put_get_close:
  assumes "handlePutFile (android_ops k md5) msg fs = Inr (m, fs') \<or> handleGetFile (android_ops k md5) msg fs = Inr (m, fs')"
    and "\<And>fd h. k_int k h (SysClose fd) = Inr 0"
    and "\<And>p flags h n. k_int k h (SysOpen p flags) = Inr n \<Longrightarrow> int n \<notin> m_rfsDescriptors fs"
  shows "m_rfsDescriptors fs' = m_rfsDescriptors fs"
proof -
  have fresh: "fd \<notin> m_rfsDescriptors fs"
    if "fs_openFile (android_ops k md5) name flags fs = (fd, fs1)" "0 \<le> fd" for name flags fd fs1
    using that assms(3) makePath_nonpos expandAndValidate_Inl
    by (fastforce simp: android_ops_def openFile_def syscall_on_def sys_eq translateReturn_def EACCES_def
        split: sum.splits prod.splits if_splits)
  have closes: "fst (fs_closeFile (android_ops k md5) fd fs2) = 0" if "fd \<in> m_rfsDescriptors fs2" for fd fs2
    using that assms(2) by (simp add: android_ops_def closeFile_def syscall_on_def sys_eq translateReturn_def)
  from assms(1) show ?thesis
  proof
    obtain fd fs1 where op: "fs_openFile (android_ops k md5) (name_of ''name'' ''nameSize'' msg)
        (get_int ''flags'' msg) fs = (fd, fs1)" by fastforce
    assume "handlePutFile (android_ops k md5) msg fs = Inr (m, fs')"
    from android.put_file_descriptors [OF this op fresh [OF op]] show ?thesis using closes by blast
  next
    obtain fd fs1 where op: "fs_openFile (android_ops k md5) (name_of ''name'' ''nameSize'' msg) 0 fs = (fd, fs1)"
      by fastforce
    assume "handleGetFile (android_ops k md5) msg fs = Inr (m, fs')"
    from android.get_file_descriptors [OF this op fresh [OF op]] show ?thesis using closes by blast
  qed
qed

theorem put_get_close_witness:
  "\<exists>m fs'. handleGetFile (android_ops calm_kernel id)
      [(''nameSize'', VU32 1), (''name'', VBytes (lit ''a'')), (''size'', VU32 0)] calm_state = Inr (m, fs') \<and>
    m_rfsDescriptors fs' = {}"
proof -
  let ?msg = "[(''nameSize'', VU32 1), (''name'', VBytes (lit ''a'')), (''size'', VU32 0)]"
  obtain m fs' where run: "handleGetFile (android_ops calm_kernel id) ?msg calm_state = Inr (m, fs')"
    by (cases "handleGetFile (android_ops calm_kernel id) ?msg calm_state")
      (auto simp: handleGetFile_def Let_def split: prod.splits)
  have "m_rfsDescriptors fs' = m_rfsDescriptors calm_state"
    by (rule put_get_close [OF disjI2 [OF run]])
      (simp_all add: calm_kernel_def calm_state_def)
  with run show ?thesis by (auto simp: calm_state_def)
qed

text \<open>
  A directory that \<open>opendir\<close> placed in the top half of the address space is reported to the modem
  as a failure, although it is open and stays in the table.
\<close>

theorem open_directory_misreported:
  assumes "openDirectory k (name_of ''name'' ''nameSize'' msg) fs = (int_of_pointer dir, fs')"
    and "2 ^ 31 \<le> dir" and "dir < 2 ^ 32"
  shows "handleOpenDirectory (android_ops k md5) msg fs =
    Inr (rfs_reply ''OPEN_DIRECTORY_REPLY'' [(''ret'', VU32 (- 1)), (''errno'', VU32 (of_nat (2 ^ 32 - dir)))], fs')"
proof -
  have "int_of_pointer dir = int dir - 2 ^ 32"
    using assms(2,3) by (simp add: int_of_pointer_def sint_u32 unat_of_nat)
  with assms show ?thesis
    by (simp add: handleOpenDirectory_def android_ops_def buildReply_def of_nat_diff)
qed

theorem open_directory_misreported_witness:
  "\<exists>fs'. handleOpenDirectory (android_ops calm_kernel id)
      [(''nameSize'', VU32 1), (''name'', VBytes (lit ''a''))] calm_state =
    Inr (rfs_reply ''OPEN_DIRECTORY_REPLY'' [(''ret'', VU32 (- 1)), (''errno'', VU32 0x50000000)], fs') \<and>
    0xB0000000 \<in> m_rfsDirectories fs'"
proof -
  let ?msg = "[(''nameSize'', VU32 1), (''name'', VBytes (lit ''a''))]"
  define fs' where "fs' = snd (openDirectory calm_kernel (lit ''a'') calm_state)"
  have name: "name_of ''name'' ''nameSize'' ?msg = lit ''a''"
    by (simp add: name_of_def get_u32_def get_bytes_def lit_def)
  have op: "openDirectory calm_kernel (name_of ''name'' ''nameSize'' ?msg) calm_state =
      (int_of_pointer 0xB0000000, fs')" and "0xB0000000 \<in> m_rfsDirectories fs'"
    unfolding fs'_def name openDirectory_def calm_name sum.case calm_makePath
    by (simp_all add: syscall_on_def sys_eq calm_kernel_def)
  with open_directory_misreported [OF op] show ?thesis by auto
qed

end
