(* ===== verification/IPC_Socket_Handler.thy ===== *)
theory IPC_Socket_Handler
  imports Socket_Handler "HOL-Library.Multiset"
begin

text \<open>
  The request/response engine of the IPC channel (libsamsung-ipc/IPCSocketHandler.cpp): every
  request in flight holds one of 255 sequence numbers, a response releases the number and
  completes its request, and requests that find no free number are queued.
\<close>

section \<open>State\<close>

text \<open>
  An iterator into the set of free numbers: at an element, at the end, or invalidated because its
  element was erased.  The set is the sorted list of its elements.
\<close>

datatype iterator = At byte | End | Dangling

text \<open>
  What the handler does to its surroundings, in order: a packet given to the socket, a completion
  callback, a delivery to the unsolicited receiver, and the deletion of a request and of an incoming message.
\<close>

datatype 'm ipc_effect =
    SendData "byte list"
  | Complete 'm "'m option"
  | Deliver 'm
  | DeleteRequest 'm
  | DeleteIncoming 'm

record 'm ipc_handler =
  m_messagesInAir :: "byte \<rightharpoonup> 'm"
  m_freeSequenceNumbers :: "byte list"
  m_messageQueue :: "'m list"
  m_allocationIterator :: iterator
  m_effects :: "'m ipc_effect list"

definition begin_iterator :: "byte list \<Rightarrow> iterator" where
  "begin_iterator S = (case S of [] \<Rightarrow> End | x # _ \<Rightarrow> At x)"

definition next_iterator :: "byte \<Rightarrow> byte list \<Rightarrow> iterator" where
  "next_iterator v S = begin_iterator (filter (\<lambda>x. v < x) S)"

definition IPCSocketHandler :: "'m ipc_handler" where
  "IPCSocketHandler =
     (let free = map of_nat [0..<255]
      in \<lparr>m_messagesInAir = Map.empty, m_freeSequenceNumbers = free, m_messageQueue = [],
          m_allocationIterator = begin_iterator free, m_effects = []\<rparr>)"

definition emit :: "'m ipc_effect list \<Rightarrow> 'm ipc_handler \<Rightarrow> 'm ipc_handler" where
  "emit es st = st\<lparr>m_effects := m_effects st @ es\<rparr>"

section \<open>Sending\<close>

definition IPC_CMD_EVENT_code :: byte where "IPC_CMD_EVENT_code = 5"

definition make_header :: "'m message_ops \<Rightarrow> byte \<Rightarrow> 'm \<Rightarrow> byte list \<Rightarrow> ipc_header" where
  "make_header ops mseq m data =
     \<lparr>h_length = of_nat (ipc_header_size + length data), h_mseq = mseq, h_aseq = 0,
      h_mainCommand = m_command ops m, h_subCommand = m_subcommand ops m,
      h_responseType = m_requestType ops m\<rparr>"

text \<open>
  \<open>sendMessage\<close> copies \<open>length - 7\<close> bytes; a length that wrapped below the header size makes the
  second \<open>memcpy\<close> run out of the packet.
\<close>

definition sendMessage :: "ipc_header \<Rightarrow> byte list \<Rightarrow> 'm ipc_handler \<Rightarrow> 'm ipc_handler outcome" where
  "sendMessage header data st =
     (if unat (h_length header) < ipc_header_size then Inl Undefined
      else Inr (emit [SendData (header_bytes header @
             take (unat (h_length header) - ipc_header_size) data)] st))"

definition submit :: "'m message_ops \<Rightarrow> 'm \<Rightarrow> 'm ipc_handler \<Rightarrow> 'm ipc_handler outcome" where
  "submit ops m st =
     (if m_freeSequenceNumbers st = [] then
        Inr (st\<lparr>m_messageQueue := m_messageQueue st @ [m]\<rparr>)
      else case writeMessage ops m of
        None \<Rightarrow> Inr (emit [Complete m None, DeleteRequest m] st)
      | Some data \<Rightarrow>
          (case m_allocationIterator st of
             At v \<Rightarrow>
               (let it = next_iterator v (m_freeSequenceNumbers st);
                    it = (if it = End then begin_iterator (m_freeSequenceNumbers st) else it);
                    header = make_header ops v m data
                in andThen (sendMessage header data (st\<lparr>m_allocationIterator := it\<rparr>)) (\<lambda>st.
                   if h_responseType header \<noteq> IPC_CMD_EVENT_code then
                     Inr (st\<lparr>m_freeSequenceNumbers := remove1 v (m_freeSequenceNumbers st),
                            m_allocationIterator := (if it = At v then Dangling else it),
                            m_messagesInAir :=
                              (if m_messagesInAir st v = None then (m_messagesInAir st)(v \<mapsto> m)
                               else m_messagesInAir st)\<rparr>)
                   else Inr (emit [DeleteRequest m] st)))
           | _ \<Rightarrow> Inl Undefined))"

section \<open>Receiving\<close>

definition IPC_CMD_INDI :: byte where "IPC_CMD_INDI = 1"
definition IPC_CMD_RESP :: byte where "IPC_CMD_RESP = 2"
definition IPC_CMD_NOTI :: byte where "IPC_CMD_NOTI = 3"

definition handleResponse ::
    "'m message_ops \<Rightarrow> byte \<Rightarrow> 'm \<Rightarrow> 'm ipc_handler \<Rightarrow> 'm ipc_handler outcome"
where
  "handleResponse ops aseq m st =
     (case m_messagesInAir st aseq of
        None \<Rightarrow> Inr (emit [DeleteIncoming m] st)
      | Some request \<Rightarrow>
          (let st1 = st\<lparr>m_freeSequenceNumbers := insort_insert aseq (m_freeSequenceNumbers st),
                       m_messagesInAir := (m_messagesInAir st)(aseq := None)\<rparr>
           in andThen
             (case m_allocationIterator st1 of
                Dangling \<Rightarrow> Inl Undefined
              | At v \<Rightarrow> Inr st1
              | End \<Rightarrow>
                  (let st2 = st1\<lparr>m_allocationIterator := begin_iterator (m_freeSequenceNumbers st1)\<rparr>
                   in case m_messageQueue st2 of
                        [] \<Rightarrow> Inr st2
                      | queued # rest \<Rightarrow> submit ops queued (st2\<lparr>m_messageQueue := rest\<rparr>)))
             (\<lambda>st3. Inr (emit [Complete request (Some m), DeleteRequest request] st3))))"

definition handleMessage ::
    "'m message_ops \<Rightarrow> ipc_header \<Rightarrow> byte list \<Rightarrow> 'm ipc_handler \<Rightarrow> 'm ipc_handler outcome"
where
  "handleMessage ops header data st =
     (case create ops (h_mainCommand header) (h_subCommand header) of
        None \<Rightarrow> Inr st
      | Some m \<Rightarrow>
          if unat (h_length header) < ipc_header_size then Inl Undefined
          else case readMessage ops m (take (unat (h_length header) - ipc_header_size) data) of
            None \<Rightarrow> Inr (emit [DeleteIncoming m] st)
          | Some m' \<Rightarrow>
              if h_responseType header = IPC_CMD_INDI \<or> h_responseType header = IPC_CMD_NOTI then
                Inr (emit ((if m_unsolicited ops m' then [Deliver m'] else []) @ [DeleteIncoming m']) st)
              else if h_responseType header = IPC_CMD_RESP then
                handleResponse ops (h_aseq header) m' st
              else Inr (emit [DeleteIncoming m'] st))"

definition messageSize :: "byte list \<Rightarrow> nat" where
  "messageSize data = unat (h_length (header_of data))"

definition handleReassembledMessage ::
    "'m message_ops \<Rightarrow> byte list \<Rightarrow> 'm ipc_handler \<Rightarrow> 'm ipc_handler outcome"
where
  "handleReassembledMessage ops data st =
     handleMessage ops (header_of data) (drop ipc_header_size data) st"

section \<open>Runs\<close>

datatype 'm ipc_event = Submit 'm | Packet "byte list"

fun ipc_step :: "'m message_ops \<Rightarrow> 'm ipc_event \<Rightarrow> 'm ipc_handler \<Rightarrow> 'm ipc_handler outcome" where
  "ipc_step ops (Submit m) st = submit ops m st"
| "ipc_step ops (Packet p) st = handleReassembledMessage ops p st"

fun ipc_run :: "'m message_ops \<Rightarrow> 'm ipc_event list \<Rightarrow> 'm ipc_handler \<Rightarrow> 'm ipc_handler outcome" where
  "ipc_run ops [] st = Inr st"
| "ipc_run ops (e # es) st = andThen (ipc_step ops e st) (ipc_run ops es)"

section \<open>The pool invariant\<close>

definition pool_inv :: "'m ipc_handler \<Rightarrow> bool" where
  "pool_inv st \<longleftrightarrow>
     sorted (m_freeSequenceNumbers st) \<and> distinct (m_freeSequenceNumbers st) \<and>
     set (m_freeSequenceNumbers st) \<inter> dom (m_messagesInAir st) = {} \<and>
     set (m_freeSequenceNumbers st) \<union> dom (m_messagesInAir st) = {v. v \<noteq> 255} \<and>
     (if m_freeSequenceNumbers st = [] then m_allocationIterator st = Dangling
      else \<exists>v \<in> set (m_freeSequenceNumbers st). m_allocationIterator st = At v) \<and>
     (m_messageQueue st \<noteq> [] \<longrightarrow> m_freeSequenceNumbers st = [])"

lemma emit_simps [simp]:
  "m_messagesInAir (emit es st) = m_messagesInAir st"
  "m_freeSequenceNumbers (emit es st) = m_freeSequenceNumbers st"
  "m_messageQueue (emit es st) = m_messageQueue st"
  "m_allocationIterator (emit es st) = m_allocationIterator st"
  "m_effects (emit es st) = m_effects st @ es"
  by (simp_all add: emit_def)

lemma pool_inv_emit [simp]: "pool_inv (emit es st) = pool_inv st"
  by (simp add: pool_inv_def)

lemma all_numbers: "set (map of_nat [0..<255] :: byte list) = {v. v \<noteq> 255}"
proof (intro set_eqI iffI)
  fix v :: byte
  assume "v \<in> {v. v \<noteq> 255}"
  then have "unat v \<noteq> 255" by (simp add: word_unat_eq_iff)
  moreover have "unat v < 256" using unsigned_less [of v] by simp
  ultimately have "unat v \<in> {0..<255}" by auto
  then have "of_nat (unat v) \<in> set (map of_nat [0..<255] :: byte list)" by (simp only: set_map set_upt imageI)
  then show "v \<in> set (map of_nat [0..<255] :: byte list)" by simp
next
  fix v :: byte
  assume "v \<in> set (map of_nat [0..<255] :: byte list)"
  then obtain n where "n < 255" "v = of_nat n" by auto
  then have "unat v = n" by (simp add: unat_of_nat)
  with \<open>n < 255\<close> show "v \<in> {v. v \<noteq> 255}" by auto
qed

lemma sorted_numbers: "sorted (map of_nat [0..<255] :: byte list)"
  by (auto simp: sorted_iff_nth_mono word_le_nat_alt unat_of_nat)

lemma distinct_numbers: "distinct (map of_nat [0..<255] :: byte list)"
proof -
  have "inj_on (of_nat :: nat \<Rightarrow> byte) {0..<255}"
  proof (rule inj_onI)
    fix x y :: nat assume "x \<in> {0..<255}" "y \<in> {0..<255}" "(of_nat x :: byte) = of_nat y"
    then have "unat (of_nat x :: byte) = unat (of_nat y :: byte)" by simp
    with \<open>x \<in> _\<close> \<open>y \<in> _\<close> show "x = y" by (simp add: unat_of_nat)
  qed
  then show ?thesis by (simp add: distinct_map del: upt.simps)
qed

lemma begin_iterator_Nil: "begin_iterator S = End \<longleftrightarrow> S = []"
  by (cases S) (auto simp: begin_iterator_def)

lemma begin_iterator_mem: "S \<noteq> [] \<Longrightarrow> \<exists>v \<in> set S. begin_iterator S = At v"
  by (cases S) (auto simp: begin_iterator_def)

lemma pool_inv_init: "pool_inv IPCSocketHandler"
proof -
  have "(map of_nat [0..<255] :: byte list) \<noteq> []" by (simp del: upt.simps)
  then show ?thesis
    using sorted_numbers distinct_numbers all_numbers begin_iterator_mem [of "map of_nat [0..<255]"]
    unfolding pool_inv_def IPCSocketHandler_def Let_def
    by (simp only: ipc_handler.select_convs) auto
qed

text \<open>The number after the allocated one, wrapping to the smallest: it stays in the pool unless the pool empties.\<close>

definition advance_iterator :: "byte \<Rightarrow> byte list \<Rightarrow> iterator" where
  "advance_iterator v S =
     (if next_iterator v S = End then begin_iterator S else next_iterator v S)"

lemma advance_iterator_cases:
  assumes "v \<in> set S" "sorted S" "distinct S"
  shows "(\<exists>x \<in> set S. advance_iterator v S = At x \<and> x \<noteq> v) \<or> (S = [v] \<and> advance_iterator v S = At v)"
proof (cases "filter (\<lambda>x. v < x) S")
  case (Cons x xs)
  then have "x \<in> set (filter (\<lambda>x. v < x) S)" by simp
  then have "x \<in> set S" "v < x" by auto
  with Cons show ?thesis by (auto simp: advance_iterator_def next_iterator_def begin_iterator_def)
next
  case Nil
  from assms(1) obtain y ys where S: "S = y # ys" by (cases S) auto
  have le: "x \<le> v" if "x \<in> set S" for x using Nil that by (auto simp: filter_empty_conv not_less)
  have "ys = []" if "y = v"
  proof (rule ccontr)
    assume "ys \<noteq> []"
    then obtain z where z: "z \<in> set ys" by (cases ys) auto
    then have "z \<le> v" "y \<le> z" "z \<noteq> y" using le assms(2,3) S by auto
    with that show False by simp
  qed
  then show ?thesis
    using Nil S by (auto simp: advance_iterator_def next_iterator_def begin_iterator_def)
qed

lemma submit_cases:
  assumes "submit ops m st = Inr st'"
  obtains (queued) "m_freeSequenceNumbers st = []"
      "st' = st\<lparr>m_messageQueue := m_messageQueue st @ [m]\<rparr>"
  | (failed) "m_freeSequenceNumbers st \<noteq> []" "writeMessage ops m = None"
      "st' = emit [Complete m None, DeleteRequest m] st"
  | (event) v data where "m_freeSequenceNumbers st \<noteq> []" "writeMessage ops m = Some data"
      "m_allocationIterator st = At v" "m_requestType ops m = IPC_CMD_EVENT_code"
      "st' = emit [SendData (header_bytes (make_header ops v m data) @
          take (unat (h_length (make_header ops v m data)) - ipc_header_size) data), DeleteRequest m]
        (st\<lparr>m_allocationIterator := advance_iterator v (m_freeSequenceNumbers st)\<rparr>)"
  | (sent) v data where "m_freeSequenceNumbers st \<noteq> []" "writeMessage ops m = Some data"
      "m_allocationIterator st = At v" "m_requestType ops m \<noteq> IPC_CMD_EVENT_code"
      "st' = emit [SendData (header_bytes (make_header ops v m data) @
          take (unat (h_length (make_header ops v m data)) - ipc_header_size) data)]
        (st\<lparr>m_freeSequenceNumbers := remove1 v (m_freeSequenceNumbers st),
            m_allocationIterator := (if advance_iterator v (m_freeSequenceNumbers st) = At v then Dangling
              else advance_iterator v (m_freeSequenceNumbers st)),
            m_messagesInAir := (if m_messagesInAir st v = None then (m_messagesInAir st)(v \<mapsto> m)
              else m_messagesInAir st)\<rparr>)"
  using assms
  by (auto simp: submit_def sendMessage_def make_header_def emit_def advance_iterator_def Let_def
      split: option.splits iterator.splits if_splits)

lemma pool_inv_submit:
  assumes inv: "pool_inv st" and sub: "submit ops m st = Inr st'"
  shows "pool_inv st'"
  using sub
proof (cases rule: submit_cases)
  case queued
  then show ?thesis using inv by (simp add: pool_inv_def)
next
  case failed
  then show ?thesis using inv by simp
next
  case (event v data)
  then have v: "v \<in> set (m_freeSequenceNumbers st)" "sorted (m_freeSequenceNumbers st)"
    "distinct (m_freeSequenceNumbers st)"
    using inv by (auto simp: pool_inv_def)
  have "\<exists>x \<in> set (m_freeSequenceNumbers st). advance_iterator v (m_freeSequenceNumbers st) = At x"
    using advance_iterator_cases [OF v] v(1) by blast
  then show ?thesis
    using event(1,5) inv by (simp add: pool_inv_def)
next
  case (sent v data)
  let ?S = "m_freeSequenceNumbers st"
  have v: "v \<in> set ?S" "sorted ?S" "distinct ?S"
    using inv sent(1,3) by (auto simp: pool_inv_def)
  then have air: "m_messagesInAir st v = None" using inv by (auto simp: pool_inv_def)
  have set: "set (remove1 v ?S) = set ?S - {v}" using v by simp
  have st': "m_freeSequenceNumbers st' = remove1 v ?S" "m_messageQueue st' = m_messageQueue st"
    "m_messagesInAir st' = (m_messagesInAir st)(v \<mapsto> m)"
    "m_allocationIterator st' = (if advance_iterator v ?S = At v then Dangling else advance_iterator v ?S)"
    using sent(5) air by simp_all
  have it: "if remove1 v ?S = [] then m_allocationIterator st' = Dangling
      else \<exists>x \<in> set (remove1 v ?S). m_allocationIterator st' = At x"
    using advance_iterator_cases [OF v]
  proof
    assume "\<exists>x \<in> set ?S. advance_iterator v ?S = At x \<and> x \<noteq> v"
    then obtain x where "x \<in> set (remove1 v ?S)" "advance_iterator v ?S = At x" "x \<noteq> v"
      using set by auto
    moreover have "remove1 v ?S \<noteq> []"
      using \<open>x \<in> set (remove1 v ?S)\<close> by (cases "remove1 v ?S") simp_all
    ultimately show ?thesis by (auto simp: st')
  qed (auto simp: st')
  have "set (remove1 v ?S) \<union> dom (m_messagesInAir st') = {v. v \<noteq> 255}"
    "set (remove1 v ?S) \<inter> dom (m_messagesInAir st') = {}"
    using inv v(1) unfolding set st' by (auto simp: pool_inv_def)
  moreover have "m_messageQueue st' = []"
    using inv sent(1) by (auto simp: pool_inv_def st')
  moreover have "sorted (remove1 v ?S)" "distinct (remove1 v ?S)"
    using v by (simp_all add: sorted_remove1)
  ultimately show ?thesis
    unfolding pool_inv_def st'(1) using it by blast
qed

lemma handleResponse_cases:
  assumes "handleResponse ops aseq m st = Inr st'"
  obtains (unknown) "m_messagesInAir st aseq = None" "st' = emit [DeleteIncoming m] st"
  | (matched) request v where "m_messagesInAir st aseq = Some request" "m_allocationIterator st = At v"
      "st' = emit [Complete request (Some m), DeleteRequest request]
        (st\<lparr>m_freeSequenceNumbers := insort_insert aseq (m_freeSequenceNumbers st),
            m_messagesInAir := (m_messagesInAir st)(aseq := None)\<rparr>)"
  | (at_end) "m_allocationIterator st = End"
  using assms
  by (auto simp: handleResponse_def Let_def andThen_eq_Inr split: option.splits iterator.splits)

lemma pool_inv_handleResponse:
  assumes inv: "pool_inv st" and resp: "handleResponse ops aseq m st = Inr st'"
  shows "pool_inv st'"
  using resp
proof (cases rule: handleResponse_cases)
  case unknown
  then show ?thesis using inv by simp
next
  case (matched request v)
  let ?S = "m_freeSequenceNumbers st"
  have st': "m_freeSequenceNumbers st' = insort_insert aseq ?S" "m_messageQueue st' = m_messageQueue st"
    "m_messagesInAir st' = (m_messagesInAir st)(aseq := None)" "m_allocationIterator st' = At v"
    using matched by simp_all
  have ne: "?S \<noteq> []" using inv matched(2) by (auto simp: pool_inv_def)
  then have v: "v \<in> set ?S" "sorted ?S" "distinct ?S" "m_messageQueue st = []"
    using inv matched(2) by (auto simp: pool_inv_def)
  have aseq: "aseq \<in> dom (m_messagesInAir st)" using matched(1) by auto
  have "set (insort_insert aseq ?S) \<union> dom (m_messagesInAir st') = {v. v \<noteq> 255}"
    "set (insort_insert aseq ?S) \<inter> dom (m_messagesInAir st') = {}"
    using inv aseq unfolding set_insort_insert st' by (auto simp: pool_inv_def)
  moreover have "insort_insert aseq ?S \<noteq> []"
    using set_insort_insert [of aseq ?S] by (metis empty_set insert_not_empty)
  ultimately show ?thesis
    unfolding pool_inv_def st' using v by (simp add: sorted_insort_insert distinct_insort_insert set_insort_insert)
next
  case at_end
  then show ?thesis using inv by (auto simp: pool_inv_def split: if_splits)
qed

lemma pool_inv_handleMessage:
  "pool_inv st \<Longrightarrow> handleMessage ops header data st = Inr st' \<Longrightarrow> pool_inv st'"
  by (auto simp: handleMessage_def pool_inv_handleResponse split: option.splits if_splits)

lemma pool_inv_step: "pool_inv st \<Longrightarrow> ipc_step ops e st = Inr st' \<Longrightarrow> pool_inv st'"
  by (cases e) (auto simp: handleReassembledMessage_def intro: pool_inv_submit pool_inv_handleMessage)

lemma pool_inv_run: "pool_inv st \<Longrightarrow> ipc_run ops es st = Inr st' \<Longrightarrow> pool_inv st'"
  by (induction es arbitrary: st) (auto simp: andThen_eq_Inr intro: pool_inv_step)

section \<open>The handler meets the reassembly contract\<close>

lemma handleMessage_take:
  "unat (h_length header) - ipc_header_size \<le> n \<Longrightarrow>
     handleMessage ops header (take n data) st = handleMessage ops header data st"
  by (simp add: handleMessage_def min_def cong: option.case_cong if_cong)

interpretation ipc: framed_handler ipc_header_size messageSize "handleReassembledMessage ops"
  for ops :: "'m message_ops"
proof unfold_locales
  show "0 < ipc_header_size" by (simp add: ipc_header_size_def)
  show "messageSize (xs @ ys) = messageSize xs" if "ipc_header_size \<le> length xs" for xs ys
    using that by (simp add: messageSize_def ipc_header_size_def header_of_append)
  fix xs ys :: "byte list" and s :: "'m ipc_handler"
  assume sz: "ipc_header_size \<le> messageSize xs" "messageSize xs = length xs"
  then have len: "7 \<le> length xs" by (simp add: ipc_header_size_def)
  have "handleMessage ops (header_of xs) (take (length xs - 7) (drop 7 (xs @ ys))) s =
      handleMessage ops (header_of xs) (drop 7 (xs @ ys)) s"
    using sz by (intro handleMessage_take) (simp add: messageSize_def ipc_header_size_def)
  then show "handleReassembledMessage ops (xs @ ys) s = handleReassembledMessage ops xs s"
    using len by (simp add: handleReassembledMessage_def ipc_header_size_def header_of_append)
qed

section \<open>Conservation of requests\<close>

definition submitted :: "'m ipc_event list \<Rightarrow> 'm list" where
  "submitted es = concat (map (\<lambda>e. case e of Submit m \<Rightarrow> [m] | Packet p \<Rightarrow> []) es)"

definition released :: "'m ipc_effect list \<Rightarrow> 'm list" where
  "released fx = concat (map (\<lambda>e. case e of DeleteRequest m \<Rightarrow> [m] | _ \<Rightarrow> []) fx)"

definition in_air :: "(byte \<rightharpoonup> 'm) \<Rightarrow> 'm multiset" where
  "in_air air = image_mset (\<lambda>v. the (air v)) (mset_set (dom air))"

definition accounted :: "'m ipc_handler \<Rightarrow> 'm multiset" where
  "accounted st = mset (m_messageQueue st) + in_air (m_messagesInAir st) + mset (released (m_effects st))"

lemma released_simps [simp]:
  "released [] = []" "released (fx @ gx) = released fx @ released gx"
  "released (e # fx) = (case e of DeleteRequest m \<Rightarrow> [m] | _ \<Rightarrow> []) @ released fx"
  by (simp_all add: released_def)

lemma submitted_simps [simp]:
  "submitted [] = []" "submitted (Submit m # es) = m # submitted es" "submitted (Packet p # es) = submitted es"
  by (simp_all add: submitted_def)

lemma in_air_insert: "air v = None \<Longrightarrow> in_air (air(v \<mapsto> m)) = add_mset m (in_air air)"
proof -
  assume v: "air v = None"
  then have "v \<notin> dom air" by auto
  moreover have "image_mset (\<lambda>x. the ((air(v \<mapsto> m)) x)) (mset_set (dom air)) =
      image_mset (\<lambda>x. the (air x)) (mset_set (dom air))"
    using \<open>v \<notin> dom air\<close> by (intro image_mset_cong) (auto simp: finite_set_mset_mset_set)
  ultimately show ?thesis by (simp add: in_air_def)
qed

lemma in_air_remove: "air v = Some m \<Longrightarrow> add_mset m (in_air (air(v := None))) = in_air air"
  using in_air_insert [of "air(v := None)" v m] by (simp add: fun_upd_idem)

lemma accounted_emit [simp]: "accounted (emit es st) = accounted st + mset (released es)"
  by (simp add: accounted_def)

lemma accounted_submit:
  assumes inv: "pool_inv st" and sub: "submit ops m st = Inr st'"
  shows "accounted st' = add_mset m (accounted st)"
  using sub
proof (cases rule: submit_cases)
  case (sent v data)
  then have "m_messagesInAir st v = None" using inv by (auto simp: pool_inv_def)
  with sent show ?thesis by (simp add: accounted_def in_air_insert)
qed (simp_all add: accounted_def)

lemma accounted_handleResponse:
  assumes inv: "pool_inv st" and resp: "handleResponse ops aseq m st = Inr st'"
  shows "accounted st' = accounted st"
  using resp
proof (cases rule: handleResponse_cases)
  case (matched request v)
  then show ?thesis
    using in_air_remove [of "m_messagesInAir st" aseq request] by (simp add: accounted_def)
next
  case at_end
  then show ?thesis using inv by (auto simp: pool_inv_def split: if_splits)
qed (simp add: accounted_def)

lemma accounted_handleMessage:
  "pool_inv st \<Longrightarrow> handleMessage ops header data st = Inr st' \<Longrightarrow> accounted st' = accounted st"
  by (auto simp: handleMessage_def accounted_handleResponse split: option.splits if_splits)

lemma accounted_run:
  "pool_inv st \<Longrightarrow> ipc_run ops es st = Inr st' \<Longrightarrow> accounted st' = accounted st + mset (submitted es)"
proof (induction es arbitrary: st)
  case (Cons e es)
  from Cons.prems(2) obtain st1 where e: "ipc_step ops e st = Inr st1" and es: "ipc_run ops es st1 = Inr st'"
    by (auto simp: andThen_eq_Inr)
  note IH = Cons.IH [OF pool_inv_step [OF Cons.prems(1) e] es]
  show ?case
    using e IH Cons.prems(1)
    by (cases e) (auto simp: accounted_submit handleReassembledMessage_def accounted_handleMessage)
qed simp

section \<open>Progress\<close>

lemma header_length_fits:
  "length data < 65529 \<Longrightarrow> unat (h_length (make_header ops v m data)) = 7 + length data"
  by (simp add: make_header_def ipc_header_size_def unat_of_nat del: of_nat_add)

lemma make_header_simps [simp]:
  "h_mseq (make_header ops v m data) = v" "h_responseType (make_header ops v m data) = m_requestType ops m"
  by (simp_all add: make_header_def)

definition allocated :: "byte \<Rightarrow> 'm \<Rightarrow> 'm ipc_handler \<Rightarrow> 'm ipc_handler" where
  "allocated v m st =
     st\<lparr>m_freeSequenceNumbers := remove1 v (m_freeSequenceNumbers st),
        m_allocationIterator := (if advance_iterator v (m_freeSequenceNumbers st) = At v then Dangling
          else advance_iterator v (m_freeSequenceNumbers st)),
        m_messagesInAir := (m_messagesInAir st)(v \<mapsto> m)\<rparr>"

lemma submit_progress:
  assumes inv: "pool_inv st" and free: "m_freeSequenceNumbers st \<noteq> []"
    and data: "writeMessage ops m = Some data" "length data < 65529"
    and kind: "m_requestType ops m \<noteq> IPC_CMD_EVENT_code"
  obtains v where "v \<in> set (m_freeSequenceNumbers st)" "v \<notin> dom (m_messagesInAir st)"
    and "submit ops m st =
      Inr (emit [SendData (header_bytes (make_header ops v m data) @ data)] (allocated v m st))"
proof -
  obtain v where v: "v \<in> set (m_freeSequenceNumbers st)" "m_allocationIterator st = At v"
    using inv free by (auto simp: pool_inv_def)
  then have air: "v \<notin> dom (m_messagesInAir st)" using inv by (auto simp: pool_inv_def)
  have "submit ops m st =
      Inr (emit [SendData (header_bytes (make_header ops v m data) @ data)] (allocated v m st))"
    using v air free data kind
    by (auto simp: submit_def sendMessage_def header_length_fits ipc_header_size_def Let_def
        advance_iterator_def allocated_def emit_def dom_def)
  with v(1) air show thesis by (rule that)
qed

lemma allocated_simps [simp]:
  "m_freeSequenceNumbers (allocated v m st) = remove1 v (m_freeSequenceNumbers st)"
  "m_messagesInAir (allocated v m st) = (m_messagesInAir st)(v \<mapsto> m)"
  "m_messageQueue (allocated v m st) = m_messageQueue st"
  "m_effects (allocated v m st) = m_effects st"
  by (simp_all add: allocated_def)

lemma submit_until_empty:
  assumes data: "writeMessage ops m = Some data" "length data < 65529"
    and kind: "m_requestType ops m \<noteq> IPC_CMD_EVENT_code"
  shows "pool_inv st \<Longrightarrow> length (m_freeSequenceNumbers st) = n \<Longrightarrow>
    \<exists>st'. ipc_run ops (replicate n (Submit m)) st = Inr st' \<and> m_freeSequenceNumbers st' = []"
proof (induction n arbitrary: st)
  case (Suc n)
  then have "m_freeSequenceNumbers st \<noteq> []" by auto
  from submit_progress [OF Suc.prems(1) this data kind] obtain v where
    v: "v \<in> set (m_freeSequenceNumbers st)" and sub: "submit ops m st =
      Inr (emit [SendData (header_bytes (make_header ops v m data) @ data)] (allocated v m st))"
    by blast
  from Suc.IH [OF pool_inv_submit [OF Suc.prems(1) sub]] show ?case
    using Suc.prems(2) v sub by (simp add: length_remove1)
qed simp

text \<open>A response packet, decoded.\<close>

lemma response_decoded:
  assumes "create ops (h_mainCommand h) (h_subCommand h) = Some r0"
    and "readMessage ops r0 body = Some r"
    and "unat (h_length h) = 7 + length body" and "h_responseType h = IPC_CMD_RESP"
  shows "handleReassembledMessage ops (header_bytes h @ body) st = handleResponse ops (h_aseq h) r st"
  using assms
  by (simp add: handleReassembledMessage_def handleMessage_def ipc_header_size_def
      IPC_CMD_INDI_def IPC_CMD_NOTI_def IPC_CMD_RESP_def)

lemma handleResponse_exhausted:
  "pool_inv st \<Longrightarrow> m_freeSequenceNumbers st = [] \<Longrightarrow>
     handleResponse ops aseq r st =
       (if aseq \<in> dom (m_messagesInAir st) then Inl Undefined else Inr (emit [DeleteIncoming r] st))"
  by (auto simp: handleResponse_def pool_inv_def Let_def split: option.splits)

lemma exhausted_step:
  assumes "pool_inv st" "m_freeSequenceNumbers st = []" "ipc_step ops e st = Inr st'"
  shows "m_freeSequenceNumbers st' = [] \<and> m_messagesInAir st' = m_messagesInAir st \<and>
    m_messageQueue st' = m_messageQueue st @ submitted [e]"
  using assms
  by (cases e) (auto simp: submit_def handleReassembledMessage_def handleMessage_def
      handleResponse_exhausted split: option.splits if_splits)

lemma exhausted_run:
  "pool_inv st \<Longrightarrow> m_freeSequenceNumbers st = [] \<Longrightarrow> ipc_run ops es st = Inr st' \<Longrightarrow>
     m_freeSequenceNumbers st' = [] \<and> m_messagesInAir st' = m_messagesInAir st \<and>
     m_messageQueue st' = m_messageQueue st @ submitted es"
proof (induction es arbitrary: st)
  case (Cons e es)
  from Cons.prems(3) obtain st1 where e: "ipc_step ops e st = Inr st1" and es: "ipc_run ops es st1 = Inr st'"
    by (auto simp: andThen_eq_Inr)
  note step = exhausted_step [OF Cons.prems(1,2) e]
  from Cons.IH [OF pool_inv_step [OF Cons.prems(1) e] _ es] step show ?case
    by (cases e) auto
qed simp

section \<open>A concrete exchange\<close>

text \<open>\<open>GET_MIC_MUTE\<close>, its reply with the microphone muted, and the header of the reply.\<close>

definition mic_mute_request :: wire_message where
  "mic_mute_request =
     \<lparr>w_group = group_SND, w_class = message Out ''GET_MIC_MUTE'' 2 IPC_CMD_GET [], w_object = []\<rparr>"

definition mic_mute_reply :: wire_message where
  "mic_mute_reply =
     \<lparr>w_group = group_SND, w_class = message In ''GET_MIC_MUTE_REPLY'' 2 IPC_CMD_EXEC [U8 ''mute''],
      w_object = [(''mute'', VU8 1)]\<rparr>"

definition mic_mute_header :: "byte \<Rightarrow> ipc_header" where
  "mic_mute_header v =
     \<lparr>h_length = 8, h_mseq = 0, h_aseq = v, h_mainCommand = 9, h_subCommand = 2, h_responseType = 2\<rparr>"

lemma mic_mute_request_data:
  "writeMessage wire_ops mic_mute_request = Some []"
  "m_requestType wire_ops mic_mute_request \<noteq> IPC_CMD_EVENT_code"
  "make_header wire_ops v mic_mute_request [] =
     \<lparr>h_length = 7, h_mseq = v, h_aseq = 0, h_mainCommand = 9, h_subCommand = 2, h_responseType = 2\<rparr>"
  by (simp_all add: wire_ops_def mic_mute_request_def message_def marshal_def IPC_CMD_EVENT_code_def
      make_header_def ipc_header_size_def group_SND_def DataStream_appending)

lemma mic_mute_reply_data:
  "create wire_ops 9 2 = Some (mic_mute_reply\<lparr>w_object := []\<rparr>)"
  "readMessage wire_ops (mic_mute_reply\<lparr>w_object := []\<rparr>) [1] = Some mic_mute_reply"
proof -
  have "Factory_create protocol 9 2 =
      Some (group_SND, message In ''GET_MIC_MUTE_REPLY'' 2 IPC_CMD_EXEC [U8 ''mute''])"
    by (rule iffD2 [OF Factory_create_unambiguous [OF unambiguous_protocol]])
      (simp add: protocol_def group_SND_def)
  then show "create wire_ops 9 2 = Some (mic_mute_reply\<lparr>w_object := []\<rparr>)"
    by (simp add: wire_ops_def wire_create_def mic_mute_reply_def)
  have "unmarshal [U8 ''mute''] [1] = Some [(''mute'', VU8 1)]"
    by (simp add: unmarshal_iff marshal_def DataStream_appending write_u8_def)
  then show "readMessage wire_ops (mic_mute_reply\<lparr>w_object := []\<rparr>) [1] = Some mic_mute_reply"
    by (simp add: wire_ops_def mic_mute_reply_def message_def)
qed

lemma unknown_command: "create wire_ops 0xEE subcommand = None"
proof (cases "Factory_create protocol 0xEE subcommand")
  case (Some gc)
  then have "fst gc \<in> set protocol" "g_type (fst gc) = 0xEE"
    using Factory_create_unambiguous [OF unambiguous_protocol, of "0xEE" subcommand "fst gc" "snd gc"]
    by simp_all
  then show ?thesis by (auto simp: protocol_def group_defs)
qed (simp add: wire_ops_def wire_create_def)

lemma initial_handler:
  "length (m_freeSequenceNumbers IPCSocketHandler) = 255" "m_messageQueue IPCSocketHandler = []"
  "m_messagesInAir IPCSocketHandler = Map.empty" "m_effects IPCSocketHandler = []"
  by (simp_all add: IPCSocketHandler_def Let_def del: upt.simps)

lemma mic_mute_sent:
  obtains v st where "ipc_run wire_ops [Submit mic_mute_request] IPCSocketHandler = Inr st"
    "length (m_freeSequenceNumbers st) = 254" "m_messageQueue st = []"
    "m_messagesInAir st = [v \<mapsto> mic_mute_request]" "m_effects st = [SendData [7, 0, v, 0, 9, 2, 2]]"
proof -
  have "m_freeSequenceNumbers (IPCSocketHandler :: wire_message ipc_handler) \<noteq> []"
    using initial_handler(1) [where 'a = wire_message] by (metis list.size(3) zero_neq_numeral)
  from submit_progress [OF pool_inv_init this mic_mute_request_data(1) _ mic_mute_request_data(2)]
  obtain v where v: "v \<in> set (m_freeSequenceNumbers (IPCSocketHandler :: wire_message ipc_handler))"
    and sub: "submit wire_ops mic_mute_request IPCSocketHandler = Inr (emit
      [SendData (header_bytes (make_header wire_ops v mic_mute_request []))]
      (allocated v mic_mute_request IPCSocketHandler))" by auto
  show thesis
    by (rule that [of "emit [SendData (header_bytes (make_header wire_ops v mic_mute_request []))]
          (allocated v mic_mute_request IPCSocketHandler)" v])
      (use v in \<open>simp_all add: sub initial_handler length_remove1 mic_mute_request_data(3)
        header_bytes_def le16_def\<close>)
qed

section \<open>Properties\<close>

text \<open>
  C1. In every run of submissions and packets the 255 sequence numbers are partitioned: each is
  either free or carried by exactly one request in flight; the allocation iterator is at a free
  number, except that it is invalid once none is free; and the queue is used only then.
\<close>

theorem ipc_numbers_partitioned:
  assumes "ipc_run ops es IPCSocketHandler = Inr st"
  shows "distinct (m_freeSequenceNumbers st) \<and>
    set (m_freeSequenceNumbers st) \<inter> dom (m_messagesInAir st) = {} \<and>
    set (m_freeSequenceNumbers st) \<union> dom (m_messagesInAir st) = {v. v \<noteq> 255} \<and>
    (if m_freeSequenceNumbers st = [] then m_allocationIterator st = Dangling
     else m_messageQueue st = [] \<and>
       (\<exists>v \<in> set (m_freeSequenceNumbers st). m_allocationIterator st = At v))"
proof -
  have "pool_inv st" by (rule pool_inv_run [OF pool_inv_init assms])
  then show ?thesis unfolding pool_inv_def by (simp split: if_splits)
qed

theorem ipc_numbers_partitioned_witness:
  "\<exists>v st. ipc_run wire_ops [Submit mic_mute_request] IPCSocketHandler = Inr st \<and>
     m_messagesInAir st = [v \<mapsto> mic_mute_request] \<and>
     set (m_freeSequenceNumbers st) = {x. x \<noteq> 255 \<and> x \<noteq> v}"
proof -
  obtain v st where st: "ipc_run wire_ops [Submit mic_mute_request] IPCSocketHandler = Inr st"
    "m_messagesInAir st = [v \<mapsto> mic_mute_request]" by (rule mic_mute_sent)
  have "set (m_freeSequenceNumbers st) = {x. x \<noteq> 255 \<and> x \<noteq> v}"
    using ipc_numbers_partitioned [OF st(1)] st(2) by auto
  with st show ?thesis by blast
qed

text \<open>
  C2. No request is lost and none is deleted twice: after any run, the requests submitted are, as a
  multiset, those queued, those in flight and those deleted (after their completion, or after an
  event was sent).
\<close>

theorem ipc_requests_conserved:
  assumes "ipc_run ops es IPCSocketHandler = Inr st"
  shows "mset (submitted es) =
    mset (m_messageQueue st) + in_air (m_messagesInAir st) + mset (released (m_effects st))"
proof -
  have "accounted (IPCSocketHandler :: 'a ipc_handler) = {#}"
    by (simp add: accounted_def IPCSocketHandler_def Let_def in_air_def del: upt.simps)
  with accounted_run [OF pool_inv_init assms] show ?thesis by (simp add: accounted_def)
qed

theorem ipc_requests_conserved_witness:
  "\<exists>st. ipc_run wire_ops [Submit mic_mute_request] IPCSocketHandler = Inr st \<and>
     {#mic_mute_request#} = in_air (m_messagesInAir st)"
proof -
  obtain v st where st: "ipc_run wire_ops [Submit mic_mute_request] IPCSocketHandler = Inr st"
    "m_messageQueue st = []" "m_effects st = [SendData [7, 0, v, 0, 9, 2, 2]]" by (rule mic_mute_sent)
  from ipc_requests_conserved [OF st(1)] st show ?thesis by auto
qed

text \<open>
  C3. A request that can be marshalled goes out under a number no request in flight has, with its
  own bytes behind the header; and the response that names that number completes exactly this
  request, with the decoded message, and gives the number back, provided another number was free
  when it was sent.
\<close>

theorem ipc_exchange:
  assumes run: "ipc_run ops es IPCSocketHandler = Inr st"
    and free: "1 < length (m_freeSequenceNumbers st)"
    and data: "writeMessage ops m = Some data" "length data < 65529"
    and kind: "m_requestType ops m \<noteq> IPC_CMD_EVENT_code"
  shows "\<exists>v st1. v \<notin> dom (m_messagesInAir st) \<and> submit ops m st = Inr st1 \<and>
    m_effects st1 = m_effects st @ [SendData (header_bytes (make_header ops v m data) @ data)] \<and>
    (\<forall>h body r0 r. h_aseq h = v \<longrightarrow> h_responseType h = IPC_CMD_RESP \<longrightarrow>
       unat (h_length h) = 7 + length body \<longrightarrow>
       create ops (h_mainCommand h) (h_subCommand h) = Some r0 \<longrightarrow> readMessage ops r0 body = Some r \<longrightarrow>
       (\<exists>st2. handleReassembledMessage ops (header_bytes h @ body) st1 = Inr st2 \<and>
          m_effects st2 = m_effects st1 @ [Complete m (Some r), DeleteRequest m] \<and>
          v \<in> set (m_freeSequenceNumbers st2) \<and> m_messagesInAir st2 = m_messagesInAir st))"
proof -
  have inv: "pool_inv st" by (rule pool_inv_run [OF pool_inv_init run])
  from free have "m_freeSequenceNumbers st \<noteq> []" by auto
  from submit_progress [OF inv this data kind] obtain v where
    v: "v \<in> set (m_freeSequenceNumbers st)" "v \<notin> dom (m_messagesInAir st)" and sub: "submit ops m st =
      Inr (emit [SendData (header_bytes (make_header ops v m data) @ data)] (allocated v m st))"
    (is "_ = Inr ?st1") by blast
  have "remove1 v (m_freeSequenceNumbers st) \<noteq> []"
    using free v(1) length_remove1 [of v "m_freeSequenceNumbers st"] by (cases "remove1 v (m_freeSequenceNumbers st)") auto
  then obtain x where it: "m_allocationIterator ?st1 = At x"
    using pool_inv_submit [OF inv sub] unfolding pool_inv_def by auto
  have "(m_messagesInAir st)(v := None) = m_messagesInAir st" using v(2) by (simp add: fun_upd_idem domIff)
  then show ?thesis
    using v(2) sub it
    by (intro exI [of _ v] exI [of _ ?st1])
      (auto simp: response_decoded handleResponse_def Let_def set_insort_insert)
qed

theorem ipc_exchange_witness:
  "\<exists>v st st'. submit wire_ops mic_mute_request IPCSocketHandler = Inr st \<and>
     handleReassembledMessage wire_ops (header_bytes (mic_mute_header v) @ [1]) st = Inr st' \<and>
     m_effects st' = [SendData [7, 0, v, 0, 9, 2, 2], Complete mic_mute_request (Some mic_mute_reply),
       DeleteRequest mic_mute_request]"
proof -
  have "1 < length (m_freeSequenceNumbers (IPCSocketHandler :: wire_message ipc_handler))"
    by (simp add: initial_handler)
  from ipc_exchange [of wire_ops "[]", simplified, OF refl this [simplified] mic_mute_request_data(1) _ mic_mute_request_data(2)]
  obtain v st where sub: "submit wire_ops mic_mute_request IPCSocketHandler = Inr st"
    "m_effects st = [SendData (header_bytes (make_header wire_ops v mic_mute_request []))]"
    and resp: "\<And>h body r0 r. h_aseq h = v \<Longrightarrow> h_responseType h = IPC_CMD_RESP \<Longrightarrow>
       unat (h_length h) = 7 + length body \<Longrightarrow>
       create wire_ops (h_mainCommand h) (h_subCommand h) = Some r0 \<Longrightarrow> readMessage wire_ops r0 body = Some r \<Longrightarrow>
       \<exists>st2. handleReassembledMessage wire_ops (header_bytes h @ body) st = Inr st2 \<and>
          m_effects st2 = m_effects st @ [Complete mic_mute_request (Some r), DeleteRequest mic_mute_request]"
    by (auto simp: initial_handler) blast
  from resp [of "mic_mute_header v" "[1]" "mic_mute_reply\<lparr>w_object := []\<rparr>" mic_mute_reply] sub
  show ?thesis
    by (auto simp: mic_mute_header_def mic_mute_reply_data IPC_CMD_RESP_def mic_mute_request_data(3)
        header_bytes_def le16_def)
qed

text \<open>
  The pool never recovers from being empty.  Once 255 requests are in flight, later requests
  are only appended to the queue, the requests in flight stay, and a response to any of them makes
  \<open>handleMessage\<close> compare an iterator that \<open>submit\<close> invalidated by erasing its element after the
  wrap-around, so the queue is never served.  Any 255 requests in a row lead there.
\<close>

theorem ipc_exhaustion_permanent:
  assumes data: "writeMessage ops m = Some data" "length data < 65529"
    and kind: "m_requestType ops m \<noteq> IPC_CMD_EVENT_code"
  shows "\<exists>st. ipc_run ops (replicate 255 (Submit m)) IPCSocketHandler = Inr st \<and>
    dom (m_messagesInAir st) = {v. v \<noteq> 255} \<and>
    (\<forall>v r. v \<noteq> 255 \<longrightarrow> handleResponse ops v r st = Inl Undefined) \<and>
    (\<forall>es st'. ipc_run ops es st = Inr st' \<longrightarrow> m_messagesInAir st' = m_messagesInAir st \<and>
       m_messageQueue st' = m_messageQueue st @ submitted es)"
proof -
  have "length (m_freeSequenceNumbers (IPCSocketHandler :: 'a ipc_handler)) = 255"
    by (simp add: IPCSocketHandler_def Let_def del: upt.simps)
  from submit_until_empty [OF data kind pool_inv_init this] obtain st where
    run: "ipc_run ops (replicate 255 (Submit m)) IPCSocketHandler = Inr st"
    and free: "m_freeSequenceNumbers st = []" by blast
  have inv: "pool_inv st" by (rule pool_inv_run [OF pool_inv_init run])
  then have dom: "dom (m_messagesInAir st) = {v. v \<noteq> 255}" using free unfolding pool_inv_def by simp
  show ?thesis
  proof (intro exI conjI allI impI)
    show "handleResponse ops v r st = Inl Undefined" if "v \<noteq> 255" for v r
      using handleResponse_exhausted [OF inv free] dom that by simp
    show "m_messagesInAir st' = m_messagesInAir st" "m_messageQueue st' = m_messageQueue st @ submitted es"
      if "ipc_run ops es st = Inr st'" for es st'
      using exhausted_run [OF inv free that] by simp_all
  qed (fact run dom)+
qed

theorem ipc_exhaustion_permanent_witness:
  "\<exists>st. ipc_run wire_ops (replicate 255 (Submit mic_mute_request)) IPCSocketHandler = Inr st \<and>
     handleResponse wire_ops 0 mic_mute_reply st = Inl Undefined"
proof -
  from ipc_exhaustion_permanent [OF mic_mute_request_data(1) _ mic_mute_request_data(2)]
  obtain st where "ipc_run wire_ops (replicate 255 (Submit mic_mute_request)) IPCSocketHandler = Inr st"
    "\<forall>v r. v \<noteq> 255 \<longrightarrow> handleResponse wire_ops v r st = Inl Undefined" by auto
  then show ?thesis by (intro exI [of _ st] conjI) simp_all
qed

text \<open>
  C26. How \<open>recv\<close> cuts the byte stream of the IPC channel matters in one way only.  Let every packet
  announce at least its header.  As long as no packet is followed in the buffer by more bytes than it
  has itself, the handler is given exactly the packets of the stream, in order, and the incomplete
  rest waits in the buffer.  Otherwise it is given some of the first packets, and then the bytes are
  moved to the front of the buffer by a \<open>memcpy\<close> whose regions overlap, which is undefined.
\<close>

theorem ipc_segmentation:
  assumes "framed ipc_header_size messageSize (concat chunks)" and "[] \<notin> set chunks"
  shows "if moves_apart ipc_header_size messageSize chunks []
    then receive ipc_header_size messageSize (handleReassembledMessage ops) chunks (SocketHandler, st) =
      (let (packets, rest) = frames ipc_header_size messageSize (concat chunks)
       in Some (andThen (ipc_run ops (map Packet packets) st)
         (\<lambda>st'. Inr (\<lparr>m_reassemblyBuf = rest, m_reassemblyBufSize = length rest + IOBufSize\<rparr>, st'))))
    else \<exists>n. receive ipc_header_size messageSize (handleReassembledMessage ops) chunks (SocketHandler, st) =
      Some (andThen (ipc_run ops (map Packet (take n (fst (frames ipc_header_size messageSize (concat chunks))))) st)
        (\<lambda>st'. Inl Undefined))"
proof -
  have "deliver_frames (handleReassembledMessage ops) fs st = ipc_run ops (map Packet fs) st" for fs st
    by (induction fs arbitrary: st) (simp_all add: andThen_def split: sum.splits)
  with ipc.receive_from_start [OF assms, of ops st] show ?thesis by simp
qed

text \<open>
  Two packets of unknown type and a part of a third, in three reads; and the same with a longer
  second packet that arrives together with the first.
\<close>

lemma unknown_packet: "create wire_ops 0xEE subcommand = None \<Longrightarrow>
    handleReassembledMessage wire_ops [n, 0, 0, 0, 0xEE, subcommand, 2] st = Inr st"
  by (simp add: handleReassembledMessage_def handleMessage_def header_of_def ipc_header_size_def)

theorem ipc_segmentation_witness:
  "receive ipc_header_size messageSize (handleReassembledMessage wire_ops)
     [[7, 0, 0], [0, 0xEE, 0], [2, 9]] (SocketHandler, IPCSocketHandler) =
     Some (Inr (\<lparr>m_reassemblyBuf = [9], m_reassemblyBufSize = 4097\<rparr>, IPCSocketHandler)) \<and>
   receive ipc_header_size messageSize (handleReassembledMessage wire_ops)
     [[7, 0, 0, 0, 0xEE, 0, 2, 8, 0, 0, 0, 0xEE, 0, 2, 5]] (SocketHandler, IPCSocketHandler) = Some (Inl Undefined)"
proof
  have fr: "frames 7 messageSize [7, 0, 0, 0, 0xEE, 0, 2, 9] = ([[7, 0, 0, 0, 0xEE, 0, 2]], [9])"
    by (simp add: frames.simps [of _ _ "_ # _"] messageSize_def header_of_def)
  have "framed 7 messageSize [7, 0, 0, 0, 0xEE, 0, 2, 9]"
    by (simp add: framed.simps [of _ _ "_ # _"] messageSize_def header_of_def)
  moreover have "moves_apart 7 messageSize [[7, 0, 0], [0, 0xEE, 0], [2, 9]] []"
    by (simp add: frames.simps [of _ _ "_ # _"] apart.simps [of _ _ "_ # _"] messageSize_def header_of_def)
  ultimately show "receive ipc_header_size messageSize (handleReassembledMessage wire_ops)
     [[7, 0, 0], [0, 0xEE, 0], [2, 9]] (SocketHandler, IPCSocketHandler) =
     Some (Inr (\<lparr>m_reassemblyBuf = [9], m_reassemblyBufSize = 4097\<rparr>, IPCSocketHandler))"
    using ipc_segmentation [of "[[7, 0, 0], [0, 0xEE, 0], [2, 9]]" wire_ops IPCSocketHandler] fr
    by (simp add: ipc_header_size_def unknown_packet [OF unknown_command] IOBufSize_def)
next
  let ?b = "[7, 0, 0, 0, 0xEE, 0, 2, 8, 0, 0, 0, 0xEE, 0, 2, 5] :: byte list"
  have fr: "fst (frames 7 messageSize ?b) = [[7, 0, 0, 0, 0xEE, 0, 2], [8, 0, 0, 0, 0xEE, 0, 2, 5]]"
    by (simp add: frames.simps [of _ _ "_ # _"] messageSize_def header_of_def frames_stop)
  have "framed 7 messageSize ?b"
    by (simp add: framed.simps [of _ _ "_ # _"] messageSize_def header_of_def framed.simps [of _ _ "[]"])
  moreover have "\<not> moves_apart 7 messageSize [?b] []"
    by (simp add: apart.simps [of _ _ "_ # _"] messageSize_def header_of_def)
  ultimately obtain n where "receive 7 messageSize (handleReassembledMessage wire_ops) [?b] (SocketHandler, IPCSocketHandler) =
      Some (andThen (ipc_run wire_ops (map Packet (take n (fst (frames 7 messageSize ?b)))) IPCSocketHandler) (\<lambda>st'. Inl Undefined))"
    using ipc_segmentation [of "[?b]" wire_ops IPCSocketHandler] by (auto simp: ipc_header_size_def)
  moreover have "ipc_run wire_ops (map Packet (take n [[7, 0, 0, 0, 0xEE, 0, 2], [8, 0, 0, 0, 0xEE, 0, 2, 5]])) IPCSocketHandler =
      Inr (IPCSocketHandler :: wire_message ipc_handler)"
    by (cases n; cases "n - 1")
      (simp_all add: handleReassembledMessage_def handleMessage_def header_of_def ipc_header_size_def unknown_command)
  ultimately show "receive ipc_header_size messageSize (handleReassembledMessage wire_ops)
     [?b] (SocketHandler, IPCSocketHandler) = Some (Inl Undefined)"
    by (simp add: fr ipc_header_size_def)
qed

text \<open>
  A packet of unknown type that announces length zero makes \<open>readable\<close> copy the buffer onto itself,
  which is undefined; a \<open>memcpy\<close> that does nothing then leaves a loop without an end.
\<close>

theorem ipc_zero_length_undefined:
  assumes "h_length h = 0" and "create ops (h_mainCommand h) (h_subCommand h) = None"
  shows "readable ipc_header_size messageSize (handleReassembledMessage ops) (header_bytes h @ rest)
    (SocketHandler, st) = Some (Inl Undefined)"
proof -
  have "drain ipc_header_size messageSize (handleReassembledMessage ops) (header_bytes h @ rest) st = Some (Inl Undefined)"
    by (rule drain_zero)
      (simp_all add: ipc_header_size_def messageSize_def handleReassembledMessage_def handleMessage_def assms)
  then show ?thesis by (simp add: readable_def SocketHandler_def header_bytes_def)
qed

end
