(* ===== verification/Worker_Thread.thy ===== *)
theory Worker_Thread
  imports IPC_Socket_Handler RFS_Handler NV_Data
begin

text \<open>
  The thread that serves the modem's channels (libsamsung-ipc/IPCWorkerThread.cpp):
  the event loop over the handlers of the IPC and the RFS channel, the pipe through which other
  threads submit messages to it, and the modem object that owns it (the end of SamsungModem.cpp).
\<close>

section \<open>State\<close>

text \<open>A handler and its descriptor; \<open>SocketHandler\<close> is derived from in these two ways.\<close>

datatype ('m, 'f) socket_handler =
    IPC_handler int "reassembly \<times> 'm ipc_handler"
  | RFS_handler int "reassembly \<times> 'f rfs_state"

fun handler_fd :: "('m, 'f) socket_handler \<Rightarrow> int" where
  "handler_fd (IPC_handler fd s) = fd"
| "handler_fd (RFS_handler fd s) = fd"

definition wantRead :: "('m, 'f) socket_handler \<Rightarrow> bool" where "wantRead h = True"
definition wantWrite :: "('m, 'f) socket_handler \<Rightarrow> bool" where "wantWrite h = False"

text \<open>
  The pipe holds pointers to messages, the oldest first; \<open>None\<close> is a null pointer.  \<open>w_running\<close> is
  false once the loop was left.
\<close>

record ('m, 'f) worker =
  w_handlers :: "('m, 'f) socket_handler list"
  w_control :: int
  w_pipe :: "'m option list"
  w_running :: bool

definition IPCWorkerThread :: "int \<Rightarrow> ('m, 'f) worker" where
  "IPCWorkerThread control = \<lparr>w_handlers = [], w_control = control, w_pipe = [], w_running = True\<rparr>"

definition addHandler :: "('m, 'f) socket_handler \<Rightarrow> ('m, 'f) worker \<Rightarrow> ('m, 'f) worker" where
  "addHandler h w = w\<lparr>w_handlers := w_handlers w @ [h]\<rparr>"

text \<open>A handler is known by its descriptor.\<close>

definition removeHandler :: "('m, 'f) socket_handler \<Rightarrow> ('m, 'f) worker \<Rightarrow> ('m, 'f) worker" where
  "removeHandler h w = w\<lparr>w_handlers := filter (\<lambda>g. handler_fd g \<noteq> handler_fd h) (w_handlers w)\<rparr>"

text \<open>\<open>written\<close> is what \<open>write\<close> took: less than a pointer is a panic.\<close>

definition worker_submit :: "bool \<Rightarrow> 'm option \<Rightarrow> ('m, 'f) worker \<Rightarrow> ('m, 'f) worker outcome" where
  "worker_submit written m w = (if written then Inr (w\<lparr>w_pipe := w_pipe w @ [m]\<rparr>) else Inl Panic)"

section \<open>One turn of the loop\<close>

text \<open>
  What a turn meets: the contents of the two descriptor sets, which the code does not clear; the
  answer of \<open>select\<close> (an error, or the sets it leaves), the bytes that a descriptor delivers, and whether
  reading the control pipe fails.
\<close>

record turn =
  stale_read :: "int set"
  stale_write :: "int set"
  selected :: "int \<Rightarrow> int set \<Rightarrow> int set \<Rightarrow> (int set \<times> int set) option"
  delivered :: "int \<Rightarrow> byte list"
  control_fails :: bool

definition read_set :: "turn \<Rightarrow> ('m, 'f) worker \<Rightarrow> int set" where
  "read_set t w =
     insert (w_control w) (stale_read t \<union> handler_fd ` {h \<in> set (w_handlers w). wantRead h})"

definition write_set :: "turn \<Rightarrow> ('m, 'f) worker \<Rightarrow> int set" where
  "write_set t w = stale_write t \<union> handler_fd ` {h \<in> set (w_handlers w). wantWrite h}"

definition maxfd :: "('m, 'f) worker \<Rightarrow> int" where
  "maxfd w = fold (\<lambda>h m. max m (handler_fd h)) (w_handlers w) 0"

text \<open>The functions that a handler needs from elsewhere.\<close>

record ('m, 'f) channel_ops =
  c_messages :: "'m message_ops"
  c_localtime :: "int \<Rightarrow> tm"
  c_files :: "'f fs_ops"

fun handler_readable ::
    "('m, 'f) channel_ops \<Rightarrow> byte list \<Rightarrow> ('m, 'f) socket_handler \<Rightarrow>
     ('m, 'f) socket_handler outcome option"
where
  "handler_readable ops chunk (IPC_handler fd s) =
     map_option (\<lambda>r. andThen r (\<lambda>s. Inr (IPC_handler fd s)))
       (readable ipc_header_size messageSize (handleReassembledMessage (c_messages ops)) chunk s)"
| "handler_readable ops chunk (RFS_handler fd s) =
     map_option (\<lambda>r. andThen r (\<lambda>s. Inr (RFS_handler fd s)))
       (readable rfs_header_size rfs_messageSize
         (rfs_handleReassembledMessage (c_localtime ops) (c_files ops)) chunk s)"

text \<open>\<open>writable\<close> does nothing in both handlers.\<close>

fun serve_handlers ::
    "('m, 'f) channel_ops \<Rightarrow> int set \<Rightarrow> (int \<Rightarrow> byte list) \<Rightarrow> ('m, 'f) socket_handler list \<Rightarrow>
     ('m, 'f) socket_handler list outcome option"
where
  "serve_handlers ops ready chunks [] = Some (Inr [])"
| "serve_handlers ops ready chunks (h # hs) =
     (case (if handler_fd h \<in> ready then handler_readable ops (chunks (handler_fd h)) h
            else Some (Inr h)) of
        None \<Rightarrow> None
      | Some (Inl e) \<Rightarrow> Some (Inl e)
      | Some (Inr h) \<Rightarrow>
          map_option (\<lambda>r. andThen r (\<lambda>hs. Inr (h # hs))) (serve_handlers ops ready chunks hs))"

text \<open>
  A message from the pipe goes to the first handler, which the code takes for the one of the IPC
  channel.  Reading an empty pipe waits: \<open>None\<close>.
\<close>

fun serve_control :: "('m, 'f) channel_ops \<Rightarrow> ('m, 'f) worker \<Rightarrow> ('m, 'f) worker outcome option" where
  "serve_control ops w =
     (case w_pipe w of
        [] \<Rightarrow> None
      | None # rest \<Rightarrow> Some (Inr (w\<lparr>w_pipe := rest, w_running := False\<rparr>))
      | Some m # rest \<Rightarrow>
          Some (case w_handlers w of
             IPC_handler fd (r, s) # hs \<Rightarrow>
               andThen (submit (c_messages ops) m s) (\<lambda>s.
                 Inr (w\<lparr>w_pipe := rest, w_handlers := IPC_handler fd (r, s) # hs\<rparr>))
           | _ \<Rightarrow> Inl Undefined))"

definition dispatch_turn ::
    "('m, 'f) channel_ops \<Rightarrow> turn \<Rightarrow> ('m, 'f) worker \<Rightarrow> ('m, 'f) worker outcome option"
where
  "dispatch_turn ops t w =
     (case selected t (maxfd w + 1) (read_set t w) (write_set t w) of
        None \<Rightarrow> Some (Inl Panic)
      | Some (r, wr) \<Rightarrow>
          (case serve_handlers ops r (delivered t) (w_handlers w) of
             None \<Rightarrow> None
           | Some (Inl e) \<Rightarrow> Some (Inl e)
           | Some (Inr hs) \<Rightarrow>
               if w_control w \<in> r
               then if control_fails t then Some (Inl Panic) else serve_control ops (w\<lparr>w_handlers := hs\<rparr>)
               else Some (Inr (w\<lparr>w_handlers := hs\<rparr>))))"

section \<open>Runs\<close>

text \<open>Other threads submit between the turns; a thread that left the loop makes no more turns.\<close>

datatype 'm worker_event = Submitting "'m option" | Turn turn

fun dispatchEvents ::
    "('m, 'f) channel_ops \<Rightarrow> 'm worker_event list \<Rightarrow> ('m, 'f) worker \<Rightarrow> ('m, 'f) worker outcome option"
where
  "dispatchEvents ops [] w = Some (Inr w)"
| "dispatchEvents ops (Submitting m # es) w = dispatchEvents ops es (w\<lparr>w_pipe := w_pipe w @ [m]\<rparr>)"
| "dispatchEvents ops (Turn t # es) w =
     (if \<not> w_running w then dispatchEvents ops es w
      else case dispatch_turn ops t w of
        None \<Rightarrow> None
      | Some (Inl e) \<Rightarrow> Some (Inl e)
      | Some (Inr w) \<Rightarrow> dispatchEvents ops es w)"

section \<open>The modem object\<close>

text \<open>\<open>initialize\<close> creates the thread and then its handlers, on new sockets.\<close>

definition modem_initialize :: "int \<Rightarrow> int \<Rightarrow> int \<Rightarrow> 'f \<Rightarrow> ('m, 'f) worker" where
  "modem_initialize control ipc_fd rfs_fd f =
     addHandler (RFS_handler rfs_fd (SocketHandler, (f, [])))
       (addHandler (IPC_handler ipc_fd (SocketHandler, IPCSocketHandler)) (IPCWorkerThread control))"

definition modem_submit :: "bool \<Rightarrow> 'm \<Rightarrow> ('m, 'f) worker \<Rightarrow> ('m, 'f) worker outcome" where
  "modem_submit written m = worker_submit written (Some m)"

text \<open>
  What the thread does once the loop was left: it deletes the handlers.  Their destructor deletes
  \<open>m_buf\<close>, which nothing sets.  A thread that is in the loop after \<open>es\<close> has not returned.
\<close>

definition worker_run ::
    "('m, 'f) channel_ops \<Rightarrow> 'm worker_event list \<Rightarrow> ('m, 'f) worker \<Rightarrow> ('m, 'f) worker outcome option"
where
  "worker_run ops es w =
     (case dispatchEvents ops es w of
        None \<Rightarrow> None
      | Some (Inl e) \<Rightarrow> Some (Inl e)
      | Some (Inr w) \<Rightarrow>
          if w_running w then None
          else if w_handlers w = [] then Some (Inr w) else Some (Inl Undefined))"

text \<open>
  The destructor of the modem waits for the thread, without asking it to stop.  Before \<open>initialize\<close> the
  pointer it tests is uninitialised.
\<close>

definition modem_destroy ::
    "('m, 'f) channel_ops \<Rightarrow> 'm worker_event list \<Rightarrow> ('m, 'f) worker option \<Rightarrow> unit outcome option"
where
  "modem_destroy ops es worker =
     (case worker of
        None \<Rightarrow> Some (Inl Undefined)
      | Some w \<Rightarrow> map_option (\<lambda>r. andThen r (\<lambda>w. Inr ())) (worker_run ops es w))"

section \<open>A served IPC channel is a run of its handler\<close>

lemma ipc_run_append: "ipc_run ops (es @ fs) s = andThen (ipc_run ops es s) (ipc_run ops fs)"
  by (induction es arbitrary: s) (auto simp: andThen_def split: sum.splits)

lemma drain_ipc_run:
  assumes ret: "drain ipc_header_size messageSize (handleReassembledMessage ops) buf s = Some (Inr (buf', s'))"
  shows "\<exists>ps. ipc_run ops (map Packet ps) s = Inr s'"
proof -
  have "\<forall>b t. Inr (buf', s') = (Inr (b, t) :: _ outcome) \<longrightarrow>
      handleReassembledMessage ops = handleReassembledMessage ops \<longrightarrow>
      (\<exists>ps. ipc_run ops (map Packet ps) s = Inr t)"
  proof (rule drain.raw_induct [where P = "\<lambda>hs ms handle buf s r.
      \<forall>b t. r = Inr (b, t) \<longrightarrow> handle = handleReassembledMessage ops \<longrightarrow>
        (\<exists>ps. ipc_run ops (map Packet ps) s = Inr t)", OF _ ret])
    fix d hs ms handle buf s r
    assume IH: "\<And>hs ms handle buf s y. d hs ms handle buf s = Some y \<Longrightarrow>
        \<forall>b t. y = Inr (b, t) \<longrightarrow> handle = handleReassembledMessage ops \<longrightarrow>
          (\<exists>ps. ipc_run ops (map Packet ps) s = Inr t)"
      and eq: "(if hs \<le> length buf then
        (if length buf < ms buf then Some (Inr (buf, s))
         else (case handle buf s of Inl e \<Rightarrow> Some (Inl e)
               | Inr s' \<Rightarrow> if memcpy_overlaps (ms buf) (length buf - ms buf) then Some (Inl Undefined)
                          else d hs ms handle (drop (ms buf) buf) s'))
      else Some (Inr (buf, s))) = Some r"
    show "\<forall>b t. r = Inr (b, t) \<longrightarrow> handle = handleReassembledMessage ops \<longrightarrow>
        (\<exists>ps. ipc_run ops (map Packet ps) s = Inr t)"
    proof (intro allI impI)
      fix b t
      assume r: "r = Inr (b, t)" and h: "handle = handleReassembledMessage ops"
      show "\<exists>ps. ipc_run ops (map Packet ps) s = Inr t"
      proof (cases "hs \<le> length buf \<and> \<not> length buf < ms buf")
        case False
        with eq r have "t = s" by (auto split: if_splits)
        then show ?thesis by (intro exI [of _ "[]"]) simp
      next
        case True
        with eq r obtain s1 where s1: "handle buf s = Inr s1" "d hs ms handle (drop (ms buf) buf) s1 = Some r"
          by (auto split: sum.splits if_splits)
        from IH [OF s1(2)] r h obtain ps where "ipc_run ops (map Packet ps) s1 = Inr t" by blast
        with s1(1) h show ?thesis by (intro exI [of _ "buf # ps"]) simp
      qed
    qed
  qed
  then show ?thesis by simp
qed

text \<open>
  The two channels of the modem, after the IPC handler has gone through \<open>es\<close>.
\<close>

definition serving ::
    "('m, 'f) channel_ops \<Rightarrow> 'm ipc_event list \<Rightarrow> ('m, 'f) socket_handler list \<Rightarrow> bool"
where
  "serving ops es hs \<longleftrightarrow>
     (\<exists>ipc_fd rfs_fd r s t. hs = [IPC_handler ipc_fd (r, s), RFS_handler rfs_fd t] \<and>
        ipc_run (c_messages ops) es IPCSocketHandler = Inr s)"

lemma readable_ipc_run:
  assumes "ipc_run ops es IPCSocketHandler = Inr s"
    and "readable ipc_header_size messageSize (handleReassembledMessage ops) chunk (r, s) = Some (Inr (r', s'))"
  shows "\<exists>es'. submitted es' = submitted es \<and> ipc_run ops es' IPCSocketHandler = Inr s'"
proof -
  from assms(2) obtain x where
    x: "drain ipc_header_size messageSize (handleReassembledMessage ops) (m_reassemblyBuf r @ chunk) s = Some x"
      "(case x of Inl e \<Rightarrow> Inl e | Inr (buf, s) \<Rightarrow> Inr (regrow buf r, s)) = (Inr (r', s') :: _ outcome)"
    by (auto simp: readable_def bind_eq_Some_conv split: if_splits)
  then obtain buf where
    "drain ipc_header_size messageSize (handleReassembledMessage ops) (m_reassemblyBuf r @ chunk) s
      = Some (Inr (buf, s'))"
    by (cases x) auto
  from drain_ipc_run [OF this] obtain ps where "ipc_run ops (map Packet ps) s = Inr s'" by blast
  with assms(1) have "ipc_run ops (es @ map Packet ps) IPCSocketHandler = Inr s'"
    by (simp add: ipc_run_append)
  moreover have "submitted (es @ map Packet ps) = submitted es"
    by (simp add: submitted_def comp_def)
  ultimately show ?thesis by blast
qed

lemma serve_handlers_serving:
  assumes "serving ops es hs" "serve_handlers ops ready chunks hs = Some (Inr hs')"
  shows "\<exists>es'. submitted es' = submitted es \<and> serving ops es' hs'"
proof -
  from assms(1) obtain ipc_fd rfs_fd r s t where hs: "hs = [IPC_handler ipc_fd (r, s), RFS_handler rfs_fd t]"
    and run: "ipc_run (c_messages ops) es IPCSocketHandler = Inr s"
    by (auto simp: serving_def)
  obtain h1 h2 where h: "hs' = [h1, h2]"
    "(if ipc_fd \<in> ready then handler_readable ops (chunks ipc_fd) (IPC_handler ipc_fd (r, s))
      else Some (Inr (IPC_handler ipc_fd (r, s)))) = Some (Inr h1)"
    "(if rfs_fd \<in> ready then handler_readable ops (chunks rfs_fd) (RFS_handler rfs_fd t)
      else Some (Inr (RFS_handler rfs_fd t))) = Some (Inr h2)"
    using assms(2) hs
    by (auto simp: andThen_eq_Inr split: option.splits sum.splits if_splits)
  have h2: "\<exists>t'. h2 = RFS_handler rfs_fd t'"
    using h(3) by (cases t) (auto simp: andThen_eq_Inr split: if_splits)
  show ?thesis
  proof (cases "ipc_fd \<in> ready")
    case False
    with h h2 run show ?thesis by (cases t) (auto simp: serving_def intro!: exI [of _ es])
  next
    case True
    with h(2) obtain r' s' where h1: "h1 = IPC_handler ipc_fd (r', s')"
      "readable ipc_header_size messageSize (handleReassembledMessage (c_messages ops)) (chunks ipc_fd) (r, s)
        = Some (Inr (r', s'))"
      by (auto simp: andThen_eq_Inr)
    from readable_ipc_run [OF run h1(2)] h(1) h1(1) h2 show ?thesis
      by (auto simp: serving_def)
  qed
qed

lemma submitted_append: "submitted (es @ fs) = submitted es @ submitted fs"
  by (simp add: submitted_def)

lemma serve_control_serving:
  assumes "serving ops es (w_handlers w)" "serve_control ops w = Some (Inr w')"
  shows "(\<exists>rest. w_pipe w = None # rest \<and> w' = w\<lparr>w_pipe := rest, w_running := False\<rparr>) \<or>
    (\<exists>m rest es'. w_pipe w = Some m # rest \<and> w_pipe w' = rest \<and> w_running w' = w_running w \<and>
       submitted es' = submitted es @ [m] \<and> serving ops es' (w_handlers w'))"
proof -
  from assms(1) obtain ipc_fd rfs_fd r s t where hs: "w_handlers w = [IPC_handler ipc_fd (r, s), RFS_handler rfs_fd t]"
    and run: "ipc_run (c_messages ops) es IPCSocketHandler = Inr s"
    by (auto simp: serving_def)
  show ?thesis
  proof (cases "w_pipe w")
    case Nil
    with assms(2) show ?thesis by simp
  next
    case (Cons p rest)
    show ?thesis
    proof (cases p)
      case None
      with Cons assms(2) show ?thesis by auto
    next
      case (Some m)
      with Cons assms(2) hs obtain s' where s': "submit (c_messages ops) m s = Inr s'"
        "w' = w\<lparr>w_pipe := rest, w_handlers := [IPC_handler ipc_fd (r, s'), RFS_handler rfs_fd t]\<rparr>"
        by (auto simp: andThen_eq_Inr)
      have "ipc_run (c_messages ops) (es @ [Submit m]) IPCSocketHandler = Inr s'"
        using run s'(1) by (simp add: ipc_run_append)
      with s'(2) Cons Some show ?thesis
        by (intro disjI2 exI [of _ m] exI [of _ rest] exI [of _ "es @ [Submit m]"])
          (cases t, auto simp: serving_def submitted_append)
    qed
  qed
qed

section \<open>Order and conservation\<close>

text \<open>The messages written into the pipe.\<close>

definition written_messages :: "'m worker_event list \<Rightarrow> 'm option list" where
  "written_messages es = concat (map (\<lambda>e. case e of Submitting m \<Rightarrow> [m] | Turn t \<Rightarrow> []) es)"

lemma written_messages_simps [simp]:
  "written_messages [] = []" "written_messages (Submitting m # es) = m # written_messages es"
  "written_messages (Turn t # es) = written_messages es"
  by (simp_all add: written_messages_def)

text \<open>
  What has come out of the pipe, with what is still in it: the messages submitted in order, the
  request to stop if the loop was left, and the rest.
\<close>

definition in_order ::
    "('m, 'f) channel_ops \<Rightarrow> 'm option list \<Rightarrow> ('m, 'f) worker \<Rightarrow> bool"
where
  "in_order ops ms w \<longleftrightarrow>
     (\<exists>es. serving ops es (w_handlers w) \<and>
        ms = map Some (submitted es) @ (if w_running w then [] else [None]) @ w_pipe w)"

lemma dispatch_turn_in_order:
  assumes "in_order ops ms w" "w_running w" "dispatch_turn ops t w = Some (Inr w')"
  shows "in_order ops ms w'"
proof -
  from assms(1,2) obtain es where es: "serving ops es (w_handlers w)"
    "ms = map Some (submitted es) @ w_pipe w"
    by (auto simp: in_order_def)
  from assms(3) obtain r wr hs where sel: "selected t (maxfd w + 1) (read_set t w) (write_set t w) = Some (r, wr)"
    and hs: "serve_handlers ops r (delivered t) (w_handlers w) = Some (Inr hs)"
    and c: "(if w_control w \<in> r
       then if control_fails t then Some (Inl Panic) else serve_control ops (w\<lparr>w_handlers := hs\<rparr>)
       else Some (Inr (w\<lparr>w_handlers := hs\<rparr>))) = Some (Inr w')"
    by (auto simp: dispatch_turn_def split: option.splits sum.splits simp del: serve_control.simps)
  from serve_handlers_serving [OF es(1) hs] obtain es1 where
    es1: "submitted es1 = submitted es" "serving ops es1 hs" by blast
  show ?thesis
  proof (cases "w_control w \<in> r")
    case False
    with c es1 es(2) assms(2) show ?thesis by (auto simp: in_order_def)
  next
    case True
    with c have "serve_control ops (w\<lparr>w_handlers := hs\<rparr>) = Some (Inr w')"
      by (simp split: if_splits del: serve_control.simps)
    from serve_control_serving [OF _ this, of es1] es1 es(2) assms(2) show ?thesis
      by (fastforce simp: in_order_def)
  qed
qed

lemma dispatchEvents_in_order:
  assumes "in_order ops ms w" "dispatchEvents ops evs w = Some (Inr w')"
  shows "in_order ops (ms @ written_messages evs) w'"
  using assms
proof (induction evs arbitrary: w ms)
  case (Cons e evs)
  show ?case
  proof (cases e)
    case (Submitting m)
    with Cons.prems(1) have "in_order ops (ms @ [m]) (w\<lparr>w_pipe := w_pipe w @ [m]\<rparr>)"
      by (auto simp: in_order_def)
    from Cons.IH [OF this] Cons.prems(2) Submitting show ?thesis by simp
  next
    case (Turn t)
    show ?thesis
    proof (cases "w_running w")
      case False
      with Cons Turn show ?thesis by simp
    next
      case True
      with Cons.prems(2) Turn obtain w1 where "dispatch_turn ops t w = Some (Inr w1)"
        "dispatchEvents ops evs w1 = Some (Inr w')"
        by (auto split: option.splits sum.splits)
      with Cons.IH [OF dispatch_turn_in_order [OF Cons.prems(1) True]] Turn show ?thesis by simp
    qed
  qed
qed simp

lemma in_order_initially: "in_order ops [] (modem_initialize control ipc_fd rfs_fd f)"
  by (auto simp: in_order_def modem_initialize_def addHandler_def IPCWorkerThread_def serving_def
      intro!: exI [of _ "[]"])

section \<open>A request through the pipe\<close>

definition quiet_channels :: "(wire_message, file_system) channel_ops" where
  "quiet_channels =
     \<lparr>c_messages = wire_ops, c_localtime = (\<lambda>t. \<lparr>tm_year = 70, tm_mon = 0, tm_mday = 1, tm_hour = 0, tm_min = 0, tm_sec = 0\<rparr>),
      c_files = android_ops calm_kernel (\<lambda>d. d)\<rparr>"

text \<open>Only the pipe, descriptor 3, is ready.\<close>

definition pipe_turn :: turn where
  "pipe_turn = \<lparr>stale_read = {}, stale_write = {}, selected = (\<lambda>n r w. Some ({3}, {})), delivered = (\<lambda>fd. []),
     control_fails = False\<rparr>"

abbreviation mute_events :: "wire_message worker_event list" where
  "mute_events \<equiv> [Submitting (Some mic_mute_request), Turn pipe_turn]"

abbreviation new_modem :: "(wire_message, file_system) worker" where
  "new_modem \<equiv> modem_initialize 3 5 6 calm_state"

lemma mute_request_served:
  obtains s where "dispatchEvents quiet_channels mute_events new_modem = Some (Inr
    (new_modem\<lparr>w_handlers := [IPC_handler 5 (SocketHandler, s), RFS_handler 6 (SocketHandler, (calm_state, []))]\<rparr>))"
    "m_effects s = [SendData [7, 0, the_elem (dom (m_messagesInAir s)), 0, 9, 2, 2]]"
proof -
  obtain v s where s: "ipc_run wire_ops [Submit mic_mute_request] IPCSocketHandler = Inr s"
    "m_messagesInAir s = [v \<mapsto> mic_mute_request]" "m_effects s = [SendData [7, 0, v, 0, 9, 2, 2]]"
    by (rule mic_mute_sent)
  then have "submit wire_ops mic_mute_request IPCSocketHandler = Inr s" by (simp add: andThen_eq_Inr)
  with s(2,3) show thesis
    by (intro that [of s])
      (simp_all add: modem_initialize_def addHandler_def IPCWorkerThread_def dispatch_turn_def
        pipe_turn_def quiet_channels_def)
qed

section \<open>Properties\<close>

text \<open>C27. Whatever \<open>select\<close> answers and the channels deliver, the messages that threads write into the pipe
  reach the IPC handler in the order in which they were written, each once, as long as the loop
  runs: the handler has gone through a run of its own whose submissions, followed by what is still
  in the pipe, are the messages written.\<close>

theorem worker_submits_in_order:
  assumes "dispatchEvents ops evs (modem_initialize control ipc_fd rfs_fd f) = Some (Inr w)"
  shows "\<exists>es. serving ops es (w_handlers w) \<and>
    written_messages evs = map Some (submitted es) @ (if w_running w then [] else [None]) @ w_pipe w"
  using dispatchEvents_in_order [OF in_order_initially assms] by (simp add: in_order_def)

text \<open>C4. From the pipe to the modem no request is lost and none is deleted twice: the messages written are,
  as a multiset, those still in the pipe and those queued, in flight and deleted in the IPC
  handler.\<close>

theorem worker_conserves_requests:
  assumes "dispatchEvents ops evs (modem_initialize control ipc_fd rfs_fd f) = Some (Inr w)"
    and "None \<notin> set (written_messages evs)"
  shows "\<exists>fd r s hs. w_handlers w = IPC_handler fd (r, s) # hs \<and>
    mset (written_messages evs) = mset (w_pipe w) + image_mset Some
      (mset (m_messageQueue s) + in_air (m_messagesInAir s) + mset (released (m_effects s)))"
proof -
  from dispatchEvents_in_order [OF in_order_initially assms(1)] obtain es where
    es: "serving ops es (w_handlers w)"
      "written_messages evs = map Some (submitted es) @ (if w_running w then [] else [None]) @ w_pipe w"
    by (auto simp: in_order_def)
  then obtain ipc_fd rfs_fd r s t where
    hs: "w_handlers w = [IPC_handler ipc_fd (r, s), RFS_handler rfs_fd t]"
    and run: "ipc_run (c_messages ops) es IPCSocketHandler = Inr s"
    by (auto simp: serving_def)
  have "accounted s = mset (submitted es)"
  proof -
    have "accounted (IPCSocketHandler :: 'a ipc_handler) = {#}"
      by (simp add: accounted_def IPCSocketHandler_def Let_def in_air_def del: upt.simps)
    with accounted_run [OF pool_inv_init run] show ?thesis by simp
  qed
  moreover have "written_messages evs = map Some (submitted es) @ w_pipe w"
    using es(2) assms(2) by (auto split: if_splits)
  ultimately have "mset (written_messages evs) = mset (w_pipe w) + image_mset Some (accounted s)"
    by simp
  then show ?thesis
    unfolding accounted_def using hs by blast
qed

text \<open>Destroying a modem that was initialised never returns: the destructor waits for the thread without
  asking it to stop, and nothing else in the code submits the null pointer that ends the loop.  Unless
  the loop aborts, the wait does not end.\<close>

theorem modem_destroy_waits_forever:
  assumes "None \<notin> set (written_messages evs)"
  shows "modem_destroy ops evs (Some (modem_initialize control ipc_fd rfs_fd f)) =
    (case dispatchEvents ops evs (modem_initialize control ipc_fd rfs_fd f) of
       Some (Inl e) \<Rightarrow> Some (Inl e) | _ \<Rightarrow> None)"
proof -
  have "w_running w" if "dispatchEvents ops evs (modem_initialize control ipc_fd rfs_fd f) = Some (Inr w)" for w
    using dispatchEvents_in_order [OF in_order_initially that] assms
    by (auto simp: in_order_def split: if_splits)
  then show ?thesis
    by (auto simp: modem_destroy_def worker_run_def split: option.splits sum.splits)
qed

lemma worker_submits_in_order_witness:
  "\<exists>w es. dispatchEvents quiet_channels mute_events new_modem = Some (Inr w)
    \<and> serving quiet_channels es (w_handlers w) \<and> submitted es = [mic_mute_request] \<and> w_pipe w = []"
proof -
  obtain s where s: "dispatchEvents quiet_channels mute_events new_modem = Some (Inr
    (new_modem\<lparr>w_handlers := [IPC_handler 5 (SocketHandler, s), RFS_handler 6 (SocketHandler, (calm_state, []))]\<rparr>))"
    (is "_ = Some (Inr ?w)")
    by (rule mute_request_served)
  have "w_pipe ?w = []" "w_running ?w"
    by (simp_all add: modem_initialize_def addHandler_def IPCWorkerThread_def)
  with worker_submits_in_order [OF s] s show ?thesis by auto
qed

lemma worker_conserves_requests_witness:
  "\<exists>w s r hs. dispatchEvents quiet_channels mute_events new_modem = Some (Inr w)
    \<and> w_handlers w = IPC_handler 5 (r, s) # hs
    \<and> {#mic_mute_request#} = mset (m_messageQueue s) + in_air (m_messagesInAir s) + mset (released (m_effects s))"
proof -
  obtain s where s: "dispatchEvents quiet_channels mute_events new_modem = Some (Inr
    (new_modem\<lparr>w_handlers := [IPC_handler 5 (SocketHandler, s), RFS_handler 6 (SocketHandler, (calm_state, []))]\<rparr>))"
    (is "_ = Some (Inr ?w)")
    by (rule mute_request_served)
  have "w_pipe ?w = []"
    by (simp_all add: modem_initialize_def addHandler_def IPCWorkerThread_def)
  with worker_conserves_requests [OF s]
  have "image_mset Some {#mic_mute_request#} = image_mset Some
      (mset (m_messageQueue s) + in_air (m_messagesInAir s) + mset (released (m_effects s)))"
    by simp
  then have "{#mic_mute_request#} = mset (m_messageQueue s) + in_air (m_messagesInAir s) + mset (released (m_effects s))"
    by (auto dest!: arg_cong [of _ _ "image_mset the"] simp: multiset.map_comp comp_def
        simp del: image_mset_union)
  with s show ?thesis by auto
qed

lemma modem_destroy_waits_forever_witness:
  "modem_destroy quiet_channels mute_events (Some new_modem) = None
    \<and> (\<exists>w. dispatchEvents quiet_channels mute_events new_modem = Some (Inr w))"
proof -
  obtain s where s: "dispatchEvents quiet_channels mute_events new_modem = Some (Inr
    (new_modem\<lparr>w_handlers := [IPC_handler 5 (SocketHandler, s), RFS_handler 6 (SocketHandler, (calm_state, []))]\<rparr>))"
    by (rule mute_request_served)
  with modem_destroy_waits_forever [of mute_events quiet_channels 3 5 6 calm_state] show ?thesis by simp
qed

end
