(* ===== verification/MessageCache.thy ===== *)
theory MessageCache
  imports Message
begin

text \<open>
  The message cache (ril/MessageCache.cpp) with its ownership of the messages: a hash map from
  keys to pointers, over a heap of allocated messages.  Deleting a message that is not allocated
  is undefined.  The handlers use the cache as a map from keys to messages; the refinement at the
  end justifies that, and shows that the cache neither leaks nor frees twice.
\<close>

section \<open>The cache over a heap\<close>

text \<open>
  The entries of the hash map stand in the order in which the map is traversed; which order that
  is does not matter below.
\<close>

type_synonym addr = nat

record 'm message_cache =
  heap :: "addr \<Rightarrow> 'm option"
  m_messages :: "(string \<times> addr) list"

definition MessageCache_new :: "'m message_cache" where
  "MessageCache_new = \<lparr>heap = Map.empty, m_messages = []\<rparr>"

definition delete_message :: "addr \<Rightarrow> 'm message_cache \<Rightarrow> 'm message_cache outcome" where
  "delete_message a c =
     (if heap c a = None then Inl Undefined else Inr (c\<lparr>heap := (heap c)(a := None)\<rparr>))"

definition MessageCache_invalidate :: "string \<Rightarrow> 'm message_cache \<Rightarrow> 'm message_cache outcome" where
  "MessageCache_invalidate key c =
     (case map_of (m_messages c) key of
        None \<Rightarrow> Inr c
      | Some a \<Rightarrow> andThen (delete_message a c) (\<lambda>c.
          Inr (c\<lparr>m_messages := filter (\<lambda>(k, a). k \<noteq> key) (m_messages c)\<rparr>)))"

text \<open>\<open>insert\<close> on the hash map does not replace an entry.\<close>

definition MessageCache_put :: "string \<Rightarrow> addr \<Rightarrow> 'm message_cache \<Rightarrow> 'm message_cache outcome" where
  "MessageCache_put key a c =
     andThen (MessageCache_invalidate key c) (\<lambda>c.
       Inr (if map_of (m_messages c) key = None then c\<lparr>m_messages := (key, a) # m_messages c\<rparr> else c))"

fun delete_entries :: "(string \<times> addr) list \<Rightarrow> 'm message_cache \<Rightarrow> 'm message_cache outcome" where
  "delete_entries [] c = Inr c"
| "delete_entries ((key, a) # entries) c = andThen (delete_message a c) (delete_entries entries)"

definition MessageCache_flush :: "'m message_cache \<Rightarrow> 'm message_cache outcome" where
  "MessageCache_flush c =
     andThen (delete_entries (m_messages c) c) (\<lambda>c. Inr (c\<lparr>m_messages := []\<rparr>))"

definition MessageCache_get :: "string \<Rightarrow> 'm message_cache \<Rightarrow> addr option" where
  "MessageCache_get key c = map_of (m_messages c) key"

section \<open>The interface of a cache\<close>

text \<open>
  What the handlers rely on: the cache behaves like a map, as long as what is put into it was
  allocated for it; it owns exactly the messages it holds.
\<close>

locale owning_cache =
  fixes inv :: "'c \<Rightarrow> bool" and abs :: "'c \<Rightarrow> string \<Rightarrow> 'm option"
    and new :: 'c
    and put_new :: "string \<Rightarrow> 'm \<Rightarrow> 'c \<Rightarrow> 'c outcome"
    and invalidate :: "string \<Rightarrow> 'c \<Rightarrow> 'c outcome"
    and flush :: "'c \<Rightarrow> 'c outcome"
  assumes new: "inv new" "abs new = Map.empty"
    and put_new: "inv c \<Longrightarrow> \<exists>c'. put_new key m c = Inr c' \<and> inv c' \<and> abs c' = (abs c)(key \<mapsto> m)"
    and invalidate: "inv c \<Longrightarrow> \<exists>c'. invalidate key c = Inr c' \<and> inv c' \<and> abs c' = (abs c)(key := None)"
    and flush: "inv c \<Longrightarrow> \<exists>c'. flush c = Inr c' \<and> inv c' \<and> abs c' = Map.empty"

datatype 'm cache_request = Put string 'm | Invalidate string | Flush

text \<open>The abstract cache: a map.\<close>

fun spec_step :: "'m cache_request \<Rightarrow> (string \<Rightarrow> 'm option) \<Rightarrow> string \<Rightarrow> 'm option" where
  "spec_step (Put key m) f = f(key \<mapsto> m)"
| "spec_step (Invalidate key) f = f(key := None)"
| "spec_step Flush f = Map.empty"

context owning_cache
begin

fun step :: "'m cache_request \<Rightarrow> 'c \<Rightarrow> 'c outcome" where
  "step (Put key m) c = put_new key m c"
| "step (Invalidate key) c = invalidate key c"
| "step Flush c = flush c"

fun run :: "'m cache_request list \<Rightarrow> 'c \<Rightarrow> 'c outcome" where
  "run [] c = Inr c"
| "run (r # rs) c = andThen (step r c) (run rs)"

lemma step_refines:
  "inv c \<Longrightarrow> \<exists>c'. step r c = Inr c' \<and> inv c' \<and> abs c' = spec_step r (abs c)"
  using put_new invalidate flush by (cases r) auto

lemma run_refines:
  "inv c \<Longrightarrow> \<exists>c'. run rs c = Inr c' \<and> inv c' \<and> abs c' = fold spec_step rs (abs c)"
proof (induction rs arbitrary: c)
  case (Cons r rs)
  obtain c1 where "step r c = Inr c1" "inv c1" "abs c1 = spec_step r (abs c)"
    using step_refines [OF Cons.prems] by blast
  with Cons.IH [of c1] show ?case by auto
qed simp

end

section \<open>The implementation\<close>

text \<open>Every message on the heap is in the cache, under one key, and every entry is on the heap.\<close>

definition cache_ok :: "'m message_cache \<Rightarrow> bool" where
  "cache_ok c \<longleftrightarrow> distinct (map fst (m_messages c)) \<and> distinct (map snd (m_messages c)) \<and>
     dom (heap c) = set (map snd (m_messages c))"

definition cache_map :: "'m message_cache \<Rightarrow> string \<Rightarrow> 'm option" where
  "cache_map c key = Option.bind (MessageCache_get key c) (heap c)"

text \<open>The callers put messages that were just allocated: at an address that is not in use.\<close>

definition put_allocated :: "string \<Rightarrow> 'm \<Rightarrow> 'm message_cache \<Rightarrow> 'm message_cache outcome" where
  "put_allocated key m c =
     (let a = Suc (fold max (map snd (m_messages c)) 0)
      in MessageCache_put key a (c\<lparr>heap := (heap c)(a \<mapsto> m)\<rparr>))"

lemma fresh_address: "Suc (fold max as (0 :: nat)) \<notin> set as"
proof
  assume "Suc (fold max as 0) \<in> set as"
  then have "Suc (fold max as 0) \<le> Max (set (0 # as))" by (intro Max_ge) auto
  then show False by (simp only: Max.set_eq_fold)
qed

lemma map_of_filter_key: "map_of (filter (\<lambda>(k, a). k \<noteq> key) xs) = (map_of xs)(key := None)"
  by (rule ext, induction xs) auto

lemma filter_entry:
  assumes "distinct (map fst xs)" and "distinct (map snd xs)" and "map_of xs key = Some a"
  shows "snd ` set (filter (\<lambda>(k, b). k \<noteq> key) xs) = snd ` set xs - {a}"
proof -
  have m: "(key, a) \<in> set xs" using assms(3) by (rule map_of_SomeD)
  have "k = key \<longleftrightarrow> b = a" if "(k, b) \<in> set xs" for k b
  proof
    show "k = key \<Longrightarrow> b = a" using that m eq_key_imp_eq_value [OF assms(1)] by metis
    show "b = a \<Longrightarrow> k = key" using that m assms(2) by (metis distinct_map inj_onD prod.inject snd_conv)
  qed
  then show ?thesis by force
qed

lemma invalidate_ok:
  assumes "cache_ok c"
  obtains c' where "MessageCache_invalidate key c = Inr c'" and "cache_ok c'"
    and "map_of (m_messages c') = (map_of (m_messages c))(key := None)"
    and "cache_map c' = (cache_map c)(key := None)"
    and "set (m_messages c') \<subseteq> set (m_messages c)"
proof (cases "map_of (m_messages c) key")
  case None
  then have "cache_map c = (cache_map c)(key := None)"
    by (auto simp: cache_map_def MessageCache_get_def)
  with None show ?thesis
    using assms by (intro that [of c]) (auto simp: MessageCache_invalidate_def)
next
  case (Some a)
  let ?c = "c\<lparr>heap := (heap c)(a := None),
      m_messages := filter (\<lambda>(k, a). k \<noteq> key) (m_messages c)\<rparr>"
  have ok: "distinct (map fst (m_messages c))" "distinct (map snd (m_messages c))"
    "dom (heap c) = snd ` set (m_messages c)"
    using assms by (simp_all add: cache_ok_def)
  have "a \<in> dom (heap c)"
    using map_of_SomeD [OF Some] ok(3) by force
  then have "MessageCache_invalidate key c = Inr ?c"
    by (auto simp: MessageCache_invalidate_def Some delete_message_def)
  moreover have "cache_ok ?c"
    using ok filter_entry [OF ok(1,2) Some] by (auto simp: cache_ok_def distinct_map_filter)
  moreover have other: "map_of (m_messages c) k \<noteq> Some a" if "k \<noteq> key" for k
    using that ok(2) map_of_SomeD [OF Some] map_of_SomeD [of "m_messages c" k a]
    by (metis distinct_map inj_onD prod.inject snd_conv)
  then have "cache_map ?c = (cache_map c)(key := None)"
    by (auto simp: cache_map_def MessageCache_get_def map_of_filter_key fun_eq_iff
        split: Option.bind_split)
  ultimately show ?thesis
    by (intro that [of ?c]) (auto simp: map_of_filter_key)
qed

lemma delete_entries_ok:
  assumes "distinct (map snd es)" and "snd ` set es \<subseteq> dom (heap c)"
  shows "delete_entries es c = Inr (c\<lparr>heap := (heap c) |` (- snd ` set es)\<rparr>)"
  using assms
proof (induction es arbitrary: c)
  case (Cons e es)
  obtain key a where e: "e = (key, a)" by fastforce
  define h where "h = (heap c)(a := None)"
  have del: "delete_message a c = Inr (c\<lparr>heap := h\<rparr>)"
    using Cons.prems(2) by (auto simp: e delete_message_def h_def)
  have sub: "snd ` set es \<subseteq> dom (heap (c\<lparr>heap := h\<rparr>))" and dist: "distinct (map snd es)"
    using Cons.prems by (auto simp: e h_def)
  have rest: "delete_entries es (c\<lparr>heap := h\<rparr>) = Inr (c\<lparr>heap := h |` (- snd ` set es)\<rparr>)"
    using Cons.IH [OF dist sub] by simp
  have "h |` (- snd ` set es) = heap c |` (- snd ` set (e # es))"
    by (auto simp: restrict_map_def fun_eq_iff e h_def)
  then show ?case
    by (simp only: e delete_entries.simps del andThen_simps rest)
qed (simp add: restrict_map_def)

lemma flush_ok:
  assumes "cache_ok c"
  shows "MessageCache_flush c = Inr MessageCache_new"
proof -
  have "delete_entries (m_messages c) c = Inr (c\<lparr>heap := (heap c) |` (- snd ` set (m_messages c))\<rparr>)"
    using assms by (intro delete_entries_ok) (simp_all add: cache_ok_def)
  moreover have "(heap c) |` (- snd ` set (m_messages c)) = Map.empty"
    using assms by (auto simp: cache_ok_def restrict_map_def fun_eq_iff)
  ultimately show ?thesis
    by (simp add: MessageCache_flush_def MessageCache_new_def)
qed

lemma invalidate_beside:
  assumes "MessageCache_invalidate key c = Inr c1" and "a \<notin> snd ` set (m_messages c)"
  shows "MessageCache_invalidate key (c\<lparr>heap := (heap c)(a \<mapsto> m)\<rparr>) = Inr (c1\<lparr>heap := (heap c1)(a \<mapsto> m)\<rparr>)"
proof (cases "map_of (m_messages c) key")
  case None
  with assms(1) show ?thesis by (auto simp: MessageCache_invalidate_def)
next
  case (Some b)
  then have "b \<noteq> a"
    using assms(2) map_of_SomeD [OF Some] by force
  with assms(1) Some show ?thesis
    by (auto simp: MessageCache_invalidate_def delete_message_def fun_upd_twist split: if_splits)
qed

lemma put_ok:
  assumes "cache_ok c"
  obtains c' where "put_allocated key m c = Inr c'" and "cache_ok c'"
    and "cache_map c' = (cache_map c)(key \<mapsto> m)"
proof -
  define a where "a = Suc (fold max (map snd (m_messages c)) 0)"
  have a: "a \<notin> snd ` set (m_messages c)"
    using fresh_address [of "map snd (m_messages c)"] by (simp add: a_def)
  obtain c1 where c1: "MessageCache_invalidate key c = Inr c1" "cache_ok c1"
    "map_of (m_messages c1) = (map_of (m_messages c))(key := None)"
    "cache_map c1 = (cache_map c)(key := None)" "set (m_messages c1) \<subseteq> set (m_messages c)"
    using invalidate_ok [OF assms] by blast
  have "MessageCache_invalidate key (c\<lparr>heap := (heap c)(a \<mapsto> m)\<rparr>) = Inr (c1\<lparr>heap := (heap c1)(a \<mapsto> m)\<rparr>)"
    by (rule invalidate_beside [OF c1(1) a])
  moreover have none: "map_of (m_messages c1) key = None"
    by (simp add: c1(3))
  ultimately have put: "put_allocated key m c =
      Inr (c1\<lparr>heap := (heap c1)(a \<mapsto> m), m_messages := (key, a) # m_messages c1\<rparr>)"
    by (simp add: put_allocated_def MessageCache_put_def a_def Let_def)
  have a1: "a \<notin> snd ` set (m_messages c1)"
    using a c1(5) by blast
  have "cache_map (c1\<lparr>heap := (heap c1)(a \<mapsto> m), m_messages := (key, a) # m_messages c1\<rparr>) =
      (cache_map c1)(key \<mapsto> m)"
    using a1 by (auto simp: cache_map_def MessageCache_get_def fun_eq_iff image_iff
        split: Option.bind_split dest!: map_of_SomeD)
  then have "cache_map (c1\<lparr>heap := (heap c1)(a \<mapsto> m), m_messages := (key, a) # m_messages c1\<rparr>) =
      (cache_map c)(key \<mapsto> m)"
    by (simp add: c1(4))
  with put show ?thesis
    using c1(2) a1 none by (intro that) (auto simp: cache_ok_def map_of_eq_None_iff)
qed

interpretation ril_cache: owning_cache cache_ok cache_map MessageCache_new put_allocated
  MessageCache_invalidate MessageCache_flush
proof
  show "cache_ok MessageCache_new" and "cache_map (MessageCache_new :: 'a message_cache) = Map.empty"
    by (simp_all add: cache_ok_def MessageCache_new_def cache_map_def MessageCache_get_def fun_eq_iff)
  show "\<exists>c'. put_allocated key m c = Inr c' \<and> cache_ok c' \<and> cache_map c' = (cache_map c)(key \<mapsto> m)"
    if "cache_ok c" for c :: "'a message_cache" and key m
    using put_ok [OF that] by metis
  show "\<exists>c'. MessageCache_invalidate key c = Inr c' \<and> cache_ok c' \<and> cache_map c' = (cache_map c)(key := None)"
    if "cache_ok c" for c :: "'a message_cache" and key
    using invalidate_ok [OF that] by metis
  show "\<exists>c'. MessageCache_flush c = Inr c' \<and> cache_ok c' \<and> cache_map c' = Map.empty"
    if "cache_ok c" for c :: "'a message_cache"
    using flush_ok [OF that]
    by (auto simp: cache_ok_def MessageCache_new_def cache_map_def MessageCache_get_def)
qed

section \<open>Properties\<close>

text \<open>
  C17. The cache refines a map from keys to messages: whatever sequence of puts, invalidations and
  flushes is made, no message is freed twice or read after it was freed, looking up a key gives
  what the map gives, and the messages on the heap are exactly those in the cache, each under one
  key, so none is leaked.
\<close>

theorem cache_refines_map:
  "\<exists>c. ril_cache.run rs MessageCache_new = Inr c \<and>
     cache_map c = fold spec_step rs Map.empty \<and>
     dom (heap c) = snd ` set (m_messages c) \<and> distinct (map snd (m_messages c))"
  using ril_cache.run_refines [OF ril_cache.new(1), of rs]
  by (auto simp: ril_cache.new(2) cache_ok_def)

end
