(* ===== verification/RIL.thy ===== *)
theory RIL
  imports MessageCache Kernel
begin

text \<open>
  The Android side of the radio interface layer: the types that cross the interface of
  telephony/ril.h, the state shared by all request handlers (ril/RIL.cpp, ril/RequestHandler.h,
  ril/Request.cpp), and the blocking \<open>RIL::execute\<close>.  A handler is a \<open>process\<close>: it runs to its
  end, or to an \<open>execute\<close>, which releases the RIL lock, so that the handler continues from
  whatever state the others have left.  The constants of telephony/ril.h that the sources only
  name are constructors here.
\<close>

section \<open>The interface of telephony/ril.h\<close>

datatype ril_errno = RIL_E_SUCCESS | RIL_E_RADIO_NOT_AVAILABLE | RIL_E_GENERIC_FAILURE
  | RIL_E_PASSWORD_INCORRECT | RIL_E_REQUEST_NOT_SUPPORTED

datatype radio_state = RADIO_STATE_OFF | RADIO_STATE_UNAVAILABLE | RADIO_STATE_SIM_NOT_READY
  | RADIO_STATE_SIM_LOCKED_OR_ABSENT | RADIO_STATE_SIM_READY

datatype unsol_code = RIL_UNSOL_RESPONSE_RADIO_STATE_CHANGED
  | RIL_UNSOL_RESPONSE_CALL_STATE_CHANGED | RIL_UNSOL_RESPONSE_VOICE_NETWORK_STATE_CHANGED
  | RIL_UNSOL_SIGNAL_STRENGTH | RIL_UNSOL_CALL_RING | RIL_UNSOL_OEM_HOOK_RAW

datatype pref_net_type = PREF_NET_TYPE_GSM_WCDMA | PREF_NET_TYPE_GSM_ONLY | PREF_NET_TYPE_WCDMA
  | PREF_NET_TYPE_GSM_WCDMA_AUTO | PREF_NET_TYPE_CDMA_EVDO_AUTO | PREF_NET_TYPE_CDMA_ONLY
  | PREF_NET_TYPE_EVDO_ONLY | PREF_NET_TYPE_LTE_GSM_WCDMA
  | PREF_NET_TYPE_LTE_CMDA_EVDO_GSM_WCDMA | PREF_NET_TYPE_LTE_ONLY | Net_type int

datatype call_fail_cause = CALL_FAIL_NORMAL | CALL_FAIL_BUSY | CALL_FAIL_CONGESTION
  | CALL_FAIL_ACM_LIMIT_EXCEEDED | CALL_FAIL_CALL_BARRED | CALL_FAIL_UNOBTAINABLE_NUMBER
  | CALL_FAIL_ERROR_UNSPECIFIED | Fail_cause nat

text \<open>
  \<open>data\<close> of a request is a \<open>void *\<close>; what it points to depends on the request.  A C string is its
  bytes without the terminator, a \<open>char *\<close> inside an array may be null, and a preferred network
  type is an \<open>int\<close> that the sources compare with the constants of its enumeration.  Reading one
  kind of data as another is undefined.
\<close>

record dial =
  address :: "byte list"
  clir :: int

record sim_io =
  io_command :: int
  io_fileid :: int
  io_p1 :: int
  io_p2 :: int
  io_p3 :: int
  io_data :: "byte list option"

datatype request_data =
    Null_data
  | Ints_data "int list"
  | Net_type_data pref_net_type
  | Chars_data "byte list"
  | Strings_data "byte list option list"
  | Dial_data dial
  | Sim_io_data sim_io
  | Raw_data "byte list"

record request =
  r_code :: int
  r_data :: request_data
  r_data_size :: nat
  r_token :: nat

text \<open>Responses, with the members that the sources fill in.\<close>

record signal_strength =
  gw_signalStrength :: int
  gw_bitErrorRate :: int
  lte_signalStrength :: int
  lte_rsrp :: int
  lte_rsrq :: int
  lte_rssnr :: int
  lte_cqi :: int

datatype app_state = RIL_APPSTATE_DETECTED | RIL_APPSTATE_PIN | RIL_APPSTATE_PUK
  | RIL_APPSTATE_READY

datatype pin_state = RIL_PINSTATE_UNKNOWN | RIL_PINSTATE_ENABLED_NOT_VERIFIED
  | RIL_PINSTATE_ENABLED_BLOCKED

text \<open>\<open>None\<close>: no card; an application of type SIM with its state and the state of PIN 1 otherwise.\<close>

type_synonym card_status = "(app_state \<times> pin_state) option"

record sim_io_response =
  sw1 :: byte
  sw2 :: byte
  simResponse :: "byte list option"

record ril_call =
  call_state :: int
  call_index :: byte
  call_toa :: int
  call_isMpty :: bool
  call_isMT :: bool
  call_als :: int
  call_isVoice :: bool
  call_isVoicePrivacy :: bool
  call_number :: "byte list option"
  call_numberPresentation :: int
  call_name :: "byte list option"
  call_namePresentation :: int

datatype response =
    No_response
  | Ints_response "int list"
  | Net_type_response pref_net_type
  | Chars_response "byte list"
  | Strings_response "byte list list"
  | Signal_response signal_strength
  | Card_response card_status
  | Sim_response sim_io_response
  | Calls_response "ril_call list"
  | Cause_response call_fail_cause
  | Raw_response "byte list"

text \<open>Sizes on the 32-bit target.\<close>

definition sizeof_int :: nat where "sizeof_int = 4"
definition sizeof_pointer :: nat where "sizeof_pointer = 4"

section \<open>The platform\<close>

text \<open>
  SQLite, the system properties and uninitialised memory are parameters: their answers may
  depend on everything that happened before.  A row carries its two text columns.  The sizes of
  two structures of telephony/ril.h belong to the platform too.
\<close>

datatype sql_call = Sql_finalize | Sql_close | Sql_open | Sql_prepare | Sql_bind "byte list"
  | Sql_step | Sql_reset

datatype sql_result = SQLITE_OK | SQLITE_ROW "byte list option" "byte list option" | SQLITE_DONE
  | SQLITE_ERROR

datatype ril_effect =
    OnRequestComplete nat ril_errno response nat
  | OnUnsolicitedResponse unsol_code response nat
  | Sqlite sql_call
  | Property_get string

record platform =
  sqlite :: "(ril_effect, sql_result) environment"
  property_get :: "(ril_effect, byte list option) environment"
  uninitialised :: "nat \<Rightarrow> byte list"
  sizeof_card_status :: nat
  sizeof_signal_strength :: nat

section \<open>The shared state\<close>

text \<open>
  Who is told when a message is completed: nobody, or one of the static completion functions
  of the handlers, with the request it was given.
\<close>

datatype subscriber =
    Unsubscribed
  | RadioPowerSetModeComplete request
  | QueryAvailableNetworksComplete request
  | SetBandModeComplete request
  | SetPreferredNetworkTypeComplete request
  | PLMNSelectionComplete request
  | PinStatusRefreshComplete

record ril =
  m_radioState :: radio_state
  m_cache :: "string \<Rightarrow> wire_message option"
  m_coarseRSSI :: int
  m_lastCallFailCause :: call_fail_cause
  m_callIds :: "byte list"
  in_air :: "(wire_message \<times> subscriber) list"
  ril_effects :: "ril_effect list"

definition initial_ril :: ril where
  "initial_ril = \<lparr>m_radioState = RADIO_STATE_UNAVAILABLE, m_cache = Map.empty, m_coarseRSSI = - 1,
     m_lastCallFailCause = CALL_FAIL_ERROR_UNSPECIFIED, m_callIds = [], in_air = [],
     ril_effects = []\<rparr>"

definition effect :: "ril_effect \<Rightarrow> ril \<Rightarrow> ril" where
  "effect e s = s\<lparr>ril_effects := e # ril_effects s\<rparr>"

definition Request_complete :: "request \<Rightarrow> ril_errno \<Rightarrow> response \<Rightarrow> nat \<Rightarrow> ril \<Rightarrow> ril" where
  "Request_complete request e response len = effect (OnRequestComplete (r_token request) e response len)"

abbreviation completed :: "request \<Rightarrow> ril_errno \<Rightarrow> ril \<Rightarrow> ril" where
  "completed request e \<equiv> Request_complete request e No_response 0"

definition unsolicited :: "unsol_code \<Rightarrow> response \<Rightarrow> nat \<Rightarrow> ril \<Rightarrow> ril" where
  "unsolicited code data len = effect (OnUnsolicitedResponse code data len)"

definition setRadioState :: "radio_state \<Rightarrow> ril \<Rightarrow> ril" where
  "setRadioState new s =
     (if new \<noteq> m_radioState s
      then unsolicited RIL_UNSOL_RESPONSE_RADIO_STATE_CHANGED No_response 0 (s\<lparr>m_radioState := new\<rparr>)
      else s)"

definition RIL_submit :: "wire_message \<Rightarrow> subscriber \<Rightarrow> ril \<Rightarrow> ril" where
  "RIL_submit m who s = s\<lparr>in_air := in_air s @ [(m, who)]\<rparr>"

section \<open>Processes\<close>

text \<open>\<open>Executing m s k\<close>: the lock is released in state \<open>s\<close> until the reply to \<open>m\<close> is there.\<close>

datatype process =
    Finished ril
  | Executing wire_message ril "wire_message option \<Rightarrow> ril \<Rightarrow> process"
  | Faulted fault
  | Exited int

definition finish :: "ril outcome \<Rightarrow> process" where
  "finish r = (case r of Inl f \<Rightarrow> Faulted f | Inr s \<Rightarrow> Finished s)"

text \<open>
  Starting from \<open>s\<close>, every stretch of a process up to an \<open>execute\<close> satisfies \<open>P\<close>, the last
  one \<open>Q\<close>, whatever happens in between; every message it waits for satisfies \<open>M\<close>.
\<close>

primrec performs ::
    "(wire_message \<Rightarrow> bool) \<Rightarrow> (ril \<Rightarrow> ril \<Rightarrow> bool) \<Rightarrow> (ril \<Rightarrow> ril \<Rightarrow> bool) \<Rightarrow> process \<Rightarrow> ril \<Rightarrow> bool"
where
  "performs M P Q (Finished s') s = Q s s'"
| "performs M P Q (Executing m s' k) s =
     (M m \<and> P s s' \<and> (\<forall>reply s''. performs M P Q (k reply s'') s''))"
| "performs M P Q (Faulted f) s = True"
| "performs M P Q (Exited n) s = True"

section \<open>Request data\<close>

definition int_arg :: "request \<Rightarrow> int outcome" where
  "int_arg request =
     (case r_data request of Ints_data (i # _) \<Rightarrow> Inr i | _ \<Rightarrow> Inl Undefined)"

definition chars_arg :: "request \<Rightarrow> byte list outcome" where
  "chars_arg request = (case r_data request of Chars_data s \<Rightarrow> Inr (c_str s) | _ \<Rightarrow> Inl Undefined)"

text \<open>Element \<open>n\<close> of a \<open>const char **\<close>; it may be null.\<close>

definition strings_arg :: "request \<Rightarrow> nat \<Rightarrow> byte list option outcome" where
  "strings_arg request n =
     (case r_data request of
        Strings_data ss \<Rightarrow> if n < length ss then Inr (map_option c_str (ss ! n)) else Inl Undefined
      | _ \<Rightarrow> Inl Undefined)"

text \<open>
  C's \<open>atoi\<close>: white space, a sign, digits.  Values beyond \<open>int\<close> are undefined there; every
  caller narrows the result to a byte or compares it with zero.
\<close>

definition atoi :: "byte list \<Rightarrow> int" where
  "atoi s =
     (let s = dropWhile (\<lambda>b. b = 32 \<or> 9 \<le> b \<and> b \<le> 13) s;
          digits = (case s of c # cs \<Rightarrow> if c = 43 \<or> c = 45 then cs else s | [] \<Rightarrow> []);
          n = foldl (\<lambda>n b. 10 * n + (uint b - 48)) 0 (takeWhile (\<lambda>b. 48 \<le> b \<and> b \<le> 57) digits)
      in if s \<noteq> [] \<and> hd s = 45 then - n else n)"

section \<open>Messages\<close>

text \<open>
  The class of a group with a given name, an outgoing message with its members set,
  and \<open>message_cast\<close>, which lets a null pointer through.
\<close>

definition find_class :: "direction \<Rightarrow> message_group \<Rightarrow> string \<Rightarrow> message_class" where
  "find_class d g i = hd (filter (\<lambda>c. c_direction c = d \<and> c_id c = i) (g_messages g))"

definition outgoing :: "message_group \<Rightarrow> string \<Rightarrow> object \<Rightarrow> wire_message" where
  "outgoing g i obj = \<lparr>w_group = g, w_class = find_class Out g i, w_object = obj\<rparr>"

definition message_cast ::
    "message_group \<Rightarrow> string \<Rightarrow> wire_message option \<Rightarrow> wire_message option"
where
  "message_cast g i reply =
     Option.bind reply (\<lambda>m. if isTypeOf (g_type g) (c_type (find_class In g i)) m then Some m else None)"

text \<open>
  Members of a received message.  An object of a class has all members of the class with their
  types; the value for any other object stands for whatever memory holds.
\<close>

definition member_u8 :: "object \<Rightarrow> string \<Rightarrow> byte" where
  "member_u8 obj x = (case map_of obj x of Some (VU8 v) \<Rightarrow> v | _ \<Rightarrow> 0)"

definition member_u16 :: "object \<Rightarrow> string \<Rightarrow> u16" where
  "member_u16 obj x = (case map_of obj x of Some (VU16 v) \<Rightarrow> v | _ \<Rightarrow> 0)"

definition member_u32 :: "object \<Rightarrow> string \<Rightarrow> u32" where
  "member_u32 obj x = (case map_of obj x of Some (VU32 v) \<Rightarrow> v | _ \<Rightarrow> 0)"

definition member_bytes :: "object \<Rightarrow> string \<Rightarrow> byte list" where
  "member_bytes obj x = (case map_of obj x of Some (VBytes v) \<Rightarrow> v | _ \<Rightarrow> [])"

definition member_items :: "object \<Rightarrow> string \<Rightarrow> object list" where
  "member_items obj x = (case map_of obj x of Some (VItems v) \<Rightarrow> v | _ \<Rightarrow> [])"

text \<open>\<open>unexpected\<close> logs \<open>reply->inspect()\<close>: a null reply is dereferenced.\<close>

definition unexpected :: "wire_message option \<Rightarrow> unit outcome" where
  "unexpected reply = (case reply of None \<Rightarrow> Inl Undefined | Some m \<Rightarrow> Inr ())"

definition GenCommandComplete_Success :: u16 where "GenCommandComplete_Success = 0x8000"
definition GenCommandComplete_IncorrectPin :: u16 where "GenCommandComplete_IncorrectPin = 0x0010"

fun complete_optional :: "request option \<Rightarrow> ril_errno \<Rightarrow> ril \<Rightarrow> ril" where
  "complete_optional None e s = s"
| "complete_optional (Some request) e s = completed request e s"

definition completeGenCommand ::
    "wire_message option \<Rightarrow> request option \<Rightarrow> ril \<Rightarrow> (bool \<times> ril) outcome"
where
  "completeGenCommand reply request s =
     (case message_cast group_GEN ''COMMAND_COMPLETE'' reply of
        None \<Rightarrow>
          andThen (unexpected reply) (\<lambda>_. Inr (False, complete_optional request RIL_E_GENERIC_FAILURE s))
      | Some m \<Rightarrow>
          (let status = member_u16 (w_object m) ''status''
           in if status = GenCommandComplete_Success
              then Inr (True, complete_optional request RIL_E_SUCCESS s)
              else if status = GenCommandComplete_IncorrectPin
              then Inr (False, complete_optional request RIL_E_PASSWORD_INCORRECT s)
              else Inr (False, complete_optional request RIL_E_GENERIC_FAILURE s)))"

section \<open>The message cache\<close>

definition cache_get :: "message_group \<Rightarrow> string \<Rightarrow> string \<Rightarrow> ril \<Rightarrow> wire_message option" where
  "cache_get g i key s = message_cast g i (m_cache s key)"

definition cache_put :: "string \<Rightarrow> wire_message \<Rightarrow> ril \<Rightarrow> ril" where
  "cache_put key m s = s\<lparr>m_cache := (m_cache s)(key \<mapsto> m)\<rparr>"

definition cache_invalidate :: "string \<Rightarrow> ril \<Rightarrow> ril" where
  "cache_invalidate key s = s\<lparr>m_cache := (m_cache s)(key := None)\<rparr>"

definition cache_flush :: "ril \<Rightarrow> ril" where
  "cache_flush s = s\<lparr>m_cache := Map.empty\<rparr>"

text \<open>These are the operations that the cache of ril/MessageCache.cpp refines.\<close>

lemma cache_operations_spec:
  "m_cache (cache_put key m s) = spec_step (Put key m) (m_cache s)"
  "m_cache (cache_invalidate key s) = spec_step (Invalidate key) (m_cache s)"
  "m_cache (cache_flush s) = spec_step Flush (m_cache s)"
  by (simp_all add: cache_put_def cache_invalidate_def cache_flush_def)

section \<open>Common shapes of handlers\<close>

text \<open>Execute a command and complete the request with its status.\<close>

definition run_command :: "wire_message \<Rightarrow> request \<Rightarrow> ril \<Rightarrow> process" where
  "run_command m request s =
     Executing m s (\<lambda>reply s. finish (andThen (completeGenCommand reply (Some request) s)
       (\<lambda>(ok, s). Inr s)))"

text \<open>A reply of the wrong type fails the request.\<close>

definition wrong_reply :: "wire_message option \<Rightarrow> request \<Rightarrow> ril \<Rightarrow> ril outcome" where
  "wrong_reply reply request s =
     andThen (unexpected reply) (\<lambda>_. Inr (completed request RIL_E_GENERIC_FAILURE s))"

text \<open>Ask the modem and continue with a reply of the expected class.\<close>

definition query ::
    "message_group \<Rightarrow> string \<Rightarrow> wire_message \<Rightarrow> request \<Rightarrow> ril \<Rightarrow>
     (object \<Rightarrow> ril \<Rightarrow> ril outcome) \<Rightarrow> process"
where
  "query g i m request s k =
     Executing m s (\<lambda>reply s. finish
       (case message_cast g i reply of
          None \<Rightarrow> wrong_reply reply request s
        | Some m \<Rightarrow> k (w_object m) s))"

text \<open>The same, with the answer kept in the cache.\<close>

definition cached_query ::
    "string \<Rightarrow> message_group \<Rightarrow> string \<Rightarrow> wire_message \<Rightarrow> request \<Rightarrow> ril \<Rightarrow>
     (object \<Rightarrow> ril \<Rightarrow> ril outcome) \<Rightarrow> process"
where
  "cached_query key g i m request s k =
     (case cache_get g i key s of
        Some m \<Rightarrow> finish (k (w_object m) s)
      | None \<Rightarrow>
          Executing m s (\<lambda>reply s. finish
            (case message_cast g i reply of
               None \<Rightarrow> wrong_reply reply request s
             | Some m \<Rightarrow> k (w_object m) (cache_put key m s))))"

text \<open>Continue a handler with its request data.\<close>

definition with_arg :: "'a outcome \<Rightarrow> ('a \<Rightarrow> process) \<Rightarrow> process" where
  "with_arg r k = (case r of Inl f \<Rightarrow> Faulted f | Inr x \<Rightarrow> k x)"

section \<open>Rules for processes\<close>

lemma process_simps [simp]:
  "finish (Inr s) = Finished s"
  "finish (Inl f) = Faulted f"
  "with_arg (Inr x) k = k x"
  "with_arg (Inl f :: 'a outcome) k = Faulted f"
  by (simp_all add: finish_def with_arg_def)

lemma performs_finish: "performs M P Q (finish r) s \<longleftrightarrow> (\<forall>s'. r = Inr s' \<longrightarrow> Q s s')"
  by (cases r) simp_all

lemma performs_with_arg:
  "performs M P Q (with_arg r k) s \<longleftrightarrow> (\<forall>x. r = Inr x \<longrightarrow> performs M P Q (k x) s)"
  by (cases r) simp_all

lemma process_induct [case_names Finished Executing Faulted Exited]:
  assumes "\<And>s. P (Finished s)"
    and "\<And>m s k. (\<And>reply s'. P (k reply s')) \<Longrightarrow> P (Executing m s k)"
    and "\<And>f. P (Faulted f)" and "\<And>n. P (Exited n)"
  shows "P p"
proof (induction p)
  case (Executing m s k)
  show ?case by (rule assms(2), rule Executing) (rule rangeI)+
qed (fact assms)+

lemma performs_mono:
  assumes "\<And>m. M m \<Longrightarrow> M' m" and "\<And>s s'. P s s' \<Longrightarrow> P' s s'" and "\<And>s s'. Q s s' \<Longrightarrow> Q' s s'"
  shows "performs M P Q p s \<Longrightarrow> performs M' P' Q' p s"
  using assms by (induction p arbitrary: s rule: process_induct) auto

end
