(* ===== verification/RIL_Network.thy ===== *)
theory RIL_Network
  imports RIL
begin

text \<open>
  Network requests (ril/network.cpp) and the operator database (ril/RILDatabase.cpp): network
  selection, available networks, the current operator, bands, the preferred network type, and
  registration.
\<close>

section \<open>The operator database\<close>

definition sql :: "platform \<Rightarrow> sql_call \<Rightarrow> ril \<Rightarrow> sql_result \<times> ril" where
  "sql p c s = (sqlite p (ril_effects s) (Sqlite c), effect (Sqlite c) s)"

definition database_open :: "platform \<Rightarrow> ril \<Rightarrow> bool \<times> ril" where
  "database_open p s =
     (let (_, s) = sql p Sql_finalize s;
          (_, s) = sql p Sql_close s;
          (ret, s) = sql p Sql_open s
      in if ret \<noteq> SQLITE_OK then (False, s)
         else let (ret, s) = sql p Sql_prepare s in (ret = SQLITE_OK, s))"

text \<open>The end of a lookup: the statement must be done, and is reset.\<close>

definition lookup_end :: "platform \<Rightarrow> sql_result \<Rightarrow> ril \<Rightarrow> bool \<times> ril" where
  "lookup_end p ret s =
     (let (reset, s) = sql p Sql_reset s in (ret = SQLITE_DONE \<and> reset = SQLITE_OK, s))"

text \<open>Success and the two names; a null column is assigned to a \<open>std::string\<close>.\<close>

definition lookupOperator ::
    "platform \<Rightarrow> byte list \<Rightarrow> ril \<Rightarrow> ((bool \<times> byte list \<times> byte list) \<times> ril) outcome"
where
  "lookupOperator p mccmnc s =
     (let (ret, s) = sql p (Sql_bind mccmnc) s in
      if ret \<noteq> SQLITE_OK then
        (let (_, s) = sql p Sql_reset s in Inr ((False, [], []), s))
      else
        (let (ret, s) = sql p Sql_step s in
         case ret of
           SQLITE_ROW (Some long) (Some short) \<Rightarrow>
             (let (ret, s) = sql p Sql_step s; (ok, s) = lookup_end p ret s
              in Inr ((ok, c_str long, c_str short), s))
         | SQLITE_ROW _ _ \<Rightarrow> Inl Undefined
         | _ \<Rightarrow>
             (let name = lit ''<'' @ mccmnc @ lit ''>''; (ok, s) = lookup_end p ret s
              in Inr ((ok, name, name), s))))"

text \<open>The callers fall back to the number itself.\<close>

definition operator_names ::
    "platform \<Rightarrow> byte list \<Rightarrow> ril \<Rightarrow> ((byte list \<times> byte list) \<times> ril) outcome"
where
  "operator_names p mccmnc s =
     andThen (lookupOperator p mccmnc s) (\<lambda>((ok, long, short), s).
       Inr (if ok then (long, short) else (mccmnc, mccmnc), s))"

section \<open>Network selection\<close>

definition handleQueryNetworkSelectionMode :: "request \<Rightarrow> ril \<Rightarrow> process" where
  "handleQueryNetworkSelectionMode request s =
     cached_query ''plmnSelection'' group_NET ''GET_PLMN_SELECTION_REPLY''
       (outgoing group_NET ''GET_PLMN_SELECTION'' []) request s (\<lambda>reply s.
         let mode = uint (member_u8 reply ''selection'') in
         if 2 \<le> mode \<and> mode \<le> 5
         then Inr (Request_complete request RIL_E_SUCCESS (Ints_response [0]) sizeof_pointer s)
         else if mode = 6
         then Inr (Request_complete request RIL_E_SUCCESS (Ints_response [1]) sizeof_pointer s)
         else Inr (completed request RIL_E_GENERIC_FAILURE s))"

definition NetSetPlmnSelection_Automatic :: byte where "NetSetPlmnSelection_Automatic = 2"
definition NetSetPlmnSelection_Manual :: byte where "NetSetPlmnSelection_Manual = 3"

text \<open>The number is padded with \<open>#\<close> to six bytes.\<close>

definition padded_plmn :: "byte list \<Rightarrow> byte list" where
  "padded_plmn plmn = plmn @ drop (length plmn) (replicate 6 35)"

definition setPLMNSelection :: "request \<Rightarrow> byte list option \<Rightarrow> ril \<Rightarrow> process" where
  "setPLMNSelection request plmn s =
     (let digits = (case plmn of None \<Rightarrow> [] | Some d \<Rightarrow> d) in
      if length digits > 6 then Finished (completed request RIL_E_GENERIC_FAILURE s)
      else Finished (RIL_submit
        (outgoing group_NET ''SET_PLMN_SELECTION''
          [(''selection'', VU8 (if plmn = None then NetSetPlmnSelection_Automatic
              else NetSetPlmnSelection_Manual)),
           (''network'', VBytes (padded_plmn digits)),
           (''unknown1'', VU8 0xFF)])
        (PLMNSelectionComplete request) s))"

definition handleSetNetworkSelectionAutomatic :: "request \<Rightarrow> ril \<Rightarrow> process" where
  "handleSetNetworkSelectionAutomatic request s = setPLMNSelection request None s"

text \<open>A null pointer selects automatically.\<close>

definition handleSetNetworkSelectionManual :: "request \<Rightarrow> ril \<Rightarrow> process" where
  "handleSetNetworkSelectionManual request s =
     (if r_data request = Null_data then setPLMNSelection request None s
      else with_arg (chars_arg request) (\<lambda>plmn. setPLMNSelection request (Some plmn) s))"

definition setPLMNSelectionComplete :: "request \<Rightarrow> wire_message option \<Rightarrow> ril \<Rightarrow> process" where
  "setPLMNSelectionComplete request reply s =
     finish (andThen (completeGenCommand reply (Some request) (cache_invalidate ''plmnSelection'' s))
       (\<lambda>(ok, s). Inr s))"

section \<open>Available networks and the current operator\<close>

definition memrchr :: "byte \<Rightarrow> byte list \<Rightarrow> nat option" where
  "memrchr c xs =
     (if c \<in> set xs then Some (length xs - 1 - length (takeWhile (\<lambda>b. b \<noteq> c) (rev xs))) else None)"

text \<open>The number ends before the last \<open>#\<close>; it is a C string from there on.\<close>

definition getCleanMCCMNC :: "byte list \<Rightarrow> byte list" where
  "getCleanMCCMNC data =
     c_str (case memrchr 35 (take 6 data) of None \<Rightarrow> take 6 data | Some e \<Rightarrow> take e data)"

definition plmn_status :: "byte \<Rightarrow> byte list" where
  "plmn_status status =
     (if status = 2 then lit ''available'' else if status = 3 then lit ''current''
      else if status = 4 then lit ''forbidden'' else lit ''unknown'')"

text \<open>The loop over the list fills four strings per network, always from the first one.\<close>

fun network_rows ::
    "platform \<Rightarrow> object list \<Rightarrow> nat \<Rightarrow> ril \<Rightarrow> (byte list list \<times> ril) outcome"
where
  "network_rows p items 0 s = Inr ([], s)"
| "network_rows p items (Suc n) s =
     (let item = items ! 0; mccmnc = getCleanMCCMNC (member_bytes item ''plmn'')
      in andThen (operator_names p mccmnc s) (\<lambda>((long, short), s).
         andThen (network_rows p items n s) (\<lambda>(rows, s).
           Inr ([long, short, mccmnc, plmn_status (member_u8 item ''status'')] @ rows, s))))"

definition handleQueryAvailableNetworks :: "request \<Rightarrow> ril \<Rightarrow> process" where
  "handleQueryAvailableNetworks request s =
     Finished (RIL_submit (outgoing group_NET ''GET_PLMN_LIST'' [])
       (QueryAvailableNetworksComplete request) s)"

definition handleQueryAvailableNetworksComplete ::
    "platform \<Rightarrow> request \<Rightarrow> wire_message option \<Rightarrow> ril \<Rightarrow> process"
where
  "handleQueryAvailableNetworksComplete p request reply s =
     finish (case message_cast group_NET ''GET_PLMN_LIST_REPLY'' reply of
         None \<Rightarrow> wrong_reply reply request s
       | Some m \<Rightarrow>
           (let items = member_items (w_object m) ''plmnList'' in
            andThen (network_rows p items (length items) s) (\<lambda>(rows, s).
              Inr (Request_complete request RIL_E_SUCCESS (Strings_response rows)
                (sizeof_pointer * length items * 4) s))))"

definition handleOperator :: "platform \<Rightarrow> request \<Rightarrow> ril \<Rightarrow> process" where
  "handleOperator p request s =
     cached_query ''currentPlmn'' group_NET ''GET_CURRENT_PLMN_REPLY''
       (outgoing group_NET ''GET_CURRENT_PLMN'' []) request s (\<lambda>reply s.
         let mccmnc = getCleanMCCMNC (member_bytes reply ''plmn'') in
         andThen (operator_names p mccmnc s) (\<lambda>((long, short), s).
           Inr (Request_complete request RIL_E_SUCCESS (Strings_response [long, short, mccmnc])
             (3 * sizeof_pointer) s)))"

definition handle_NetGetCurrentPlmnReply :: "wire_message \<Rightarrow> ril \<Rightarrow> process" where
  "handle_NetGetCurrentPlmnReply m s =
     Finished (unsolicited RIL_UNSOL_RESPONSE_VOICE_NETWORK_STATE_CHANGED No_response 0
       (cache_put ''currentPlmn'' m s))"

section \<open>Bands\<close>

definition band_of :: "int \<Rightarrow> u32" where
  "band_of i =
     (if i = 1 then 0x16 else if i = 2 then 0x129 else if i = 3 then 0x210
      else if i = 4 then 0x116 else if i = 5 then 0x106 else 0x40000000)"

definition handleSetBandMode :: "request \<Rightarrow> ril \<Rightarrow> process" where
  "handleSetBandMode request s =
     with_arg (int_arg request) (\<lambda>i. Finished (RIL_submit
       (outgoing group_NET ''SET_BAND_SELECTION'' [(''unknown1'', VU8 0x02), (''band'', VU32 (band_of i))])
       (SetBandModeComplete request) s))"

definition handleSetBandModeComplete :: "request \<Rightarrow> wire_message option \<Rightarrow> ril \<Rightarrow> process" where
  "handleSetBandModeComplete request reply s =
     finish (andThen (completeGenCommand reply (Some request) s) (\<lambda>(ok, s). Inr s))"

definition handleQueryAvailableBandMode :: "request \<Rightarrow> ril \<Rightarrow> process" where
  "handleQueryAvailableBandMode request s =
     Finished (Request_complete request RIL_E_SUCCESS (Ints_response [6, 0, 1, 2, 3, 4, 5])
       (7 * sizeof_int) s)"

section \<open>The preferred network type\<close>

fun ipc_mode_of :: "pref_net_type \<Rightarrow> byte" where
  "ipc_mode_of PREF_NET_TYPE_LTE_GSM_WCDMA = 1"
| "ipc_mode_of PREF_NET_TYPE_GSM_WCDMA_AUTO = 1"
| "ipc_mode_of PREF_NET_TYPE_CDMA_EVDO_AUTO = 1"
| "ipc_mode_of PREF_NET_TYPE_CDMA_ONLY = 1"
| "ipc_mode_of PREF_NET_TYPE_EVDO_ONLY = 1"
| "ipc_mode_of PREF_NET_TYPE_GSM_WCDMA = 1"
| "ipc_mode_of PREF_NET_TYPE_GSM_ONLY = 2"
| "ipc_mode_of PREF_NET_TYPE_WCDMA = 3"
| "ipc_mode_of PREF_NET_TYPE_LTE_CMDA_EVDO_GSM_WCDMA = 4"
| "ipc_mode_of PREF_NET_TYPE_LTE_ONLY = 6"
| "ipc_mode_of (Net_type _) = 7"

definition net_type_arg :: "request \<Rightarrow> pref_net_type outcome" where
  "net_type_arg request = (case r_data request of Net_type_data t \<Rightarrow> Inr t | _ \<Rightarrow> Inl Undefined)"

definition handleSetPreferredNetworkType :: "request \<Rightarrow> ril \<Rightarrow> process" where
  "handleSetPreferredNetworkType request s =
     with_arg (net_type_arg request) (\<lambda>mode. Finished (RIL_submit
       (outgoing group_NET ''SET_MODE_SELECT'' [(''mode'', VU8 (ipc_mode_of mode))])
       (SetPreferredNetworkTypeComplete request) s))"

definition handleSetPreferredNetworkTypeComplete ::
    "request \<Rightarrow> wire_message option \<Rightarrow> ril \<Rightarrow> process"
where
  "handleSetPreferredNetworkTypeComplete request reply s =
     finish (andThen (completeGenCommand reply (Some request) (cache_invalidate ''netMode'' s))
       (\<lambda>(ok, s). Inr s))"

definition net_type_of_mode :: "byte \<Rightarrow> pref_net_type" where
  "net_type_of_mode mode =
     (if mode = 1 \<or> mode = 3 then PREF_NET_TYPE_GSM_ONLY
      else if mode = 2 then PREF_NET_TYPE_GSM_WCDMA
      else if mode = 4 then PREF_NET_TYPE_WCDMA
      else if mode = 5 then PREF_NET_TYPE_LTE_ONLY
      else if mode = 6 then PREF_NET_TYPE_CDMA_ONLY
      else Net_type (- 1))"

definition handleGetPreferredNetworkType :: "request \<Rightarrow> ril \<Rightarrow> process" where
  "handleGetPreferredNetworkType request s =
     cached_query ''netMode'' group_NET ''GET_MODE_SELECT_REPLY''
       (outgoing group_NET ''GET_MODE_SELECT'' []) request s (\<lambda>reply s.
         Inr (Request_complete request RIL_E_SUCCESS
           (Net_type_response (net_type_of_mode (member_u8 reply ''mode''))) sizeof_int s))"

section \<open>Registration\<close>

definition ServiceDomain_Voice :: byte where "ServiceDomain_Voice = 2"
definition ServiceDomain_Data :: byte where "ServiceDomain_Data = 3"

definition toRilStatus :: "byte \<Rightarrow> u32" where
  "toRilStatus status =
     (if status = 1 then 0 else if status = 2 then 1 else if status = 3 then 12
      else if status = 4 then 13 else if status = 5 then 14 else if status = 6 then 5
      else if status = 7 then 6 else if status = 8 then 7 else - 1)"

text \<open>The conversions of \<open>snprintf\<close>: decimal, and hexadecimal with a fixed number of digits.\<close>

definition digit :: "nat \<Rightarrow> byte" where
  "digit d = (if d < 10 then of_nat (48 + d) else of_nat (87 + d))"

fun format_u :: "nat \<Rightarrow> byte list" where
  "format_u n = (if n < 10 then [digit n] else format_u (n div 10) @ [digit (n mod 10)])"

declare format_u.simps [simp del]

fun format_x :: "nat \<Rightarrow> nat \<Rightarrow> byte list" where
  "format_x 0 n = []"
| "format_x (Suc width) n = format_x width (n div 16) @ [digit (n mod 16)]"

definition getNetworkRegistration :: "request \<Rightarrow> byte \<Rightarrow> ril \<Rightarrow> process" where
  "getNetworkRegistration request op s =
     cached_query (if op = ServiceDomain_Voice then ''voiceRegistration'' else ''dataRegistration'')
       group_NET ''GET_NETWORK_REGISTRATION_REPLY''
       (outgoing group_NET ''GET_NETWORK_REGISTRATION''
         [(''unknown1'', VU8 0xFF), (''serviceDomain'', VU8 op)]) request s (\<lambda>reply s.
         Inr (Request_complete request RIL_E_SUCCESS
           (Strings_response
             [format_u (unat (toRilStatus (member_u8 reply ''registrationStatus''))),
              format_x 4 (unat (member_u16 reply ''lac'')),
              format_x 8 (unat (member_u32 reply ''cid''))])
           (3 * sizeof_pointer) s))"

definition handleVoiceRegistrationState :: "request \<Rightarrow> ril \<Rightarrow> process" where
  "handleVoiceRegistrationState request s = getNetworkRegistration request ServiceDomain_Voice s"

definition handleDataRegistrationState :: "request \<Rightarrow> ril \<Rightarrow> process" where
  "handleDataRegistrationState request s = getNetworkRegistration request ServiceDomain_Data s"

definition handle_NetGetNetworkRegistrationReply :: "wire_message \<Rightarrow> ril \<Rightarrow> process" where
  "handle_NetGetNetworkRegistrationReply m s =
     (let domain = member_u8 (w_object m) ''serviceDomain'' in
      if domain = ServiceDomain_Voice then
        Finished (unsolicited RIL_UNSOL_RESPONSE_VOICE_NETWORK_STATE_CHANGED No_response 0
          (cache_put ''voiceRegistration'' m s))
      else if domain = ServiceDomain_Data then Finished (cache_put ''dataRegistration'' m s)
      else Finished s)"

section \<open>Properties\<close>

lemma memrchr_append: "memrchr c (xs @ [c]) = Some (length xs)"
  by (simp add: memrchr_def)

lemma memrchr_None: "c \<notin> set xs \<Longrightarrow> memrchr c xs = None"
  by (simp add: memrchr_def)

text \<open>
  The number of an operator is padded with \<open>#\<close> when a network is selected, and the padding is
  cut off when the modem reports the operator.  The two fit together exactly for numbers of five or
  six digits: only the last \<open>#\<close> is cut off.
\<close>

theorem plmn_round_trip:
  assumes "length plmn \<le> 6" and "0 \<notin> set plmn" and "35 \<notin> set plmn"
  shows "getCleanMCCMNC (padded_plmn plmn) = plmn \<longleftrightarrow> 5 \<le> length plmn"
proof (cases "length plmn = 6")
  case True
  then have "getCleanMCCMNC (padded_plmn plmn) = plmn"
    using assms by (simp add: getCleanMCCMNC_def padded_plmn_def memrchr_None c_str_def takeWhile_eq_all_conv)
       (metis)
  then show ?thesis by (simp add: True)
next
  case False
  define n where "n = 5 - length plmn"
  have n: "padded_plmn plmn = (plmn @ replicate n 35) @ [35]" "length (plmn @ replicate n 35) = 5"
  proof -
    have "6 - length plmn = Suc n" and "length plmn + n = 5"
      using False assms(1) by (simp_all add: n_def)
    then show "padded_plmn plmn = (plmn @ replicate n 35) @ [35]" "length (plmn @ replicate n 35) = 5"
      by (simp_all add: padded_plmn_def replicate_append_same)
  qed
  have "\<forall>b \<in> set (plmn @ replicate n 35). b \<noteq> 0"
    using assms(2) by auto
  then have "getCleanMCCMNC (padded_plmn plmn) = plmn @ replicate n 35"
    unfolding getCleanMCCMNC_def n(1) using n(2) memrchr_append [of 35 "plmn @ replicate n 35"]
    by (simp add: c_str_def takeWhile_eq_all_conv)
  then show ?thesis
    using assms(1) by (simp add: n_def)
qed

theorem plmn_round_trip_witness:
  "getCleanMCCMNC (padded_plmn (lit ''25001'')) = lit ''25001'' \<and>
   getCleanMCCMNC (padded_plmn (lit ''2501'')) \<noteq> lit ''2501''"
  using plmn_round_trip [of "lit ''25001''"] plmn_round_trip [of "lit ''2501''"]
  by (simp add: lit_def)

text \<open>The cache holds a reply of the modem that reports a mode.\<close>

definition reported_mode :: "byte \<Rightarrow> ril \<Rightarrow> bool" where
  "reported_mode mode s \<longleftrightarrow>
     (\<exists>m. cache_get group_NET ''GET_MODE_SELECT_REPLY'' ''netMode'' s = Some m \<and>
        member_u8 (w_object m) ''mode'' = mode)"

lemma Request_complete_inject:
  "Request_complete r e response len s = Request_complete r e response' len s \<longleftrightarrow> response = response'"
  by (auto simp: Request_complete_def effect_def dest: arg_cong [of _ _ ril_effects])

text \<open>
  The two translations of the preferred network type do not fit together.  Whatever type
  Android sets, when the modem reports the mode it was given, Android is told another type; only
  types that the RIL does not know come back, as the unknown type -1.
\<close>

theorem network_type_not_preserved:
  assumes "r_data set_request = Net_type_data t"
  shows "\<exists>mode.
    handleSetPreferredNetworkType set_request s =
      Finished (RIL_submit (outgoing group_NET ''SET_MODE_SELECT'' [(''mode'', VU8 mode)])
        (SetPreferredNetworkTypeComplete set_request) s) \<and>
    (reported_mode mode s' \<longrightarrow>
      (handleGetPreferredNetworkType get_request s' =
         Finished (Request_complete get_request RIL_E_SUCCESS (Net_type_response t) sizeof_int s') \<longleftrightarrow>
       t = Net_type (- 1)))"
proof (intro exI conjI impI)
  show "handleSetPreferredNetworkType set_request s =
      Finished (RIL_submit (outgoing group_NET ''SET_MODE_SELECT'' [(''mode'', VU8 (ipc_mode_of t))])
        (SetPreferredNetworkTypeComplete set_request) s)"
    using assms by (simp add: handleSetPreferredNetworkType_def net_type_arg_def)
next
  assume "reported_mode (ipc_mode_of t) s'"
  then have "handleGetPreferredNetworkType get_request s' =
      Finished (Request_complete get_request RIL_E_SUCCESS
        (Net_type_response (net_type_of_mode (ipc_mode_of t))) sizeof_int s')"
    by (auto simp: reported_mode_def handleGetPreferredNetworkType_def cached_query_def)
  moreover have "net_type_of_mode (ipc_mode_of t) = t \<longleftrightarrow> t = Net_type (- 1)"
    by (cases t) (auto simp: net_type_of_mode_def)
  ultimately show "handleGetPreferredNetworkType get_request s' =
      Finished (Request_complete get_request RIL_E_SUCCESS (Net_type_response t) sizeof_int s') \<longleftrightarrow>
    t = Net_type (- 1)"
    by (simp add: Request_complete_inject)
qed

definition wcdma_request :: request where
  "wcdma_request =
     \<lparr>r_code = 73, r_data = Net_type_data PREF_NET_TYPE_WCDMA, r_data_size = 4, r_token = 1\<rparr>"

definition mode_reply :: wire_message where
  "mode_reply =
     \<lparr>w_group = group_NET, w_class = find_class In group_NET ''GET_MODE_SELECT_REPLY'',
      w_object = [(''mode'', VU8 3)]\<rparr>"

theorem network_type_not_preserved_witness:
  "let s = cache_put ''netMode'' mode_reply initial_ril in
   reported_mode 3 s \<and>
   handleGetPreferredNetworkType wcdma_request s \<noteq>
     Finished (Request_complete wcdma_request RIL_E_SUCCESS (Net_type_response PREF_NET_TYPE_WCDMA)
       sizeof_int s)"
proof -
  let ?s = "cache_put ''netMode'' mode_reply initial_ril"
  have r: "reported_mode 3 ?s"
    by (simp add: reported_mode_def cache_get_def cache_put_def message_cast_def isTypeOf_def
        mode_reply_def wire_ops_def member_u8_def)
  have "r_data wcdma_request = Net_type_data PREF_NET_TYPE_WCDMA" by (simp add: wcdma_request_def)
  from network_type_not_preserved [OF this, of initial_ril ?s wcdma_request] obtain mode where
    m: "handleSetPreferredNetworkType wcdma_request initial_ril =
      Finished (RIL_submit (outgoing group_NET ''SET_MODE_SELECT'' [(''mode'', VU8 mode)])
        (SetPreferredNetworkTypeComplete wcdma_request) initial_ril)"
    and "reported_mode mode ?s \<longrightarrow>
      handleGetPreferredNetworkType wcdma_request ?s \<noteq>
        Finished (Request_complete wcdma_request RIL_E_SUCCESS
          (Net_type_response PREF_NET_TYPE_WCDMA) sizeof_int ?s)"
    by auto
  moreover have "mode = 3"
    using m by (simp add: handleSetPreferredNetworkType_def net_type_arg_def wcdma_request_def
        RIL_submit_def outgoing_def initial_ril_def)
  ultimately show ?thesis using r by (simp add: Let_def)
qed

end
