(* ===== verification/RIL_Call.thy ===== *)
theory RIL_Call
  imports RIL
begin

text \<open>
  Call requests (ril/call.cpp): the call list, dialling, hanging up, and the other operations on
  calls, with DTMF.  The line numbers of the requests are positions in the call list that was
  reported last (\<open>m_callIds\<close>).
\<close>

section \<open>The call list\<close>

definition CallListItem_MT :: byte where "CallListItem_MT = 2"

definition call_of_item :: "object \<Rightarrow> ril_call" where
  "call_of_item item =
     (let numberLength = unat (member_u8 item ''numberLength'');
          number = (if numberLength = 0 then None
                    else Some (take numberLength (member_bytes item ''number'')))
      in \<lparr>call_state = max 0 (uint (member_u8 item ''callState'') - 1),
          call_index = member_u8 item ''callId'',
          call_toa = (if number \<noteq> None \<and> hd (the number @ [0]) = 43 then 145 else 129),
          call_isMpty = (member_u8 item ''isMultiParty'' \<noteq> 0),
          call_isMT = (member_u8 item ''direction'' = CallListItem_MT),
          call_als = 0,
          call_isVoice = (member_u16 item ''callType'' < 0x102 \<or> member_u16 item ''callType'' = 0x700),
          call_isVoicePrivacy = False,
          call_number = map_option c_str number,
          call_numberPresentation = 0,
          call_name = None,
          call_namePresentation = 2\<rparr>)"

text \<open>
  The loop runs to the member \<open>count\<close>, and \<open>callList()\<close> has to have that many items; of each item
  \<open>numberLength\<close> bytes of the number are copied, and the number has to have that many.
\<close>

definition number_read :: "object \<Rightarrow> bool" where
  "number_read item \<longleftrightarrow> unat (member_u8 item ''numberLength'') \<le> length (member_bytes item ''number'')"

definition handleCurrentCalls :: "request \<Rightarrow> ril \<Rightarrow> process" where
  "handleCurrentCalls request s =
     query group_CALL ''GET_CALL_LIST_REPLY'' (outgoing group_CALL ''GET_CALL_LIST'' []) request s
       (\<lambda>reply s.
         let count = unat (member_u8 reply ''count''); items = member_items reply ''callList'' in
         if length items < count \<or> \<not> list_all number_read (take count items) then Inl Undefined
         else let calls = map call_of_item (take count items) in
           Inr (Request_complete request RIL_E_SUCCESS (Calls_response calls) (sizeof_pointer * count)
             (s\<lparr>m_callIds := map call_index calls\<rparr>)))"

section \<open>Dialling\<close>

text \<open>The extension is what follows the first slash.\<close>

definition split_extension :: "byte list \<Rightarrow> byte list \<times> byte list option" where
  "split_extension s =
     (let number = takeWhile (\<lambda>b. b \<noteq> 47) s
      in (number, if 47 \<in> set s then Some (drop (length number + 1) s) else None))"

definition CallOriginate_Normal :: u16 where "CallOriginate_Normal = 0x100"
definition CallOriginate_International :: byte where "CallOriginate_International = 0x11"
definition CallOriginate_Unknown :: byte where "CallOriginate_Unknown = 0x21"

definition dial_arg :: "request \<Rightarrow> dial outcome" where
  "dial_arg request = (case r_data request of Dial_data d \<Rightarrow> Inr d | _ \<Rightarrow> Inl Undefined)"

definition originate :: "dial \<Rightarrow> wire_message" where
  "originate d =
     (let (number, extension) = split_extension (c_str (address d)); len = min 82 (length number)
      in outgoing group_CALL ''ORIGINATE''
        [(''type'', VU16 CallOriginate_Normal),
         (''allowCLI'', VU8 (word_of_int (clir d))),
         (''numberLength'', VU8 (of_nat len)),
         (''numberType'', VU8 (if hd (number @ [0]) = 43 then CallOriginate_International
            else CallOriginate_Unknown)),
         (''number'', VBytes (resize 82 (take len number))),
         (''reserved'', VU32 0),
         (''extension'', VU8 (case extension of None \<Rightarrow> 0 | Some e \<Rightarrow> word_of_int (atoi e)))])"

definition handleDial :: "request \<Rightarrow> ril \<Rightarrow> process" where
  "handleDial request s = with_arg (dial_arg request) (\<lambda>d. run_command (originate d) request s)"

definition handle_CallIncoming :: "wire_message \<Rightarrow> ril \<Rightarrow> process" where
  "handle_CallIncoming m s =
     Finished (unsolicited RIL_UNSOL_RESPONSE_CALL_STATE_CHANGED No_response 0
       (unsolicited RIL_UNSOL_CALL_RING No_response 0 s))"

section \<open>Why the last call ended\<close>

definition mapCallFail :: "byte \<Rightarrow> byte \<Rightarrow> call_fail_cause" where
  "mapCallFail cause1 cause2 =
     (if cause1 = 2 \<or> cause1 = 4 \<or> cause1 = 5 \<or> cause1 = 8 then CALL_FAIL_ERROR_UNSPECIFIED
      else if cause1 = 3 then CALL_FAIL_CONGESTION
      else if cause1 = 6 then CALL_FAIL_ACM_LIMIT_EXCEEDED
      else if cause1 = 10 then CALL_FAIL_CALL_BARRED
      else if cause2 = 1 then CALL_FAIL_UNOBTAINABLE_NUMBER
      else if cause2 = 4 then CALL_FAIL_CALL_BARRED
      else if cause2 = 6 then CALL_FAIL_BUSY
      else if cause2 = 7 then Fail_cause 18
      else if cause2 = 8 then Fail_cause 19
      else if cause2 = 9 \<or> cause2 = 16 then CALL_FAIL_ERROR_UNSPECIFIED
      else if cause2 = 20 then CALL_FAIL_CONGESTION
      else if cause2 = 27 then Fail_cause 57
      else if cause2 = 31 then CALL_FAIL_ACM_LIMIT_EXCEEDED
      else if cause2 = 32 then Fail_cause 69
      else if cause2 = 37 then Fail_cause 88
      else CALL_FAIL_NORMAL)"

definition handle_CallStateChanged :: "wire_message \<Rightarrow> ril \<Rightarrow> process" where
  "handle_CallStateChanged m s =
     Finished (unsolicited RIL_UNSOL_RESPONSE_CALL_STATE_CHANGED No_response 0
       (s\<lparr>m_lastCallFailCause := mapCallFail (member_u8 (w_object m) ''releaseCause1'')
           (member_u8 (w_object m) ''releaseCause2'')\<rparr>))"

definition handleLastCallFailCause :: "request \<Rightarrow> ril \<Rightarrow> process" where
  "handleLastCallFailCause request s =
     Finished (Request_complete request RIL_E_SUCCESS (Cause_response (m_lastCallFailCause s)) sizeof_int s)"

section \<open>Managing calls\<close>

datatype call_command = HangupWaitingOrBackground | HangupForegroundResumeBackground
  | HangupSpecificCall | SwitchWaitingOrHoldingAndActive | SeparateConnection | Conference
  | ExplicitCallTransfer

fun call_command_code :: "call_command \<Rightarrow> byte" where
  "call_command_code HangupWaitingOrBackground = 1"
| "call_command_code HangupForegroundResumeBackground = 2"
| "call_command_code HangupSpecificCall = 3"
| "call_command_code SwitchWaitingOrHoldingAndActive = 4"
| "call_command_code SeparateConnection = 5"
| "call_command_code Conference = 6"
| "call_command_code ExplicitCallTransfer = 7"

text \<open>\<open>SsManageCall\<close> also sends a data field that nobody fills in.\<close>

definition manage_call :: "platform \<Rightarrow> call_command \<Rightarrow> byte \<Rightarrow> wire_message" where
  "manage_call p command callId =
     outgoing group_SS ''MANAGE_CALL''
       [(''callCommand'', VU8 (call_command_code command)), (''callId'', VU8 callId),
        (''reserved'', VBytes (resize 83 (uninitialised p 83)))]"

text \<open>
  The identifier on a line: \<open>None\<close> when the line is past the list.  Only the upper bound is
  tested; a negative index reads in front of the vector.
\<close>

definition call_on_line :: "byte list \<Rightarrow> int \<Rightarrow> byte option outcome" where
  "call_on_line callIds lineIndex =
     (if lineIndex \<ge> int (length callIds) then Inr None
      else if lineIndex < 0 then Inl Undefined
      else Inr (Some (callIds ! nat lineIndex)))"

definition genericHangup ::
    "platform \<Rightarrow> request \<Rightarrow> call_command \<Rightarrow> bool \<Rightarrow> ril \<Rightarrow> process"
where
  "genericHangup p request command useValidCallId s =
     (let calls = length (m_callIds s) in
      if calls = 0 then Finished (completed request RIL_E_GENERIC_FAILURE s)
      else if calls = 1 then run_command (outgoing group_CALL ''RELEASE'' []) request s
      else if useValidCallId then
        with_arg (int_arg request) (\<lambda>line.
          with_arg (call_on_line (m_callIds s) (line - 1)) (\<lambda>callId.
            case callId of
              None \<Rightarrow> Finished (completed request RIL_E_GENERIC_FAILURE s)
            | Some callId \<Rightarrow> run_command (manage_call p command callId) request s))
      else run_command (manage_call p command 0) request s)"

definition handleHangup :: "platform \<Rightarrow> request \<Rightarrow> ril \<Rightarrow> process" where
  "handleHangup p request s = genericHangup p request HangupSpecificCall True s"

definition handleHangupWaitingOrBackground :: "platform \<Rightarrow> request \<Rightarrow> ril \<Rightarrow> process" where
  "handleHangupWaitingOrBackground p request s =
     genericHangup p request HangupWaitingOrBackground False s"

definition handleHangupForegroundResumeBackground :: "platform \<Rightarrow> request \<Rightarrow> ril \<Rightarrow> process" where
  "handleHangupForegroundResumeBackground p request s =
     genericHangup p request HangupForegroundResumeBackground False s"

definition handleAnswer :: "request \<Rightarrow> ril \<Rightarrow> process" where
  "handleAnswer request s =
     (if m_callIds s \<noteq> [] then run_command (outgoing group_CALL ''ANSWER'' []) request s
      else Finished (completed request RIL_E_GENERIC_FAILURE s))"

definition handleSwitchWaitingOrHoldingAndActive :: "platform \<Rightarrow> request \<Rightarrow> ril \<Rightarrow> process" where
  "handleSwitchWaitingOrHoldingAndActive p request s =
     run_command (manage_call p SwitchWaitingOrHoldingAndActive 0) request s"

definition handleConference :: "platform \<Rightarrow> request \<Rightarrow> ril \<Rightarrow> process" where
  "handleConference p request s = run_command (manage_call p Conference 0) request s"

definition handleUDUB :: "platform \<Rightarrow> request \<Rightarrow> ril \<Rightarrow> process" where
  "handleUDUB p request s = run_command (manage_call p HangupWaitingOrBackground 0) request s"

definition handleSeparateConnection :: "platform \<Rightarrow> request \<Rightarrow> ril \<Rightarrow> process" where
  "handleSeparateConnection p request s =
     with_arg (int_arg request) (\<lambda>line.
       with_arg (call_on_line (m_callIds s) (line - 1)) (\<lambda>callId.
         case callId of
           None \<Rightarrow> Finished (completed request RIL_E_GENERIC_FAILURE s)
         | Some callId \<Rightarrow> run_command (manage_call p SeparateConnection callId) request s))"

definition handleExplicitCallTransfer :: "platform \<Rightarrow> request \<Rightarrow> ril \<Rightarrow> process" where
  "handleExplicitCallTransfer p request s =
     run_command (manage_call p ExplicitCallTransfer 0) request s"

section \<open>DTMF\<close>

definition handleDTMF :: "request \<Rightarrow> ril \<Rightarrow> process" where
  "handleDTMF request s =
     with_arg (chars_arg request) (\<lambda>str.
       let len = min 82 (length str) in
       run_command (outgoing group_CALL ''SEND_BURST_DTMF''
         [(''unknown1'', VU8 0x01), (''length'', VU8 (of_nat len)),
          (''data'', VBytes (resize 82 (take len str)))]) request s)"

definition continuousDTMF :: "request \<Rightarrow> byte \<Rightarrow> ril \<Rightarrow> process" where
  "continuousDTMF request tone s =
     run_command (outgoing group_CALL ''CONTINUOUS_DTMF''
       (if tone \<noteq> 0 then [(''action'', VU8 1), (''tone'', VU8 tone)]
        else [(''action'', VU8 0), (''tone'', VU8 0)])) request s"

definition handleDTMFStart :: "request \<Rightarrow> ril \<Rightarrow> process" where
  "handleDTMFStart request s =
     with_arg (chars_arg request) (\<lambda>str. continuousDTMF request (hd (str @ [0])) s)"

definition handleDTMFStop :: "request \<Rightarrow> ril \<Rightarrow> process" where
  "handleDTMFStop request s = continuousDTMF request 0 s"

section \<open>Properties\<close>

lemma manage_call_inject: "manage_call p command a = manage_call p command b \<longleftrightarrow> a = b"
  by (simp add: manage_call_def outgoing_def)

lemma run_command_inject: "run_command m r s = run_command m' r s \<longleftrightarrow> m = m'"
  by (auto simp: run_command_def)

text \<open>
  C19. Android hangs up a call by the index that the call list reported for it, which is the
  identifier the modem gave the call; the handler takes it for a position in the list.  With several
  calls the request reaches the call it names exactly when the identifier of that call is its
  position, counted from 1.
\<close>

theorem hangup_addresses_call:
  assumes "length (m_callIds s) \<ge> 2" and "distinct (m_callIds s)" and "i < length (m_callIds s)"
    and "r_data r = Ints_data [uint (m_callIds s ! i)]"
  shows "handleHangup p r s = run_command (manage_call p HangupSpecificCall (m_callIds s ! i)) r s \<longleftrightarrow>
    uint (m_callIds s ! i) = int i + 1"
proof -
  let ?ids = "m_callIds s" and ?line = "uint (m_callIds s ! i) - 1"
  have h: "handleHangup p r s = with_arg (call_on_line ?ids ?line) (\<lambda>callId.
      case callId of
        None \<Rightarrow> Finished (completed r RIL_E_GENERIC_FAILURE s)
      | Some callId \<Rightarrow> run_command (manage_call p HangupSpecificCall callId) r s)"
    using assms(1,4) by (auto simp: handleHangup_def genericHangup_def Let_def int_arg_def)
  consider "?line \<ge> int (length ?ids)" | "?line < 0" | "0 \<le> ?line" "?line < int (length ?ids)"
    by linarith
  then show ?thesis
  proof cases
    case 1
    then show ?thesis
      using assms(3) by (simp add: h call_on_line_def run_command_def)
  next
    case 2
    then show ?thesis
      using assms(1) by (auto simp: h call_on_line_def run_command_def)
  next
    case 3
    then have "handleHangup p r s = run_command (manage_call p HangupSpecificCall (?ids ! nat ?line)) r s"
      by (simp add: h call_on_line_def)
    then have "handleHangup p r s = run_command (manage_call p HangupSpecificCall (?ids ! i)) r s \<longleftrightarrow>
        ?ids ! nat ?line = ?ids ! i"
      by (simp add: run_command_inject manage_call_inject)
    also have "\<dots> \<longleftrightarrow> nat ?line = i"
      using 3 assms(2,3) by (simp add: nth_eq_iff_index_eq nat_less_iff)
    also have "\<dots> \<longleftrightarrow> uint (?ids ! i) = int i + 1"
      using 3 by linarith
    finally show ?thesis .
  qed
qed

theorem hangup_addresses_call_witness:
  "let s = initial_ril\<lparr>m_callIds := [2, 3]\<rparr>;
       r = \<lparr>r_code = 12, r_data = Ints_data [2], r_data_size = 4, r_token = 0\<rparr>;
       p = \<lparr>sqlite = (\<lambda>h c. SQLITE_OK), property_get = (\<lambda>h c. None), uninitialised = (\<lambda>n. []),
         sizeof_card_status = 0, sizeof_signal_strength = 0\<rparr>
   in handleHangup p r s \<noteq> run_command (manage_call p HangupSpecificCall 2) r s"
proof -
  define s where "s = initial_ril\<lparr>m_callIds := [2, 3]\<rparr>"
  define r where "r = \<lparr>r_code = 12, r_data = Ints_data [2], r_data_size = 4, r_token = 0\<rparr>"
  have "handleHangup p r s \<noteq> run_command (manage_call p HangupSpecificCall 2) r s" for p
    using hangup_addresses_call [of s 0 r p] by (simp add: s_def r_def)
  then show ?thesis by (simp add: Let_def s_def r_def)
qed

end
