(* ===== verification/RIL_Security.thy ===== *)
theory RIL_Security
  imports RIL
begin

text \<open>
  SIM requests (ril/security.cpp): the state of the card, PIN and PUK, and access to the files
  of the card, whose data crosses the interface in hexadecimal.
\<close>

section \<open>Hexadecimal data\<close>

definition hex2val :: "byte \<Rightarrow> int" where
  "hex2val ch =
     (if 48 \<le> ch \<and> ch \<le> 57 then uint ch - 48
      else if 97 \<le> ch \<and> ch \<le> 102 then uint ch - 97 + 10
      else if 65 \<le> ch \<and> ch \<le> 70 then uint ch - 65 + 10
      else - 1)"

definition val2hex :: "int \<Rightarrow> byte" where
  "val2hex value = (if value \<ge> 10 then word_of_int (value + 65 - 10) else word_of_int (value + 48))"

text \<open>The loop over pairs of digits; \<open>None\<close> is the return value false.\<close>

fun hex_pairs :: "byte list \<Rightarrow> byte list option" where
  "hex_pairs (h # l # rest) =
     (let upper = hex2val h; lower = hex2val l in
      if upper = - 1 \<or> lower = - 1 then None
      else map_option (\<lambda>bin. or (push_bit 4 (word_of_int upper)) (word_of_int lower) # bin) (hex_pairs rest))"
| "hex_pairs _ = Some []"

definition hex2bin :: "byte list \<Rightarrow> byte list option" where
  "hex2bin hex = (if odd (length hex) then None else hex_pairs hex)"

definition bin2hex :: "byte list \<Rightarrow> byte list" where
  "bin2hex bin =
     concat (map (\<lambda>b. [val2hex (uint (drop_bit 4 (and b 0xF0))), val2hex (uint (and b 0x0F))]) bin)"

section \<open>The state of the card\<close>

definition PinStatus_Ready :: byte where "PinStatus_Ready = 0x00"
definition PinStatus_PINLock :: byte where "PinStatus_PINLock = 0x03"
definition PinStatus_NoSimPresent :: byte where "PinStatus_NoSimPresent = 0x80"
definition PinStatus_SimUnavailable :: byte where "PinStatus_SimUnavailable = 0x81"

definition card_status_of :: "byte \<Rightarrow> byte \<Rightarrow> card_status" where
  "card_status_of state xstate =
     (if state = PinStatus_NoSimPresent then None
      else if state = PinStatus_Ready then Some (RIL_APPSTATE_READY, RIL_PINSTATE_UNKNOWN)
      else if state = PinStatus_PINLock then
        (if xstate = 0x01 then Some (RIL_APPSTATE_PIN, RIL_PINSTATE_ENABLED_NOT_VERIFIED)
         else Some (RIL_APPSTATE_PUK, RIL_PINSTATE_ENABLED_BLOCKED))
      else Some (RIL_APPSTATE_DETECTED, RIL_PINSTATE_UNKNOWN))"

definition translateSimStatus :: "platform \<Rightarrow> byte \<Rightarrow> byte \<Rightarrow> request \<Rightarrow> ril \<Rightarrow> ril" where
  "translateSimStatus p state xstate request =
     Request_complete request RIL_E_SUCCESS (Card_response (card_status_of state xstate))
       (sizeof_card_status p)"

definition handle_SecSimCardType :: "wire_message \<Rightarrow> ril \<Rightarrow> process" where
  "handle_SecSimCardType m s = Finished s"

definition radio_state_of :: "byte \<Rightarrow> radio_state" where
  "radio_state_of state =
     (if state = PinStatus_Ready then RADIO_STATE_SIM_READY
      else if state = PinStatus_SimUnavailable then RADIO_STATE_SIM_NOT_READY
      else RADIO_STATE_SIM_LOCKED_OR_ABSENT)"

definition pin_status_received :: "object \<Rightarrow> ril \<Rightarrow> ril" where
  "pin_status_received obj = setRadioState (radio_state_of (member_u8 obj ''state''))"

definition handle_SecGetPinStatusReply :: "wire_message \<Rightarrow> ril \<Rightarrow> process" where
  "handle_SecGetPinStatusReply m s = Finished (pin_status_received (w_object m) s)"

definition handleSIMStatus :: "platform \<Rightarrow> request \<Rightarrow> ril \<Rightarrow> process" where
  "handleSIMStatus p request s =
     (if m_radioState s = RADIO_STATE_UNAVAILABLE \<or> m_radioState s = RADIO_STATE_OFF
      then Finished (translateSimStatus p PinStatus_SimUnavailable 0 request s)
      else Executing (outgoing group_SEC ''GET_PIN_STATUS'' []) s (\<lambda>reply s. finish
        (case message_cast group_SEC ''GET_PIN_STATUS_REPLY'' reply of
           None \<Rightarrow> andThen (unexpected reply) (\<lambda>_.
             Inr (translateSimStatus p PinStatus_SimUnavailable 0 request s))
         | Some m \<Rightarrow>
             Inr (pin_status_received (w_object m)
               (translateSimStatus p (member_u8 (w_object m) ''state'')
                 (member_u8 (w_object m) ''xstate'') request s)))))"

definition handlePinStatusRefreshComplete :: "wire_message option \<Rightarrow> ril \<Rightarrow> process" where
  "handlePinStatusRefreshComplete reply s =
     (case message_cast group_SEC ''GET_PIN_STATUS_REPLY'' reply of
        None \<Rightarrow> finish (andThen (unexpected reply) (\<lambda>_. Inr s))
      | Some m \<Rightarrow> handle_SecGetPinStatusReply m s)"

section \<open>PIN and PUK\<close>

datatype lock_type = Pin | Pin2

fun lock_code :: "lock_type \<Rightarrow> byte" where
  "lock_code Pin = 0x03"
| "lock_code Pin2 = 0x09"

text \<open>
  A null pointer stands for no digits: copying none of them (\<open>memcpy\<close> of length 0 from the null pointer,
  which every entry of a PIN does) is taken to do nothing, as every implementation has it.
\<close>

definition setPinStatus ::
    "request \<Rightarrow> byte list option \<Rightarrow> byte list option \<Rightarrow> lock_type \<Rightarrow> ril \<Rightarrow> process"
where
  "setPinStatus request pin puk op s =
     (let pin = (case pin of None \<Rightarrow> [] | Some p \<Rightarrow> p); puk = (case puk of None \<Rightarrow> [] | Some p \<Rightarrow> p) in
      if length pin > 8 \<or> length puk > 8 then Finished (completed request RIL_E_GENERIC_FAILURE s)
      else run_command (outgoing group_SEC ''SET_PIN_STATUS''
        [(''type'', VU8 (lock_code op)), (''pin1Length'', VU8 (of_nat (length pin))),
         (''pin2Length'', VU8 (of_nat (length puk))),
         (''pin1'', VBytes (resize 8 pin)), (''pin2'', VBytes (resize 8 puk))]) request s)"

text \<open>Here a null pointer is dereferenced.\<close>

definition changeLockPwd ::
    "request \<Rightarrow> byte list option \<Rightarrow> byte list option \<Rightarrow> lock_type \<Rightarrow> ril \<Rightarrow> process"
where
  "changeLockPwd request currentPwd newPwd op s =
     (case (currentPwd, newPwd) of
        (Some current, Some new) \<Rightarrow>
          if length current > 39 \<or> length new > 39
          then Finished (completed request RIL_E_GENERIC_FAILURE s)
          else run_command (outgoing group_SEC ''CHANGE_LOCK_PWD''
            [(''type'', VU8 (lock_code op)), (''currentLength'', VU8 (of_nat (length current))),
             (''newLength'', VU8 (of_nat (length new))),
             (''currentPwd'', VBytes (resize 39 current)), (''newPwd'', VBytes (resize 39 new))])
            request s
      | _ \<Rightarrow> Faulted Undefined)"

definition handleEnterSIMPin :: "request \<Rightarrow> ril \<Rightarrow> process" where
  "handleEnterSIMPin request s =
     with_arg (strings_arg request 0) (\<lambda>pin. setPinStatus request pin None Pin s)"

definition handleEnterSIMPuk :: "request \<Rightarrow> ril \<Rightarrow> process" where
  "handleEnterSIMPuk request s =
     with_arg (strings_arg request 0) (\<lambda>pin. with_arg (strings_arg request 1) (\<lambda>puk.
       setPinStatus request pin puk Pin s))"

definition handleEnterSIMPin2 :: "request \<Rightarrow> ril \<Rightarrow> process" where
  "handleEnterSIMPin2 request s =
     with_arg (strings_arg request 0) (\<lambda>pin. setPinStatus request pin None Pin2 s)"

definition handleEnterSIMPuk2 :: "request \<Rightarrow> ril \<Rightarrow> process" where
  "handleEnterSIMPuk2 request s =
     with_arg (strings_arg request 0) (\<lambda>pin. with_arg (strings_arg request 1) (\<lambda>puk.
       setPinStatus request pin puk Pin2 s))"

definition handleChangeSIMPin :: "request \<Rightarrow> ril \<Rightarrow> process" where
  "handleChangeSIMPin request s =
     with_arg (strings_arg request 0) (\<lambda>old. with_arg (strings_arg request 1) (\<lambda>new.
       changeLockPwd request old new Pin s))"

definition handleChangeSIMPin2 :: "request \<Rightarrow> ril \<Rightarrow> process" where
  "handleChangeSIMPin2 request s =
     with_arg (strings_arg request 0) (\<lambda>old. with_arg (strings_arg request 1) (\<lambda>new.
       changeLockPwd request old new Pin2 s))"

section \<open>Files of the card\<close>

definition sim_io_arg :: "request \<Rightarrow> sim_io outcome" where
  "sim_io_arg request = (case r_data request of Sim_io_data io \<Rightarrow> Inr io | _ \<Rightarrow> Inl Undefined)"

text \<open>Updates of the file 6F3B are only logged: the request is not completed.\<close>

definition is_fdn_update :: "sim_io \<Rightarrow> bool" where
  "is_fdn_update io \<longleftrightarrow> (io_command io = 0xD6 \<or> io_command io = 0xDC) \<and> io_fileid io = 0x6F3B"

definition sim_data :: "sim_io \<Rightarrow> byte list option" where
  "sim_data io = (case io_data io of None \<Rightarrow> Some [] | Some hex \<Rightarrow> hex2bin (c_str hex))"

definition rsim_access :: "sim_io \<Rightarrow> byte list \<Rightarrow> wire_message" where
  "rsim_access io data =
     outgoing group_SEC ''RSIM_ACCESS''
       [(''cmd'', VU8 (word_of_int (io_command io))), (''fileId'', VU16 (word_of_int (io_fileid io))),
        (''p1'', VU8 (word_of_int (io_p1 io))), (''p2'', VU8 (word_of_int (io_p2 io))),
        (''p3'', VU8 (word_of_int (io_p3 io))), (''data'', VBytes data)]"

definition sim_response :: "object \<Rightarrow> sim_io_response" where
  "sim_response reply =
     \<lparr>sw1 = member_u8 reply ''sw1'', sw2 = member_u8 reply ''sw2'',
      simResponse = (let data = member_bytes reply ''data'' in
        if data = [] then None else Some (bin2hex data))\<rparr>"

definition sizeof_sim_io_response :: nat where "sizeof_sim_io_response = 12"

definition handleSIM_IO :: "request \<Rightarrow> ril \<Rightarrow> process" where
  "handleSIM_IO request s =
     with_arg (sim_io_arg request) (\<lambda>io.
       if is_fdn_update io then Finished s
       else case sim_data io of
         None \<Rightarrow> Finished (completed request RIL_E_GENERIC_FAILURE s)
       | Some data \<Rightarrow>
           query group_SEC ''RSIM_ACCESS_REPLY'' (rsim_access io data) request s (\<lambda>reply s.
             Inr (Request_complete request RIL_E_SUCCESS (Sim_response (sim_response reply))
               sizeof_sim_io_response s)))"

section \<open>Properties\<close>

lemma hex_digit: "0 \<le> v \<Longrightarrow> v < 16 \<Longrightarrow> hex2val (val2hex v) = v"
proof -
  assume "0 \<le> v" "v < 16"
  then have "v \<in> set [0..15]" by simp
  moreover have "\<forall>v \<in> set [0..15]. hex2val (val2hex v) = v"
    by (simp add: hex2val_def val2hex_def word_le_def upto_rec1)
  ultimately show ?thesis by blast
qed

lemma nibbles:
  fixes b :: byte
  shows "and b 0x0F = take_bit 4 b" "drop_bit 4 (and b 0xF0) = drop_bit 4 b"
proof -
  have m: "(0x0F :: byte) = mask 4" "(0xF0 :: byte) = push_bit 4 (mask 4)"
    by (simp_all add: mask_eq_exp_minus_1)
  show "and b 0x0F = take_bit 4 b"
    unfolding m by (rule bit_word_eqI) (auto simp: bit_simps)
  show "drop_bit 4 (and b 0xF0) = drop_bit 4 b"
    unfolding m by (rule bit_word_eqI) (auto simp: bit_simps dest: bit_imp_le_length)
qed

lemma bin2hex_nibbles:
  "bin2hex bin = concat (map (\<lambda>b. [val2hex (uint (drop_bit 4 b)), val2hex (uint (take_bit 4 b))]) bin)"
  by (simp only: bin2hex_def nibbles)

lemma uint_not_minus_one: "uint (w :: byte) \<noteq> - 1"
  using uint_ge_0 [of w] by linarith

lemma nibble_bounds:
  fixes b :: byte
  shows "uint (drop_bit 4 b) < 16" "uint (take_bit 4 b) < 16"
proof -
  have "uint (drop_bit 4 b) = uint b div 16"
    by (simp add: drop_bit_eq_div uint_div)
  then show "uint (drop_bit 4 b) < 16"
    using uint_lt2p [of b] by simp
  have "uint (take_bit 4 b) = uint b mod 16"
    by (simp add: take_bit_eq_mod uint_mod)
  then show "uint (take_bit 4 b) < 16"
    by simp
qed

text \<open>
  What the SIM sends back to Android can be sent to the SIM again: decoding the hexadecimal
  string that encodes a byte string gives that byte string, and every string the decoder accepts
  has two digits per byte.
\<close>

theorem hex_round_trip:
  "hex2bin (bin2hex bin) = Some bin \<and> length (bin2hex bin) = 2 * length bin"
proof -
  have "or (push_bit 4 (drop_bit 4 b)) (take_bit 4 b) = b" for b :: byte
    by (rule bit_word_eqI) (auto simp: bit_simps)
  then have "hex_pairs (bin2hex bin) = Some bin"
    by (induction bin) (simp_all add: bin2hex_nibbles hex_digit nibble_bounds uint_not_minus_one Let_def)
  moreover have "length (bin2hex bin) = 2 * length bin"
    by (induction bin) (simp_all add: bin2hex_def)
  ultimately show ?thesis by (simp add: hex2bin_def)
qed

end
