(* ===== verification/RIL_Phone.thy ===== *)
theory RIL_Phone
  imports RIL_Security
begin

text \<open>
  The phone itself: power (ril/power.cpp), identity (ril/misc.cpp), screen and signal strength
  (ril/display.cpp), and the microphone (ril/snd.cpp).
\<close>

section \<open>Power\<close>

definition handle_PwrPhoneBootComplete :: "wire_message \<Rightarrow> ril \<Rightarrow> process" where
  "handle_PwrPhoneBootComplete m s =
     Finished (setRadioState RADIO_STATE_OFF
       (RIL_submit (outgoing group_MISC ''SET_DEBUG_LEVEL'' [(''level'', VU8 2)]) Unsubscribed s))"

definition handle_PwrPhonePoweredOff :: "wire_message \<Rightarrow> ril \<Rightarrow> process" where
  "handle_PwrPhonePoweredOff m s = Finished s"

definition handle_PwrPhoneReset :: "wire_message \<Rightarrow> ril \<Rightarrow> process" where
  "handle_PwrPhoneReset m s = Exited 0"

definition PwrPhoneMode_LPM :: byte where "PwrPhoneMode_LPM = 1"
definition PwrPhoneMode_Normal :: byte where "PwrPhoneMode_Normal = 2"

definition handle_PwrPhoneModeChanged :: "wire_message \<Rightarrow> ril \<Rightarrow> process" where
  "handle_PwrPhoneModeChanged m s =
     (let mode = member_u8 (w_object m) ''mode'' in
      if mode = PwrPhoneMode_Normal
      then Finished (RIL_submit (outgoing group_SEC ''GET_PIN_STATUS'' []) PinStatusRefreshComplete s)
      else if mode = PwrPhoneMode_LPM then Finished (cache_flush (setRadioState RADIO_STATE_OFF s))
      else Finished s)"

definition handleRadioPowerSetModeComplete :: "request \<Rightarrow> wire_message option \<Rightarrow> ril \<Rightarrow> process" where
  "handleRadioPowerSetModeComplete request reply s =
     finish (andThen (completeGenCommand reply (Some request) s) (\<lambda>(ok, s). Inr s))"

text \<open>\<open>property_get\<close> with the default ''0''.\<close>

definition device_off_requested :: "platform \<Rightarrow> ril \<Rightarrow> bool \<times> ril" where
  "device_off_requested p s =
     (let key = Property_get ''sys.deviceOffReq'';
          value = (case property_get p (ril_effects s) key of None \<Rightarrow> lit ''0'' | Some v \<Rightarrow> c_str v)
      in (atoi value \<noteq> 0, effect key s))"

definition set_phone_mode :: "bool \<Rightarrow> wire_message" where
  "set_phone_mode on =
     outgoing group_PWR ''PHONE_SET_MODE''
       (if on then [(''mode'', VU8 PwrPhoneMode_Normal), (''flags'', VU8 0x02)]
        else [(''mode'', VU8 PwrPhoneMode_LPM), (''flags'', VU8 0x00)])"

definition handleRadioPower :: "platform \<Rightarrow> request \<Rightarrow> ril \<Rightarrow> process" where
  "handleRadioPower p request s =
     (if r_data_size request \<noteq> sizeof_int then Finished (completed request RIL_E_GENERIC_FAILURE s)
      else with_arg (int_arg request) (\<lambda>i.
        let on = i \<noteq> 0 in
        if on \<and> m_radioState s \<noteq> RADIO_STATE_OFF \<or> \<not> on \<and> m_radioState s = RADIO_STATE_OFF
        then Finished (completed request RIL_E_SUCCESS s)
        else let (shutdown, s) = device_off_requested p s in
          if on \<or> \<not> shutdown
          then Finished (RIL_submit (set_phone_mode on) (RadioPowerSetModeComplete request) s)
          else Executing (outgoing group_PWR ''PHONE_POWER_OFF'' []) s (\<lambda>reply s. finish
            (andThen (completeGenCommand reply (Some request) s) (\<lambda>(ok, s).
              Inr (if ok then setRadioState RADIO_STATE_UNAVAILABLE s else s))))))"

section \<open>Identity\<close>

definition handleBasebandVersion :: "request \<Rightarrow> ril \<Rightarrow> process" where
  "handleBasebandVersion request s =
     cached_query ''basebandVersion'' group_MISC ''GET_MOBILE_EQUIP_VERSION_REPLY''
       (outgoing group_MISC ''GET_MOBILE_EQUIP_VERSION'' [(''reserved'', VU8 0xFF)]) request s (\<lambda>reply s.
         Inr (Request_complete request RIL_E_SUCCESS
           (Chars_response (c_str (member_bytes reply ''softwareVersion''))) sizeof_pointer s))"

definition handleIMEI :: "request \<Rightarrow> ril \<Rightarrow> process" where
  "handleIMEI request s =
     cached_query ''imei'' group_MISC ''GET_MOBILE_EQUIP_SERIAL_NUMBER_REPLY''
       (outgoing group_MISC ''GET_MOBILE_EQUIP_SERIAL_NUMBER'' [(''reserved'', VU8 0x01)]) request s
       (\<lambda>reply s.
         if member_u8 reply ''stringLength'' \<ge> 32 then Inr (completed request RIL_E_GENERIC_FAILURE s)
         else Inr (Request_complete request RIL_E_SUCCESS
           (Chars_response (c_str (member_bytes reply ''serial''))) sizeof_pointer s))"

definition handleIMEISV :: "request \<Rightarrow> ril \<Rightarrow> process" where
  "handleIMEISV request s =
     Finished (Request_complete request RIL_E_SUCCESS (Chars_response (lit ''01'')) sizeof_pointer s)"

definition handleIMSI :: "request \<Rightarrow> ril \<Rightarrow> process" where
  "handleIMSI request s =
     (if m_radioState s \<noteq> RADIO_STATE_SIM_READY then Finished (completed request RIL_E_GENERIC_FAILURE s)
      else cached_query ''imsi'' group_MISC ''GET_MOBILE_EQUIP_IMSI_REPLY''
        (outgoing group_MISC ''GET_MOBILE_EQUIP_IMSI'' []) request s (\<lambda>reply s.
          Inr (Request_complete request RIL_E_SUCCESS
            (Chars_response (c_str (member_bytes reply ''imsi''))) sizeof_pointer s)))"

definition handle_MiscGetMobileEquipImsiReply :: "wire_message \<Rightarrow> ril \<Rightarrow> process" where
  "handle_MiscGetMobileEquipImsiReply m s = Finished (cache_put ''imsi'' m s)"

section \<open>Screen and signal strength\<close>

definition handleScreenState :: "request \<Rightarrow> ril \<Rightarrow> process" where
  "handleScreenState request s = Finished (completed request RIL_E_SUCCESS s)"

definition buildSignalStrength :: "int \<Rightarrow> signal_strength" where
  "buildSignalStrength rssi =
     \<lparr>gw_signalStrength = rssi, gw_bitErrorRate = 99, lte_signalStrength = - 1, lte_rsrp = - 1,
      lte_rsrq = - 1, lte_rssnr = 2 ^ 31 - 1, lte_cqi = - 1\<rparr>"

text \<open>The product is not negative, so C's division is the one of HOL.\<close>

definition translateBars :: "int \<Rightarrow> int" where
  "translateBars bars = (let bars = min 4 (max 0 bars) in bars * 31 div 5)"

definition handleSignalStrength :: "platform \<Rightarrow> request \<Rightarrow> ril \<Rightarrow> process" where
  "handleSignalStrength p request s =
     query group_DISP ''GET_ICON_INFORMATION_REPLY''
       (outgoing group_DISP ''GET_ICON_INFORMATION'' [(''icon'', VU8 1)]) request s (\<lambda>reply s.
         Inr (Request_complete request RIL_E_SUCCESS
           (Signal_response (buildSignalStrength (translateBars (uint (member_u8 reply ''value'')))))
           (sizeof_signal_strength p) s))"

definition handle_DispGetIconInformationReply :: "platform \<Rightarrow> wire_message \<Rightarrow> ril \<Rightarrow> process" where
  "handle_DispGetIconInformationReply p m s =
     (if and (member_u8 (w_object m) ''icon'') 1 \<noteq> 0 then
        (let rssi = translateBars (uint (member_u8 (w_object m) ''value'')) in
         Finished (unsolicited RIL_UNSOL_SIGNAL_STRENGTH (Signal_response (buildSignalStrength rssi))
           (sizeof_signal_strength p) (s\<lparr>m_coarseRSSI := rssi\<rparr>)))
      else Finished s)"

definition handle_DispRssiInformation :: "platform \<Rightarrow> wire_message \<Rightarrow> ril \<Rightarrow> process" where
  "handle_DispRssiInformation p m s =
     (if m_coarseRSSI s \<noteq> - 1 then
        Finished (unsolicited RIL_UNSOL_SIGNAL_STRENGTH
          (Signal_response (buildSignalStrength (m_coarseRSSI s))) (sizeof_signal_strength p) s)
      else Finished s)"

section \<open>The microphone\<close>

definition handleSetMute :: "request \<Rightarrow> ril \<Rightarrow> process" where
  "handleSetMute request s =
     with_arg (int_arg request) (\<lambda>mute.
       run_command (outgoing group_SND ''SET_MIC_MUTE'' [(''mute'', VU8 (of_bool (mute \<noteq> 0)))]) request s)"

definition handleGetMute :: "request \<Rightarrow> ril \<Rightarrow> process" where
  "handleGetMute request s =
     query group_SND ''GET_MIC_MUTE_REPLY'' (outgoing group_SND ''GET_MIC_MUTE'' []) request s
       (\<lambda>reply s. Inr (Request_complete request RIL_E_SUCCESS
         (Ints_response [of_bool (member_u8 reply ''mute'' \<noteq> 0)]) sizeof_int s))"

end
