(* ===== verification/RIL_Oem.thy ===== *)
theory RIL_Oem
  imports RIL
begin

text \<open>
  OEM requests: the raw hook (ril/oem.cpp), the commands behind it (ril/OemRequestHandler.cpp),
  and the unsolicited messages to the OEM service (ril/OemUnsolicitedBuilder.cpp), in the format
  of include/freeril/oem.h.  Android's \<open>Parcel\<close> is a parameter.
\<close>

section \<open>The format of OEM requests\<close>

definition OEM_SIGNATURE_LOW :: u32 where "OEM_SIGNATURE_LOW = 0x65657246"
definition OEM_SIGNATURE_HIGH :: u32 where "OEM_SIGNATURE_HIGH = 0x214c4952"

datatype oem_request = OEM_REQUEST_ATTACH_SERVICE | OEM_REQUEST_SET_LOOPBACK_TEST
  | OEM_REQUEST_SET_DHA_SOLUTION | OEM_REQUEST_SET_TWO_MIC_CONTROL | OEM_REQUEST_GET_MUTE
  | OEM_REQUEST_SET_MUTE | OEM_REQUEST_SET_CALL_RECORD | OEM_REQUEST_SET_CALL_CLOCK_SYNC
  | OEM_REQUEST_SET_VIDEO_CALL_CLOCK_SYNC | OEM_REQUEST_SET_CALL_AUDIO_PATH
  | OEM_REQUEST_SET_CALL_VOLUME | OEM_REQUEST_SAMSUNG_OEM_REQUEST
  | OEM_REQUEST_ENTER_SERVICE_MODE | OEM_REQUEST_EXIT_SERVICE_MODE
  | OEM_REQUEST_SEND_SERVICE_KEY_CODE | Unknown_oem_request

definition oem_requests :: "oem_request list" where
  "oem_requests = [OEM_REQUEST_ATTACH_SERVICE, OEM_REQUEST_SET_LOOPBACK_TEST,
     OEM_REQUEST_SET_DHA_SOLUTION, OEM_REQUEST_SET_TWO_MIC_CONTROL, OEM_REQUEST_GET_MUTE,
     OEM_REQUEST_SET_MUTE, OEM_REQUEST_SET_CALL_RECORD, OEM_REQUEST_SET_CALL_CLOCK_SYNC,
     OEM_REQUEST_SET_VIDEO_CALL_CLOCK_SYNC, OEM_REQUEST_SET_CALL_AUDIO_PATH,
     OEM_REQUEST_SET_CALL_VOLUME, OEM_REQUEST_SAMSUNG_OEM_REQUEST, OEM_REQUEST_ENTER_SERVICE_MODE,
     OEM_REQUEST_EXIT_SERVICE_MODE, OEM_REQUEST_SEND_SERVICE_KEY_CODE]"

text \<open>The enumeration starts at 1.\<close>

definition oem_request_of :: "u32 \<Rightarrow> oem_request" where
  "oem_request_of code =
     (if 1 \<le> unat code \<and> unat code \<le> length oem_requests then oem_requests ! (unat code - 1)
      else Unknown_oem_request)"

record oem_header =
  signature_low :: u32
  signature_high :: u32
  oem_code :: u32

definition oem_header_size :: nat where "oem_header_size = 12"

definition oem_header_of :: "byte list \<Rightarrow> oem_header" where
  "oem_header_of data =
     \<lparr>signature_low = de32 data, signature_high = de32 (drop 4 data), oem_code = de32 (drop 8 data)\<rparr>"

text \<open>
  The operations of \<open>android::Parcel\<close>: a string is read as UTF-16 and used as the bytes of a
  \<open>String8\<close>, and written from bytes.
\<close>

record 'p parcel_api =
  parcel_setData :: "byte list \<Rightarrow> 'p"
  parcel_new :: 'p
  parcel_readInt32 :: "'p \<Rightarrow> int \<times> 'p"
  parcel_readString :: "'p \<Rightarrow> byte list \<times> 'p"
  parcel_error :: "'p \<Rightarrow> bool"
  parcel_writeInt32 :: "int \<Rightarrow> 'p \<Rightarrow> 'p"
  parcel_writeString :: "byte list \<Rightarrow> 'p \<Rightarrow> 'p"
  parcel_data :: "'p \<Rightarrow> byte list"

section \<open>The commands\<close>

text \<open>Every command hands its return value, and the state it leaves, to the caller.\<close>

definition oem_execute :: "wire_message \<Rightarrow> ril \<Rightarrow> (bool \<Rightarrow> ril \<Rightarrow> process) \<Rightarrow> process" where
  "oem_execute m s k =
     Executing m s (\<lambda>reply s. with_arg (completeGenCommand reply None s) (\<lambda>(ok, s). k ok s))"

definition oem_handleAttachService :: "bool \<Rightarrow> bool" where
  "oem_handleAttachService attach = True"

definition oem_handleSetLoopbackTest :: "int \<Rightarrow> int \<Rightarrow> ril \<Rightarrow> (bool \<Rightarrow> ril \<Rightarrow> process) \<Rightarrow> process" where
  "oem_handleSetLoopbackTest path loopback =
     oem_execute (outgoing group_SND ''SET_LOOPBACK_CTRL'' [(''ctrl'', VU8 (word_of_int path))])"

definition oem_handleSetDhaSolution ::
    "int \<Rightarrow> int \<Rightarrow> byte list \<Rightarrow> ril \<Rightarrow> (bool \<Rightarrow> ril \<Rightarrow> process) \<Rightarrow> process"
where
  "oem_handleSetDhaSolution mode select extra =
     oem_execute (outgoing group_SND ''SET_DHA_CTRL''
       [(''mode'', VU8 (word_of_int mode)), (''select'', VU8 (word_of_int select)),
        (''parameter'', VBytes (resize 24 (take (min 24 (length extra + 1)) (extra @ [0]))))])"

definition oem_handleSetTwoMicControl :: "int \<Rightarrow> int \<Rightarrow> ril \<Rightarrow> (bool \<Rightarrow> ril \<Rightarrow> process) \<Rightarrow> process" where
  "oem_handleSetTwoMicControl param1 param2 =
     oem_execute (outgoing group_SND ''SET_TWO_MIC_CTRL''
       [(''param1'', VU8 (word_of_int param1)), (''param2'', VU8 (word_of_int param2))])"

text \<open>\<open>None\<close> for false; the reply is not freed then, nor otherwise.\<close>

definition oem_handleGetMute :: "ril \<Rightarrow> (bool option \<Rightarrow> ril \<Rightarrow> process) \<Rightarrow> process" where
  "oem_handleGetMute s k =
     Executing (outgoing group_SND ''GET_MIC_MUTE'' []) s (\<lambda>reply s.
       case message_cast group_SND ''GET_MIC_MUTE_REPLY'' reply of
         None \<Rightarrow> with_arg (unexpected reply) (\<lambda>_. k None s)
       | Some m \<Rightarrow> k (Some (member_u8 (w_object m) ''mute'' \<noteq> 0)) s)"

definition oem_handleSetMute :: "bool \<Rightarrow> ril \<Rightarrow> (bool \<Rightarrow> ril \<Rightarrow> process) \<Rightarrow> process" where
  "oem_handleSetMute muted =
     oem_execute (outgoing group_SND ''SET_MIC_MUTE'' [(''mute'', VU8 (of_bool muted))])"

definition oem_handleSetCallRecord :: "int \<Rightarrow> ril \<Rightarrow> (bool \<Rightarrow> ril \<Rightarrow> process) \<Rightarrow> process" where
  "oem_handleSetCallRecord rec =
     oem_execute (outgoing group_SND ''SET_VOICE_RECORDING_CTRL'' [(''record'', VU8 (word_of_int rec))])"

definition oem_handleSetCallClockSync :: "int \<Rightarrow> ril \<Rightarrow> (bool \<Rightarrow> ril \<Rightarrow> process) \<Rightarrow> process" where
  "oem_handleSetCallClockSync sync =
     oem_execute (outgoing group_SND ''EXEC_CLOCK_CTRL'' [(''clock'', VU8 (word_of_int sync))])"

definition oem_handleSetVideoCallClockSync :: "int \<Rightarrow> ril \<Rightarrow> (bool \<Rightarrow> ril \<Rightarrow> process) \<Rightarrow> process" where
  "oem_handleSetVideoCallClockSync sync =
     oem_execute (outgoing group_SND ''SET_VIDEO_CALL_CTRL'' [(''clock'', VU8 (word_of_int sync))])"

definition path_map :: "byte list" where "path_map = [1, 2, 6, 4, 5, 7, 8, 0]"

definition oem_handleSetCallAudioPath :: "int \<Rightarrow> int \<Rightarrow> ril \<Rightarrow> (bool \<Rightarrow> ril \<Rightarrow> process) \<Rightarrow> process" where
  "oem_handleSetCallAudioPath path extraVolume s k =
     (if path < 0 \<or> path \<ge> int (length path_map) then k False s
      else oem_execute (outgoing group_SND ''SET_AUDIO_PATH'' [(''path'', VU8 (path_map ! nat path))]) s k)"

definition device_map :: "byte list" where "device_map = [1, 17, 49, 65]"

text \<open>The test lets the length of the map through, which reads behind it.\<close>

definition oem_handleSetCallVolume :: "int \<Rightarrow> int \<Rightarrow> ril \<Rightarrow> (bool \<Rightarrow> ril \<Rightarrow> process) \<Rightarrow> process" where
  "oem_handleSetCallVolume device volume s k =
     (if device < 0 \<or> device > int (length device_map) then k False s
      else if nat device \<ge> length device_map then Faulted Undefined
      else oem_execute (outgoing group_SND ''SET_VOLUME_CTRL''
        [(''device'', VU8 (device_map ! nat device)), (''volume'', VU8 (word_of_int volume))]) s k)"

definition oem_handleSamsungOemRequest :: "'p \<Rightarrow> 'p \<Rightarrow> bool" where
  "oem_handleSamsungOemRequest request response = False"

definition oem_handleEnterServiceMode :: "int \<Rightarrow> int \<Rightarrow> ril \<Rightarrow> (bool \<Rightarrow> ril \<Rightarrow> process) \<Rightarrow> process" where
  "oem_handleEnterServiceMode modeType subType =
     oem_execute (outgoing group_SVC ''ENTER_SERVICE_MODE''
       [(''modeType'', VU8 (word_of_int modeType)),
        (''subType'', VU16 (if modeType = 1 then word_of_int (subType + 0x1000) else 0))])"

definition oem_handleExitServiceMode :: "int \<Rightarrow> ril \<Rightarrow> (bool \<Rightarrow> ril \<Rightarrow> process) \<Rightarrow> process" where
  "oem_handleExitServiceMode modeType =
     oem_execute (outgoing group_SVC ''EXIT_SERVICE_MODE'' [(''modeType'', VU8 (word_of_int modeType))])"

definition oem_handleSendServiceKeyCode :: "int \<Rightarrow> ril \<Rightarrow> (bool \<Rightarrow> ril \<Rightarrow> process) \<Rightarrow> process" where
  "oem_handleSendServiceKeyCode keyCode =
     oem_execute (outgoing group_SVC ''PROCESS_KEY_CODE'' [(''keyCode'', VU8 (word_of_int keyCode))])"

section \<open>The raw hook\<close>

definition raw_arg :: "request \<Rightarrow> byte list outcome" where
  "raw_arg request = (case r_data request of Raw_data d \<Rightarrow> Inr d | Null_data \<Rightarrow> Inr [] | _ \<Rightarrow> Inl Undefined)"

definition oem_done :: "request \<Rightarrow> bool \<Rightarrow> ril \<Rightarrow> process" where
  "oem_done request ok s =
     Finished (completed request (if ok then RIL_E_SUCCESS else RIL_E_GENERIC_FAILURE) s)"

text \<open>
  The parameters of a request are read in order; only then the error of the parcel is looked at.
\<close>

definition oem_int ::
    "'p parcel_api \<Rightarrow> 'p \<Rightarrow> request \<Rightarrow> ril \<Rightarrow> (int \<Rightarrow> ril \<Rightarrow> (bool \<Rightarrow> ril \<Rightarrow> process) \<Rightarrow> process) \<Rightarrow> process"
where
  "oem_int api parcel request s command =
     (let (a, parcel) = parcel_readInt32 api parcel in
      if parcel_error api parcel then Finished (completed request RIL_E_GENERIC_FAILURE s)
      else command a s (oem_done request))"

definition oem_ints ::
    "'p parcel_api \<Rightarrow> 'p \<Rightarrow> request \<Rightarrow> ril \<Rightarrow>
     (int \<Rightarrow> int \<Rightarrow> ril \<Rightarrow> (bool \<Rightarrow> ril \<Rightarrow> process) \<Rightarrow> process) \<Rightarrow> process"
where
  "oem_ints api parcel request s command =
     (let (a, parcel) = parcel_readInt32 api parcel; (b, parcel) = parcel_readInt32 api parcel in
      if parcel_error api parcel then Finished (completed request RIL_E_GENERIC_FAILURE s)
      else command a b s (oem_done request))"

text \<open>The commands about the call's sound and the service mode, and Samsung's own ones.\<close>

definition oem_set_call_audio_path :: "'p parcel_api \<Rightarrow> 'p \<Rightarrow> request \<Rightarrow> ril \<Rightarrow> process" where
  [simp]: "oem_set_call_audio_path api parcel request s = oem_ints api parcel request s oem_handleSetCallAudioPath"

definition oem_set_call_volume :: "'p parcel_api \<Rightarrow> 'p \<Rightarrow> request \<Rightarrow> ril \<Rightarrow> process" where
  [simp]: "oem_set_call_volume api parcel request s = oem_ints api parcel request s oem_handleSetCallVolume"

definition oem_samsung_request :: "'p parcel_api \<Rightarrow> 'p \<Rightarrow> request \<Rightarrow> ril \<Rightarrow> process" where
  [simp]: "oem_samsung_request api parcel request s =
     (let reply = parcel_new api in
      if oem_handleSamsungOemRequest parcel reply
      then Finished (Request_complete request RIL_E_SUCCESS (Raw_response (parcel_data api reply))
        (length (parcel_data api reply)) s)
      else Finished (completed request RIL_E_GENERIC_FAILURE s))"

definition oem_enter_service_mode :: "'p parcel_api \<Rightarrow> 'p \<Rightarrow> request \<Rightarrow> ril \<Rightarrow> process" where
  [simp]: "oem_enter_service_mode api parcel request s = oem_ints api parcel request s oem_handleEnterServiceMode"

definition oem_exit_service_mode :: "'p parcel_api \<Rightarrow> 'p \<Rightarrow> request \<Rightarrow> ril \<Rightarrow> process" where
  [simp]: "oem_exit_service_mode api parcel request s = oem_int api parcel request s oem_handleExitServiceMode"

definition oem_send_service_key_code :: "'p parcel_api \<Rightarrow> 'p \<Rightarrow> request \<Rightarrow> ril \<Rightarrow> process" where
  [simp]: "oem_send_service_key_code api parcel request s = oem_int api parcel request s oem_handleSendServiceKeyCode"

definition oem_unsupported :: "request \<Rightarrow> ril \<Rightarrow> process" where
  [simp]: "oem_unsupported request s = Finished (completed request RIL_E_REQUEST_NOT_SUPPORTED s)"

fun oem_dispatch :: "'p parcel_api \<Rightarrow> oem_request \<Rightarrow> 'p \<Rightarrow> request \<Rightarrow> ril \<Rightarrow> process" where
  "oem_dispatch api OEM_REQUEST_ATTACH_SERVICE parcel request s =
     oem_int api parcel request s (\<lambda>attach s k. k (oem_handleAttachService (attach \<noteq> 0)) s)"
| "oem_dispatch api OEM_REQUEST_SET_LOOPBACK_TEST parcel request s =
     oem_ints api parcel request s oem_handleSetLoopbackTest"
| "oem_dispatch api OEM_REQUEST_SET_DHA_SOLUTION parcel request s =
     (let (mode, parcel) = parcel_readInt32 api parcel; (select, parcel) = parcel_readInt32 api parcel;
          (extra, parcel) = parcel_readString api parcel in
      if parcel_error api parcel then Finished (completed request RIL_E_GENERIC_FAILURE s)
      else oem_handleSetDhaSolution mode select (c_str extra) s (oem_done request))"
| "oem_dispatch api OEM_REQUEST_SET_TWO_MIC_CONTROL parcel request s =
     oem_ints api parcel request s oem_handleSetTwoMicControl"
| "oem_dispatch api OEM_REQUEST_GET_MUTE parcel request s =
     oem_handleGetMute s (\<lambda>muted s. case muted of
         None \<Rightarrow> Finished (completed request RIL_E_GENERIC_FAILURE s)
       | Some muted \<Rightarrow>
           (let data = parcel_data api (parcel_writeInt32 api (if muted then 1 else 0) (parcel_new api))
            in Finished (Request_complete request RIL_E_SUCCESS (Raw_response data) (length data) s)))"
| "oem_dispatch api OEM_REQUEST_SET_MUTE parcel request s =
     oem_int api parcel request s (\<lambda>mute. oem_handleSetMute (mute \<noteq> 0))"
| "oem_dispatch api OEM_REQUEST_SET_CALL_RECORD parcel request s =
     oem_int api parcel request s oem_handleSetCallRecord"
| "oem_dispatch api OEM_REQUEST_SET_CALL_CLOCK_SYNC parcel request s =
     oem_int api parcel request s oem_handleSetCallClockSync"
| "oem_dispatch api OEM_REQUEST_SET_VIDEO_CALL_CLOCK_SYNC parcel request s =
     oem_int api parcel request s oem_handleSetVideoCallClockSync"
| "oem_dispatch api OEM_REQUEST_SET_CALL_AUDIO_PATH parcel request s = oem_set_call_audio_path api parcel request s"
| "oem_dispatch api OEM_REQUEST_SET_CALL_VOLUME parcel request s = oem_set_call_volume api parcel request s"
| "oem_dispatch api OEM_REQUEST_SAMSUNG_OEM_REQUEST parcel request s = oem_samsung_request api parcel request s"
| "oem_dispatch api OEM_REQUEST_ENTER_SERVICE_MODE parcel request s = oem_enter_service_mode api parcel request s"
| "oem_dispatch api OEM_REQUEST_EXIT_SERVICE_MODE parcel request s = oem_exit_service_mode api parcel request s"
| "oem_dispatch api OEM_REQUEST_SEND_SERVICE_KEY_CODE parcel request s = oem_send_service_key_code api parcel request s"
| "oem_dispatch api Unknown_oem_request parcel request s = oem_unsupported request s"

definition handleOemHookRaw :: "'p parcel_api \<Rightarrow> request \<Rightarrow> ril \<Rightarrow> process" where
  "handleOemHookRaw api request s =
     with_arg (raw_arg request) (\<lambda>data.
       let header = oem_header_of data; parcel = parcel_setData api (drop oem_header_size data);
           requestCode = oem_request_of (oem_code header)
       in if length data < oem_header_size \<or> signature_low header \<noteq> OEM_SIGNATURE_LOW \<or>
             signature_high header \<noteq> OEM_SIGNATURE_HIGH
          then Finished (completed request RIL_E_GENERIC_FAILURE s)
          else if requestCode \<noteq> OEM_REQUEST_ATTACH_SERVICE \<and>
            (m_radioState s = RADIO_STATE_UNAVAILABLE \<or> m_radioState s = RADIO_STATE_OFF)
          then Finished (completed request RIL_E_RADIO_NOT_AVAILABLE s)
          else oem_dispatch api requestCode parcel request s)"

section \<open>Unsolicited OEM messages\<close>

definition OEM_UNSOLICITED_SERVICE_COMPLETED :: int where "OEM_UNSOLICITED_SERVICE_COMPLETED = 1"
definition OEM_UNSOLICITED_SERVICE_DISPLAY :: int where "OEM_UNSOLICITED_SERVICE_DISPLAY = 2"

definition beginUnsolicited :: "'p parcel_api \<Rightarrow> int \<Rightarrow> 'p" where
  "beginUnsolicited api t =
     parcel_writeInt32 api t (parcel_writeInt32 api (sint OEM_SIGNATURE_HIGH)
       (parcel_writeInt32 api (sint OEM_SIGNATURE_LOW) (parcel_new api)))"

definition endUnsolicited :: "'p parcel_api \<Rightarrow> 'p \<Rightarrow> ril \<Rightarrow> ril" where
  "endUnsolicited api parcel s =
     unsolicited RIL_UNSOL_OEM_HOOK_RAW (Raw_response (parcel_data api parcel))
       (length (parcel_data api parcel)) s"

definition notifyServiceCompleted :: "'p parcel_api \<Rightarrow> ril \<Rightarrow> ril" where
  "notifyServiceCompleted api =
     endUnsolicited api (beginUnsolicited api OEM_UNSOLICITED_SERVICE_COMPLETED)"

definition notifyServiceDisplay :: "'p parcel_api \<Rightarrow> byte list list \<Rightarrow> ril \<Rightarrow> ril" where
  "notifyServiceDisplay api display =
     endUnsolicited api (fold (parcel_writeString api) display
       (parcel_writeInt32 api (int (length display))
         (beginUnsolicited api OEM_UNSOLICITED_SERVICE_DISPLAY)))"

text \<open>\<open>lines()\<close> has to have as many items as \<open>lineCount\<close> says.\<close>

definition handle_SvcDisplayScreen :: "'p parcel_api \<Rightarrow> wire_message \<Rightarrow> ril \<Rightarrow> process" where
  "handle_SvcDisplayScreen api m s =
     (let lineCount = unat (member_u8 (w_object m) ''lineCount'');
          items = member_items (w_object m) ''lines'';
          first = items ! 0 in
      if lineCount = 0 then Finished (notifyServiceCompleted api s)
      else if length items < lineCount then Faulted Undefined
      else if lineCount = 1 \<and> member_u8 first ''unknown1'' = 0 \<and> member_u8 first ''unknown2'' = 1
      then Finished s
      else Finished (notifyServiceDisplay api
        (map (\<lambda>line. c_str (member_bytes line ''line'')) (take lineCount items)) s))"

end
