(* ===== verification/Request_Handler.thy ===== *)
theory Request_Handler
  imports RIL_Network RIL_Call RIL_Phone RIL_Oem
begin

text \<open>
  The request handler as a whole (ril/RequestHandler.cpp): the table of handlers, the gate in
  front of it, the delivery of unsolicited messages, and the completion of submitted ones.  The
  numbers of the requests are defined in telephony/ril.h and are a parameter.
\<close>

section \<open>The numbers of the requests\<close>

datatype request_name =
    RIL_REQUEST_GET_SIM_STATUS | RIL_REQUEST_ENTER_SIM_PIN | RIL_REQUEST_ENTER_SIM_PUK
  | RIL_REQUEST_ENTER_SIM_PIN2 | RIL_REQUEST_ENTER_SIM_PUK2 | RIL_REQUEST_CHANGE_SIM_PIN
  | RIL_REQUEST_CHANGE_SIM_PIN2 | RIL_REQUEST_ENTER_NETWORK_DEPERSONALIZATION
  | RIL_REQUEST_GET_CURRENT_CALLS | RIL_REQUEST_DIAL | RIL_REQUEST_GET_IMSI
  | RIL_REQUEST_HANGUP | RIL_REQUEST_HANGUP_WAITING_OR_BACKGROUND
  | RIL_REQUEST_HANGUP_FOREGROUND_RESUME_BACKGROUND
  | RIL_REQUEST_SWITCH_WAITING_OR_HOLDING_AND_ACTIVE | RIL_REQUEST_CONFERENCE | RIL_REQUEST_UDUB
  | RIL_REQUEST_LAST_CALL_FAIL_CAUSE | RIL_REQUEST_SIGNAL_STRENGTH
  | RIL_REQUEST_VOICE_REGISTRATION_STATE | RIL_REQUEST_DATA_REGISTRATION_STATE
  | RIL_REQUEST_OPERATOR | RIL_REQUEST_RADIO_POWER | RIL_REQUEST_DTMF
  | RIL_REQUEST_SIM_IO | RIL_REQUEST_OEM_HOOK_RAW | RIL_REQUEST_QUERY_NETWORK_SELECTION_MODE
  | RIL_REQUEST_SET_NETWORK_SELECTION_AUTOMATIC | RIL_REQUEST_SET_NETWORK_SELECTION_MANUAL
  | RIL_REQUEST_QUERY_AVAILABLE_NETWORKS | RIL_REQUEST_DTMF_START | RIL_REQUEST_DTMF_STOP
  | RIL_REQUEST_BASEBAND_VERSION | RIL_REQUEST_GET_IMEI | RIL_REQUEST_GET_IMEISV
  | RIL_REQUEST_ANSWER | RIL_REQUEST_SCREEN_STATE | RIL_REQUEST_SET_BAND_MODE
  | RIL_REQUEST_QUERY_AVAILABLE_BAND_MODE | RIL_REQUEST_EXPLICIT_CALL_TRANSFER
  | RIL_REQUEST_SET_PREFERRED_NETWORK_TYPE | RIL_REQUEST_GET_PREFERRED_NETWORK_TYPE
  | RIL_REQUEST_SEPARATE_CONNECTION | RIL_REQUEST_SET_MUTE | RIL_REQUEST_GET_MUTE
  | RIL_REQUEST_STK_SEND_ENVELOPE_WITH_STATUS

type_synonym ril_abi = "request_name \<Rightarrow> int"

type_synonym handler = "request \<Rightarrow> ril \<Rightarrow> process"

definition FirstRequest :: "ril_abi \<Rightarrow> int" where "FirstRequest abi = abi RIL_REQUEST_GET_SIM_STATUS"

definition LastRequest :: "ril_abi \<Rightarrow> int" where
  "LastRequest abi = abi RIL_REQUEST_STK_SEND_ENVELOPE_WITH_STATUS"

section \<open>The table of handlers\<close>

text \<open>The initialiser of the static array, by position; the rest of the array is null.\<close>

definition initial_handlers :: "platform \<Rightarrow> handler option list" where
  "initial_handlers p =
     [Some (handleSIMStatus p), Some handleEnterSIMPin, Some handleEnterSIMPuk,
      Some handleEnterSIMPin2, Some handleEnterSIMPuk2, Some handleChangeSIMPin,
      Some handleChangeSIMPin2, None, Some handleCurrentCalls, Some handleDial, Some handleIMSI,
      Some (handleHangup p), Some (handleHangupWaitingOrBackground p),
      Some (handleHangupForegroundResumeBackground p),
      Some (handleSwitchWaitingOrHoldingAndActive p), Some (handleConference p),
      Some (handleUDUB p), Some handleLastCallFailCause, Some (handleSignalStrength p),
      Some handleVoiceRegistrationState, Some handleDataRegistrationState,
      Some (handleOperator p), Some (handleRadioPower p), Some handleDTMF]"

text \<open>The assignments of the constructor.\<close>

definition assigned_handlers :: "platform \<Rightarrow> 'p parcel_api \<Rightarrow> (request_name \<times> handler) list" where
  "assigned_handlers p api =
     [(RIL_REQUEST_SIM_IO, handleSIM_IO),
      (RIL_REQUEST_OEM_HOOK_RAW, handleOemHookRaw api),
      (RIL_REQUEST_QUERY_NETWORK_SELECTION_MODE, handleQueryNetworkSelectionMode),
      (RIL_REQUEST_SET_NETWORK_SELECTION_AUTOMATIC, handleSetNetworkSelectionAutomatic),
      (RIL_REQUEST_SET_NETWORK_SELECTION_MANUAL, handleSetNetworkSelectionManual),
      (RIL_REQUEST_QUERY_AVAILABLE_NETWORKS, handleQueryAvailableNetworks),
      (RIL_REQUEST_DTMF_START, handleDTMFStart),
      (RIL_REQUEST_DTMF_STOP, handleDTMFStop),
      (RIL_REQUEST_BASEBAND_VERSION, handleBasebandVersion),
      (RIL_REQUEST_GET_IMEI, handleIMEI),
      (RIL_REQUEST_GET_IMEISV, handleIMEISV),
      (RIL_REQUEST_ANSWER, handleAnswer),
      (RIL_REQUEST_SCREEN_STATE, handleScreenState),
      (RIL_REQUEST_SET_BAND_MODE, handleSetBandMode),
      (RIL_REQUEST_QUERY_AVAILABLE_BAND_MODE, handleQueryAvailableBandMode),
      (RIL_REQUEST_EXPLICIT_CALL_TRANSFER, handleExplicitCallTransfer p),
      (RIL_REQUEST_SET_PREFERRED_NETWORK_TYPE, handleSetPreferredNetworkType),
      (RIL_REQUEST_GET_PREFERRED_NETWORK_TYPE, handleGetPreferredNetworkType),
      (RIL_REQUEST_SEPARATE_CONNECTION, handleSeparateConnection p),
      (RIL_REQUEST_SET_MUTE, handleSetMute),
      (RIL_REQUEST_GET_MUTE, handleGetMute)]"

definition table_size :: "ril_abi \<Rightarrow> nat" where
  "table_size abi = nat (LastRequest abi - FirstRequest abi + 1)"

definition m_requestHandlers :: "ril_abi \<Rightarrow> platform \<Rightarrow> 'p parcel_api \<Rightarrow> handler option list" where
  "m_requestHandlers abi p api =
     fold (\<lambda>(name, h) table. table[nat (abi name - FirstRequest abi) := Some h])
       (assigned_handlers p api)
       (initial_handlers p @ replicate (table_size abi - length (initial_handlers p)) None)"

definition lookup_handler :: "ril_abi \<Rightarrow> platform \<Rightarrow> 'p parcel_api \<Rightarrow> int \<Rightarrow> handler option" where
  "lookup_handler abi p api code =
     (if code < FirstRequest abi \<or> code > LastRequest abi then None
      else m_requestHandlers abi p api ! nat (code - FirstRequest abi))"

definition supports :: "ril_abi \<Rightarrow> platform \<Rightarrow> 'p parcel_api \<Rightarrow> int \<Rightarrow> bool" where
  "supports abi p api code \<longleftrightarrow> lookup_handler abi p api code \<noteq> None"

section \<open>The gate\<close>

definition gated :: "ril_abi \<Rightarrow> radio_state \<Rightarrow> int \<Rightarrow> bool" where
  "gated abi state code \<longleftrightarrow>
     (state = RADIO_STATE_UNAVAILABLE \<or>
      state = RADIO_STATE_OFF \<and> code \<noteq> abi RIL_REQUEST_RADIO_POWER) \<and>
     code \<noteq> abi RIL_REQUEST_GET_SIM_STATUS \<and> code \<noteq> abi RIL_REQUEST_OEM_HOOK_RAW"

definition handle_request :: "ril_abi \<Rightarrow> platform \<Rightarrow> 'p parcel_api \<Rightarrow> request \<Rightarrow> ril \<Rightarrow> process" where
  "handle_request abi p api request s =
     (if gated abi (m_radioState s) (r_code request)
      then Finished (completed request RIL_E_RADIO_NOT_AVAILABLE s)
      else case lookup_handler abi p api (r_code request) of
        None \<Rightarrow> Finished (completed request RIL_E_REQUEST_NOT_SUPPORTED s)
      | Some handler \<Rightarrow> handler request s)"

section \<open>Messages from the modem\<close>

text \<open>The overloads of \<open>handle\<close>, by message class.\<close>

definition unsolicited_handlers ::
    "platform \<Rightarrow> 'p parcel_api \<Rightarrow> ((string \<times> string) \<times> (wire_message \<Rightarrow> ril \<Rightarrow> process)) list"
where
  "unsolicited_handlers p api =
     [((''PWR'', ''PHONE_BOOT_COMPLETE''), handle_PwrPhoneBootComplete),
      ((''PWR'', ''PHONE_POWERED_OFF''), handle_PwrPhonePoweredOff),
      ((''PWR'', ''PHONE_RESET''), handle_PwrPhoneReset),
      ((''PWR'', ''PHONE_MODE_CHANGED''), handle_PwrPhoneModeChanged),
      ((''MISC'', ''GET_MOBILE_EQUIP_IMSI_REPLY''), handle_MiscGetMobileEquipImsiReply),
      ((''SEC'', ''GET_PIN_STATUS_REPLY''), handle_SecGetPinStatusReply),
      ((''SEC'', ''SIM_CARD_TYPE''), handle_SecSimCardType),
      ((''NET'', ''GET_CURRENT_PLMN_REPLY''), handle_NetGetCurrentPlmnReply),
      ((''NET'', ''GET_NETWORK_REGISTRATION_REPLY''), handle_NetGetNetworkRegistrationReply),
      ((''DISP'', ''GET_ICON_INFORMATION_REPLY''), handle_DispGetIconInformationReply p),
      ((''DISP'', ''RSSI_INFORMATION''), handle_DispRssiInformation p),
      ((''CALL'', ''INCOMING''), handle_CallIncoming),
      ((''CALL'', ''STATE_CHANGED''), handle_CallStateChanged),
      ((''SVC'', ''DISPLAY_SCREEN''), handle_SvcDisplayScreen api)]"

text \<open>A message of another class is not delivered.\<close>

definition deliver :: "platform \<Rightarrow> 'p parcel_api \<Rightarrow> wire_message \<Rightarrow> ril \<Rightarrow> process" where
  "deliver p api m s =
     (case map_of (unsolicited_handlers p api) (g_id (w_group m), c_id (w_class m)) of
        None \<Rightarrow> Finished s
      | Some h \<Rightarrow> h m s)"

text \<open>
  \<open>Message::complete\<close>.  A message that nobody subscribed to keeps an uninitialised completion
  function, and calls it.
\<close>

fun complete_message :: "platform \<Rightarrow> subscriber \<Rightarrow> wire_message option \<Rightarrow> ril \<Rightarrow> process" where
  "complete_message p Unsubscribed reply s = Faulted Undefined"
| "complete_message p (RadioPowerSetModeComplete r) reply s = handleRadioPowerSetModeComplete r reply s"
| "complete_message p (QueryAvailableNetworksComplete r) reply s =
     handleQueryAvailableNetworksComplete p r reply s"
| "complete_message p (SetBandModeComplete r) reply s = handleSetBandModeComplete r reply s"
| "complete_message p (SetPreferredNetworkTypeComplete r) reply s =
     handleSetPreferredNetworkTypeComplete r reply s"
| "complete_message p (PLMNSelectionComplete r) reply s = setPLMNSelectionComplete r reply s"
| "complete_message p PinStatusRefreshComplete reply s = handlePinStatusRefreshComplete reply s"

end
