(* ===== verification/RIL_Requests.thy ===== *)
theory RIL_Requests
  imports Request_Handler "HOL-Library.Multiset"
begin

text \<open>
  What every handler owes: its request is completed exactly once, now or by the completion
  function of a message it submitted, and every message it hands to the modem can be marshalled.
  One lemma per handler; the section at the end puts them together over the tables.
\<close>

section \<open>Messages that can be marshalled\<close>

fun writable :: "field \<Rightarrow> member \<Rightarrow> bool" where
  "writable (Data x n) (VBytes bs) = (length bs = n)"
| "writable (U8 x) (VU8 v) = True"
| "writable (U16 x) (VU16 v) = True"
| "writable (U32 x) (VU32 v) = True"
| "writable (Vector x l) (VBytes bs) = True"
| "writable _ _ = False"

fun shaped :: "field list \<Rightarrow> object \<Rightarrow> bool" where
  "shaped [] [] = True"
| "shaped (f # fs) ((x, v) # obj) = (x = field_name f \<and> writable f v \<and> shaped fs obj)"
| "shaped _ _ = False"

definition marshals :: "wire_message \<Rightarrow> bool" where
  "marshals m \<longleftrightarrow> writeMessage wire_ops m \<noteq> None"

lemma writable_written:
  "writable f v \<Longrightarrow> \<exists>b'. write_field f v (appending b) = Some (appending b')"
  by (cases f; cases v) (auto simp: write_u8_def write_u16_def write_u32_def)

lemma shaped_written:
  "shaped fs obj \<Longrightarrow> \<exists>b'. write_fields fs obj (appending b) = Some (appending b')"
proof (induction fs obj arbitrary: b rule: shaped.induct)
  case (2 f fs x v obj)
  then obtain b1 where "write_field f v (appending b) = Some (appending b1)"
    using writable_written by fastforce
  with 2 show ?case by simp
qed auto

lemma marshals_shaped: "shaped (c_fields (w_class m)) (w_object m) \<Longrightarrow> marshals m"
  using shaped_written [of "c_fields (w_class m)" "w_object m" "[]"]
  by (auto simp: marshals_def wire_ops_def marshal_def DataStream_appending)

lemma marshals_outgoing: "shaped (c_fields (find_class Out g i)) obj \<Longrightarrow> marshals (outgoing g i obj)"
  by (rule marshals_shaped) (simp add: outgoing_def)

text \<open>
  Events are deleted once they are sent and never completed.  A message that a thread waits for, or
  that somebody has subscribed to, has to be of another kind; and a message without a subscriber has
  to be an event, because the completion of another one would call a pointer that nobody has set.
\<close>

definition expects_response :: "wire_message \<Rightarrow> bool" where
  "expects_response m \<longleftrightarrow> c_op (w_class m) \<noteq> IPC_CMD_EVENT"

definition answerable :: "wire_message \<Rightarrow> bool" where
  [simp]: "answerable m \<longleftrightarrow> marshals m \<and> expects_response m"

definition sendable :: "wire_message \<Rightarrow> subscriber \<Rightarrow> bool" where
  [simp]: "sendable m who \<longleftrightarrow> marshals m \<and> (who = Unsubscribed) = (\<not> expects_response m)"

lemma expects_outgoing:
  "c_op (find_class Out g i) \<noteq> IPC_CMD_EVENT \<Longrightarrow> expects_response (outgoing g i obj)"
  by (simp add: expects_response_def outgoing_def)

lemma expects_outgoing_iff:
  "expects_response (outgoing g i obj) \<longleftrightarrow> c_op (find_class Out g i) \<noteq> IPC_CMD_EVENT"
  by (simp add: expects_response_def outgoing_def)

lemmas sends_outgoing = marshals_outgoing expects_outgoing

lemmas find_outgoing = find_class_def group_defs

section \<open>Obligations\<close>

fun completed_token :: "ril_effect \<Rightarrow> nat option" where
  "completed_token (OnRequestComplete t e response len) = Some t"
| "completed_token _ = None"

fun pending_token :: "subscriber \<Rightarrow> nat option" where
  "pending_token Unsubscribed = None"
| "pending_token PinStatusRefreshComplete = None"
| "pending_token (RadioPowerSetModeComplete r) = Some (r_token r)"
| "pending_token (QueryAvailableNetworksComplete r) = Some (r_token r)"
| "pending_token (SetBandModeComplete r) = Some (r_token r)"
| "pending_token (SetPreferredNetworkTypeComplete r) = Some (r_token r)"
| "pending_token (PLMNSelectionComplete r) = Some (r_token r)"

definition tokens :: "nat option \<Rightarrow> nat multiset" where
  "tokens t = (case t of None \<Rightarrow> {#} | Some t \<Rightarrow> {#t#})"

lemma tokens_simps [simp]: "tokens None = {#}" "tokens (Some t) = {#t#}"
  by (simp_all add: tokens_def)

text \<open>The requests that were completed, and those that a message in flight will complete.\<close>

definition completed_requests :: "ril \<Rightarrow> nat multiset" where
  "completed_requests s = sum_list (map (\<lambda>e. tokens (completed_token e)) (ril_effects s))"

definition pending_requests :: "ril \<Rightarrow> nat multiset" where
  "pending_requests s = sum_list (map (\<lambda>(m, w). tokens (pending_token w)) (in_air s))"

definition obligations :: "ril \<Rightarrow> nat multiset" where
  "obligations s = completed_requests s + pending_requests s"

named_theorems ril_ops \<open>obligations and messages in flight after each operation\<close>

lemma obligations_updates [ril_ops]:
  "obligations (s\<lparr>m_radioState := r\<rparr>) = obligations s"
  "obligations (s\<lparr>m_cache := c\<rparr>) = obligations s"
  "obligations (s\<lparr>m_coarseRSSI := i\<rparr>) = obligations s"
  "obligations (s\<lparr>m_lastCallFailCause := f\<rparr>) = obligations s"
  "obligations (s\<lparr>m_callIds := ids\<rparr>) = obligations s"
  "obligations (effect e s) = tokens (completed_token e) + obligations s"
  "obligations (RIL_submit m w s) = obligations s + tokens (pending_token w)"
  by (simp_all add: obligations_def completed_requests_def pending_requests_def effect_def RIL_submit_def)

lemma in_air_updates [ril_ops]:
  "in_air (effect e s) = in_air s"
  "in_air (RIL_submit m w s) = in_air s @ [(m, w)]"
  by (simp_all add: effect_def RIL_submit_def)

lemma obligations_operations [ril_ops]:
  "obligations (Request_complete r e response len s) = add_mset (r_token r) (obligations s)"
  "obligations (unsolicited code response len s) = obligations s"
  "obligations (setRadioState state s) = obligations s"
  "obligations (cache_put key m s) = obligations s"
  "obligations (cache_invalidate key s) = obligations s"
  "obligations (cache_flush s) = obligations s"
  by (simp_all add: Request_complete_def unsolicited_def setRadioState_def cache_put_def
      cache_invalidate_def cache_flush_def obligations_updates)

lemma in_air_operations [ril_ops]:
  "in_air (Request_complete r e response len s) = in_air s"
  "in_air (unsolicited code response len s) = in_air s"
  "in_air (setRadioState state s) = in_air s"
  "in_air (cache_put key m s) = in_air s"
  "in_air (cache_invalidate key s) = in_air s"
  "in_air (cache_flush s) = in_air s"
  by (simp_all add: Request_complete_def unsolicited_def setRadioState_def cache_put_def
      cache_invalidate_def cache_flush_def in_air_updates)

text \<open>Obligations grow by \<open>T\<close>, and what was added to the messages in flight can be marshalled and answered.\<close>

definition owes :: "nat multiset \<Rightarrow> ril \<Rightarrow> ril \<Rightarrow> bool" where
  "owes T s s' \<longleftrightarrow>
     obligations s' = obligations s + T \<and>
     (\<exists>sent. in_air s' = in_air s @ sent \<and> (\<forall>(m, w) \<in> set sent. sendable m w))"

definition serves :: "nat multiset \<Rightarrow> process \<Rightarrow> ril \<Rightarrow> bool" where
  "serves T p s = performs answerable (owes {#}) (owes T) p s"

lemma owes_refl [simp]: "owes {#} s s"
  by (simp add: owes_def)

lemma serves_simps [simp]:
  "serves T (Finished s') s = owes T s s'"
  "serves T (Faulted f) s"
  "serves T (Exited n) s"
  by (simp_all add: serves_def)

lemma serves_Executing:
  "serves T (Executing m s' k) s \<longleftrightarrow>
     answerable m \<and> owes {#} s s' \<and> (\<forall>reply s''. serves T (k reply s'') s'')"
  by (simp add: serves_def)

lemma serves_finish: "(\<And>s'. r = Inr s' \<Longrightarrow> owes T s s') \<Longrightarrow> serves T (finish r) s"
  by (simp add: serves_def performs_finish)

lemma serves_with_arg: "(\<And>x. r = Inr x \<Longrightarrow> serves T (k x) s) \<Longrightarrow> serves T (with_arg r k) s"
  by (simp add: serves_def performs_with_arg)

text \<open>States that only differ in what happened to the same messages in flight.\<close>

lemma owes_same_air:
  "in_air s' = in_air s \<Longrightarrow> obligations s' = obligations s + T \<Longrightarrow> owes T s s'"
  by (simp add: owes_def)

lemma owes_completed [simp]: "owes {#r_token r#} s (Request_complete r e response len s)"
  by (rule owes_same_air) (simp_all add: ril_ops)

lemma owes_submitted:
  "sendable m w \<Longrightarrow> tokens (pending_token w) = T \<Longrightarrow> owes T s (RIL_submit m w s)"
  by (simp add: owes_def ril_ops)

section \<open>The common shapes\<close>

lemma completeGenCommand_cases:
  assumes "completeGenCommand reply request s = Inr (ok, s')"
  obtains e where "s' = complete_optional request e s"
  using assms by (auto simp: completeGenCommand_def andThen_eq_Inr Let_def split: option.splits if_splits)

lemma completed_after_command:
  assumes "andThen (completeGenCommand reply (Some r) s) (\<lambda>(ok, s). Inr s) = Inr s'"
  shows "owes {#r_token r#} s s'"
  using assms by (auto simp: andThen_eq_Inr elim!: completeGenCommand_cases)

lemma wrong_reply_owes:
  "wrong_reply reply r s = Inr s' \<Longrightarrow> owes {#r_token r#} s s'"
  by (auto simp: wrong_reply_def andThen_eq_Inr)

lemma serves_run_command [intro]:
  "answerable m \<Longrightarrow> serves {#r_token r#} (run_command m r s) s"
  by (auto simp: run_command_def serves_Executing intro!: serves_finish completed_after_command)

lemma serves_query [intro]:
  assumes "answerable m" and "\<And>obj s s'. k obj s = Inr s' \<Longrightarrow> owes {#r_token r#} s s'"
  shows "serves {#r_token r#} (query g i m r s k) s"
  using assms
  by (auto simp: query_def serves_Executing intro!: serves_finish intro: wrong_reply_owes
      split: option.splits)

lemma owes_after_put: "owes T (cache_put key m s) s' \<Longrightarrow> owes T s s'"
  by (simp add: owes_def ril_ops)

lemma owes_after_invalidate: "owes T (cache_invalidate key s) s' \<longleftrightarrow> owes T s s'"
  by (simp add: owes_def ril_ops)

lemma serves_cached_query [intro]:
  assumes "answerable m" and "\<And>obj s s'. k obj s = Inr s' \<Longrightarrow> owes {#r_token r#} s s'"
  shows "serves {#r_token r#} (cached_query key g i m r s k) s"
  using assms
  by (auto simp: cached_query_def serves_Executing intro!: serves_finish
      intro: wrong_reply_owes owes_after_put split: option.splits)

section \<open>Network requests\<close>

named_theorems served \<open>every handler completes its request once\<close>

lemma owes_keeps_air:
  assumes "in_air s' = in_air s" and "obligations s' = obligations s"
  shows "owes T s' s'' \<longleftrightarrow> owes T s s''"
  using assms by (simp add: owes_def)

lemma sql_unrelated:
  assumes "sql p c s = (ret, s')"
  shows "in_air s' = in_air s" and "obligations s' = obligations s"
  using assms by (auto simp: sql_def ril_ops)

lemma lookupOperator_unrelated:
  assumes "lookupOperator p mccmnc s = Inr (x, s')"
  shows "in_air s' = in_air s \<and> obligations s' = obligations s"
  using assms
  by (auto simp: lookupOperator_def lookup_end_def sql_unrelated Let_def
      split: prod.splits if_splits sql_result.splits option.splits dest!: sql_unrelated)

lemma operator_names_unrelated:
  assumes "operator_names p mccmnc s = Inr (x, s')"
  shows "in_air s' = in_air s \<and> obligations s' = obligations s"
  using assms by (auto simp: operator_names_def andThen_eq_Inr dest: lookupOperator_unrelated)

lemma network_rows_unrelated:
  assumes "network_rows p items n s = Inr (rows, s')"
  shows "in_air s' = in_air s \<and> obligations s' = obligations s"
  using assms
  by (induction p items n s arbitrary: rows s' rule: network_rows.induct)
    (fastforce simp: Let_def andThen_eq_Inr dest: operator_names_unrelated)+

lemma completed_after_unrelated:
  assumes "in_air s' = in_air s \<and> obligations s' = obligations s"
  shows "owes {#r_token r#} s (Request_complete r e response len s')"
  using assms owes_completed [of r s' e response len] by (simp add: owes_def)

lemma serves_network_queries [served]:
  "serves {#r_token r#} (handleQueryNetworkSelectionMode r s) s"
  "serves {#r_token r#} (handleOperator p r s) s"
  "serves {#r_token r#} (handleGetPreferredNetworkType r s) s"
  "serves {#r_token r#} (handleVoiceRegistrationState r s) s"
  "serves {#r_token r#} (handleDataRegistrationState r s) s"
  "serves {#r_token r#} (handleQueryAvailableBandMode r s) s"
  unfolding handleQueryNetworkSelectionMode_def handleOperator_def handleGetPreferredNetworkType_def
    handleVoiceRegistrationState_def handleDataRegistrationState_def getNetworkRegistration_def
    handleQueryAvailableBandMode_def
  by (auto intro!: serves_cached_query sends_outgoing completed_after_unrelated
      simp: find_outgoing Let_def andThen_eq_Inr dest: operator_names_unrelated split: if_splits)

lemma serves_network_submissions [served]:
  "serves {#r_token r#} (setPLMNSelection r plmn s) s"
  "serves {#r_token r#} (handleSetNetworkSelectionAutomatic r s) s"
  "serves {#r_token r#} (handleSetNetworkSelectionManual r s) s"
  "serves {#r_token r#} (handleQueryAvailableNetworks r s) s"
  "serves {#r_token r#} (handleSetBandMode r s) s"
  "serves {#r_token r#} (handleSetPreferredNetworkType r s) s"
  unfolding handleSetNetworkSelectionAutomatic_def handleSetNetworkSelectionManual_def
    setPLMNSelection_def handleQueryAvailableNetworks_def handleSetBandMode_def
    handleSetPreferredNetworkType_def Let_def
  by (auto intro!: serves_with_arg owes_submitted sends_outgoing simp: find_outgoing)

lemma serves_network_completions [served]:
  "serves {#r_token r#} (setPLMNSelectionComplete r reply s) s"
  "serves {#r_token r#} (handleQueryAvailableNetworksComplete p r reply s) s"
  "serves {#r_token r#} (handleSetBandModeComplete r reply s) s"
  "serves {#r_token r#} (handleSetPreferredNetworkTypeComplete r reply s) s"
  unfolding setPLMNSelectionComplete_def handleQueryAvailableNetworksComplete_def
    handleSetBandModeComplete_def handleSetPreferredNetworkTypeComplete_def
  by (auto intro!: serves_finish completed_after_unrelated intro: wrong_reply_owes
      dest!: completed_after_command network_rows_unrelated
      simp: Let_def andThen_eq_Inr owes_after_invalidate split: option.splits)

section \<open>Call requests\<close>

lemma answerable_manage_call: "marshals (manage_call p command callId)" "expects_response (manage_call p command callId)"
  unfolding manage_call_def by (auto intro!: sends_outgoing simp: find_outgoing)

lemma answerable_originate: "marshals (originate d)" "expects_response (originate d)"
  unfolding originate_def Let_def split_beta
  by (auto intro!: sends_outgoing simp: find_outgoing)

lemma serves_genericHangup [served]: "serves {#r_token r#} (genericHangup p r command valid s) s"
  unfolding genericHangup_def Let_def
  by (auto intro!: serves_with_arg serves_run_command sends_outgoing answerable_manage_call
      simp: find_outgoing split: option.splits)

lemma serves_call_requests [served]:
  "serves {#r_token r#} (handleCurrentCalls r s) s"
  "serves {#r_token r#} (handleDial r s) s"
  "serves {#r_token r#} (handleLastCallFailCause r s) s"
  "serves {#r_token r#} (handleHangup p r s) s"
  "serves {#r_token r#} (handleHangupWaitingOrBackground p r s) s"
  "serves {#r_token r#} (handleHangupForegroundResumeBackground p r s) s"
  "serves {#r_token r#} (handleAnswer r s) s"
  "serves {#r_token r#} (handleSwitchWaitingOrHoldingAndActive p r s) s"
  "serves {#r_token r#} (handleConference p r s) s"
  "serves {#r_token r#} (handleUDUB p r s) s"
  "serves {#r_token r#} (handleSeparateConnection p r s) s"
  "serves {#r_token r#} (handleExplicitCallTransfer p r s) s"
  "serves {#r_token r#} (handleDTMF r s) s"
  "serves {#r_token r#} (handleDTMFStart r s) s"
  "serves {#r_token r#} (handleDTMFStop r s) s"
  unfolding handleCurrentCalls_def handleDial_def handleLastCallFailCause_def handleHangup_def
    handleHangupWaitingOrBackground_def handleHangupForegroundResumeBackground_def handleAnswer_def
    handleSwitchWaitingOrHoldingAndActive_def handleConference_def handleUDUB_def
    handleSeparateConnection_def handleExplicitCallTransfer_def handleDTMF_def handleDTMFStart_def
    handleDTMFStop_def continuousDTMF_def
  by (auto intro!: serves_with_arg serves_run_command serves_query serves_genericHangup
      sends_outgoing answerable_manage_call answerable_originate completed_after_unrelated
      simp: find_outgoing Let_def ril_ops split: option.splits if_splits)

section \<open>SIM requests\<close>

lemma owes_setRadioState [simp]: "owes T s (setRadioState state s') \<longleftrightarrow> owes T s s'"
  by (simp add: owes_def ril_ops)

lemma owes_pin_status [simp]: "owes T s (pin_status_received obj s') \<longleftrightarrow> owes T s s'"
  by (simp add: pin_status_received_def)

lemma owes_translateSimStatus [simp]: "owes {#r_token r#} s (translateSimStatus p state xstate r s)"
  by (simp add: translateSimStatus_def)

lemma serves_pin_requests [served]:
  "serves {#r_token r#} (setPinStatus r pin puk op s) s"
  "serves {#r_token r#} (changeLockPwd r old new op s) s"
  unfolding setPinStatus_def changeLockPwd_def Let_def
  by (auto intro!: serves_run_command sends_outgoing simp: find_outgoing split: option.splits)

lemma serves_sim_requests [served]:
  "serves {#r_token r#} (handleSIMStatus p r s) s"
  "serves {#r_token r#} (handleEnterSIMPin r s) s"
  "serves {#r_token r#} (handleEnterSIMPuk r s) s"
  "serves {#r_token r#} (handleEnterSIMPin2 r s) s"
  "serves {#r_token r#} (handleEnterSIMPuk2 r s) s"
  "serves {#r_token r#} (handleChangeSIMPin r s) s"
  "serves {#r_token r#} (handleChangeSIMPin2 r s) s"
  unfolding handleSIMStatus_def handleEnterSIMPin_def handleEnterSIMPuk_def handleEnterSIMPin2_def
    handleEnterSIMPuk2_def handleChangeSIMPin_def handleChangeSIMPin2_def
  by (auto intro!: serves_with_arg serves_pin_requests serves_finish sends_outgoing
      simp: serves_Executing find_outgoing andThen_eq_Inr split: option.splits)

text \<open>The one request that is forgotten: an update of the file of fixed dialling numbers.\<close>

definition forgotten :: "request \<Rightarrow> bool" where
  "forgotten request \<longleftrightarrow> (case r_data request of Sim_io_data io \<Rightarrow> is_fdn_update io | _ \<Rightarrow> False)"

lemma serves_SIM_IO:
  "\<not> forgotten r \<Longrightarrow> serves {#r_token r#} (handleSIM_IO r s) s"
  unfolding handleSIM_IO_def forgotten_def sim_io_arg_def rsim_access_def
  by (auto intro!: serves_with_arg serves_query sends_outgoing simp: find_outgoing
      split: option.splits request_data.splits)

lemma forgotten_SIM_IO: "forgotten r \<Longrightarrow> handleSIM_IO r s = Finished s"
  by (auto simp: handleSIM_IO_def forgotten_def sim_io_arg_def split: request_data.splits)

section \<open>The phone\<close>

lemma owes_effect_before:
  "completed_token e = None \<Longrightarrow> owes T (effect e s) s' \<longleftrightarrow> owes T s s'"
  by (simp add: owes_def ril_ops)

lemma owes_effect_refl: "completed_token e = None \<Longrightarrow> owes {#} s (effect e s)"
  by (simp add: owes_def ril_ops)

lemma answerable_set_phone_mode: "marshals (set_phone_mode on)" "expects_response (set_phone_mode on)"
  unfolding set_phone_mode_def by (auto intro!: sends_outgoing simp: find_outgoing)

lemma snd_device_off [simp]:
  "snd (device_off_requested p s) = effect (Property_get ''sys.deviceOffReq'') s"
  by (simp add: device_off_requested_def Let_def)

lemma serves_power_off:
  assumes "owes {#} s s1"
  shows "serves {#r_token r#} (Executing (outgoing group_PWR ''PHONE_POWER_OFF'' []) s1 (\<lambda>reply s. finish
     (andThen (completeGenCommand reply (Some r) s) (\<lambda>(ok, s).
       Inr (if ok then setRadioState RADIO_STATE_UNAVAILABLE s else s))))) s"
  using assms
  by (auto intro!: serves_finish sends_outgoing simp: serves_Executing find_outgoing andThen_eq_Inr
      elim!: completeGenCommand_cases split: if_splits)

lemma owes_phone_mode:
  assumes "completed_token e = None"
  shows "owes {#r_token r#} s
    (RIL_submit (set_phone_mode on) (RadioPowerSetModeComplete r) (effect e s))"
  using assms by (simp add: owes_def ril_ops answerable_set_phone_mode)

lemma serves_radio_power [served]: "serves {#r_token r#} (handleRadioPower p r s) s"
  unfolding handleRadioPower_def Let_def
  by (auto intro!: serves_with_arg serves_power_off owes_phone_mode owes_effect_refl simp: split_beta)

lemma serves_phone_requests [served]:
  "serves {#r_token r#} (handleBasebandVersion r s) s"
  "serves {#r_token r#} (handleIMEI r s) s"
  "serves {#r_token r#} (handleIMEISV r s) s"
  "serves {#r_token r#} (handleIMSI r s) s"
  "serves {#r_token r#} (handleScreenState r s) s"
  "serves {#r_token r#} (handleSignalStrength p r s) s"
  "serves {#r_token r#} (handleSetMute r s) s"
  "serves {#r_token r#} (handleGetMute r s) s"
  unfolding handleBasebandVersion_def handleIMEI_def handleIMEISV_def handleIMSI_def
    handleScreenState_def handleSignalStrength_def handleSetMute_def handleGetMute_def
  by (auto intro!: serves_cached_query serves_query serves_with_arg serves_run_command
      sends_outgoing simp: find_outgoing split: if_splits)

lemma serves_power_completion [served]:
  "serves {#r_token r#} (handleRadioPowerSetModeComplete r reply s) s"
  unfolding handleRadioPowerSetModeComplete_def
  by (rule serves_finish) (rule completed_after_command)

section \<open>OEM requests\<close>

text \<open>A command owes nothing itself; what its caller does with the result counts.\<close>

lemma serves_oem_execute:
  assumes "answerable m" and "\<And>ok s. serves T (k ok s) s"
  shows "serves T (oem_execute m s k) s"
proof -
  have "serves T (with_arg (completeGenCommand reply None s'') (\<lambda>(ok, s). k ok s)) s''" for reply s''
    by (rule serves_with_arg) (auto elim!: completeGenCommand_cases simp: assms(2))
  then show ?thesis
    using assms(1) by (simp add: oem_execute_def serves_Executing)
qed

lemma serves_oem_done: "serves {#r_token r#} (oem_done r ok s) s"
  by (simp add: oem_done_def)

lemma serves_oem_commands:
  assumes "\<And>ok s. serves T (k ok s) s"
  shows "serves T (oem_handleSetLoopbackTest a b s k) s"
    and "serves T (oem_handleSetDhaSolution a b extra s k) s"
    and "serves T (oem_handleSetTwoMicControl a b s k) s"
    and "serves T (oem_handleSetMute muted s k) s"
    and "serves T (oem_handleSetCallRecord a s k) s"
    and "serves T (oem_handleSetCallClockSync a s k) s"
    and "serves T (oem_handleSetVideoCallClockSync a s k) s"
    and "serves T (oem_handleSetCallAudioPath a b s k) s"
    and "serves T (oem_handleSetCallVolume a b s k) s"
    and "serves T (oem_handleEnterServiceMode a b s k) s"
    and "serves T (oem_handleExitServiceMode a s k) s"
    and "serves T (oem_handleSendServiceKeyCode a s k) s"
  unfolding oem_handleSetLoopbackTest_def oem_handleSetDhaSolution_def oem_handleSetTwoMicControl_def
    oem_handleSetMute_def oem_handleSetCallRecord_def oem_handleSetCallClockSync_def
    oem_handleSetVideoCallClockSync_def oem_handleSetCallAudioPath_def oem_handleSetCallVolume_def
    oem_handleEnterServiceMode_def oem_handleExitServiceMode_def oem_handleSendServiceKeyCode_def
  by (auto intro!: serves_oem_execute sends_outgoing assms simp: find_outgoing)

lemma serves_oem_GetMute:
  assumes "\<And>muted s. serves T (k muted s) s"
  shows "serves T (oem_handleGetMute s k) s"
  unfolding oem_handleGetMute_def
  by (auto intro!: serves_with_arg sends_outgoing assms
      simp: serves_Executing find_outgoing split: option.splits)

lemma serves_oem_parameters:
  assumes "\<And>a s k. (\<And>ok s. serves {#r_token r#} (k ok s) s) \<Longrightarrow> serves {#r_token r#} (f a s k) s"
    and "\<And>a b s k. (\<And>ok s. serves {#r_token r#} (k ok s) s) \<Longrightarrow> serves {#r_token r#} (g a b s k) s"
  shows "serves {#r_token r#} (oem_int api parcel r s f) s"
    and "serves {#r_token r#} (oem_ints api parcel r s g) s"
  using assms by (auto simp: oem_int_def oem_ints_def serves_oem_done split: prod.splits)

lemma serves_oem_dispatch: "serves {#r_token r#} (oem_dispatch api code parcel r s) s"
  by (cases code)
    (auto intro!: serves_oem_parameters serves_oem_commands serves_oem_done serves_oem_GetMute
      simp: Let_def split: prod.splits option.splits)

lemma serves_OemHookRaw [served]: "serves {#r_token r#} (handleOemHookRaw api r s) s"
  unfolding handleOemHookRaw_def Let_def
  by (auto intro!: serves_with_arg serves_oem_dispatch simp del: oem_dispatch.simps)

section \<open>All requests\<close>

lemma set_fold_updates:
  "h \<in> set (fold (\<lambda>(name, h) table. table[f name := Some h]) assigned table) \<Longrightarrow>
     h \<in> set table \<or> h \<in> Some ` snd ` set assigned"
proof (induction assigned arbitrary: table)
  case (Cons a assigned)
  obtain name g where a: "a = (name, g)"
    by fastforce
  from Cons.IH [of "table[f name := Some g]"] Cons.prems show ?case
    using set_update_subset_insert [of table "f name" "Some g"] by (auto simp: a)
qed simp

lemma length_fold_updates [simp]:
  "length (fold (\<lambda>(name, h) table. table[f name := Some h]) assigned table) = length table"
  by (induction assigned arbitrary: table) auto

lemma lookup_handler_cases:
  assumes "lookup_handler abi p api code = Some h"
  shows "Some h \<in> set (initial_handlers p) \<or> h \<in> snd ` set (assigned_handlers p api)"
proof -
  have *: "\<not> code < FirstRequest abi" "\<not> code > LastRequest abi"
    and h: "m_requestHandlers abi p api ! nat (code - FirstRequest abi) = Some h"
    using assms by (auto simp: lookup_handler_def split: if_splits)
  have "length (m_requestHandlers abi p api) \<ge> table_size abi"
    by (simp add: m_requestHandlers_def)
  then have "nat (code - FirstRequest abi) < length (m_requestHandlers abi p api)"
    using * by (simp add: table_size_def)
  then have "Some h \<in> set (m_requestHandlers abi p api)"
    using h by (metis nth_mem)
  from set_fold_updates [OF this [unfolded m_requestHandlers_def]] show ?thesis
    by auto
qed

lemma serves_initial:
  assumes "Some h \<in> set (initial_handlers p)"
  shows "serves {#r_token r#} (h r s) s"
  using assms by (auto simp: initial_handlers_def served)

text \<open>A forgotten request is answered all the same by the gate and by the other handlers.\<close>

lemma forgotten_assigned:
  assumes "h \<in> snd ` set (assigned_handlers p api)"
  shows "serves {#r_token r#} (h r s) s \<or> forgotten r \<and> h r s = Finished s"
  using assms forgotten_SIM_IO serves_SIM_IO by (auto simp: assigned_handlers_def served)

lemma forgotten_request:
  "serves {#r_token r#} (handle_request abi p api r s) s \<or>
     forgotten r \<and> handle_request abi p api r s = Finished s"
proof (cases "lookup_handler abi p api (r_code r)")
  case (Some h)
  have "serves {#r_token r#} (h r s) s \<or> forgotten r \<and> h r s = Finished s"
    using lookup_handler_cases [OF Some] serves_initial forgotten_assigned by blast
  then show ?thesis by (auto simp: handle_request_def Some)
qed (simp add: handle_request_def)

lemma serves_request:
  "\<not> forgotten r \<Longrightarrow> serves {#r_token r#} (handle_request abi p api r s) s"
  using forgotten_request by blast

section \<open>Messages from the modem\<close>

lemma owes_unsolicited [simp]: "owes T s (unsolicited code response len s') \<longleftrightarrow> owes T s s'"
  by (simp add: owes_def ril_ops)

lemma owes_cache [simp]:
  "owes T s (cache_put key m s') \<longleftrightarrow> owes T s s'"
  "owes T s (cache_flush s') \<longleftrightarrow> owes T s s'"
  by (simp_all add: owes_def ril_ops)

lemma owes_record_updates [simp]:
  "owes T s (s'\<lparr>m_coarseRSSI := i\<rparr>) \<longleftrightarrow> owes T s s'"
  "owes T s (s'\<lparr>m_lastCallFailCause := f\<rparr>) \<longleftrightarrow> owes T s s'"
  by (simp_all add: owes_def ril_ops)

lemma owes_oem [simp]:
  "owes T s (notifyServiceCompleted api s') \<longleftrightarrow> owes T s s'"
  "owes T s (notifyServiceDisplay api lines s') \<longleftrightarrow> owes T s s'"
  by (simp_all add: notifyServiceCompleted_def notifyServiceDisplay_def endUnsolicited_def)

text \<open>None of these handlers waits: they run on the thread that delivers the replies.\<close>

definition immediate :: "process \<Rightarrow> bool" where
  "immediate p \<longleftrightarrow> (case p of Executing m s k \<Rightarrow> False | _ \<Rightarrow> True)"

lemma immediate_simps [simp]:
  "immediate (Finished s)" "immediate (Faulted f)" "immediate (Exited n)"
  "\<not> immediate (Executing m s k)" "immediate (finish r)"
  by (simp_all add: immediate_def finish_def split: sum.splits)

lemma unsolicited_serve:
  "serves {#} (handle_PwrPhoneBootComplete m s) s \<and> immediate (handle_PwrPhoneBootComplete m s)"
  "serves {#} (handle_PwrPhonePoweredOff m s) s \<and> immediate (handle_PwrPhonePoweredOff m s)"
  "serves {#} (handle_PwrPhoneReset m s) s \<and> immediate (handle_PwrPhoneReset m s)"
  "serves {#} (handle_PwrPhoneModeChanged m s) s \<and> immediate (handle_PwrPhoneModeChanged m s)"
  "serves {#} (handle_MiscGetMobileEquipImsiReply m s) s \<and> immediate (handle_MiscGetMobileEquipImsiReply m s)"
  "serves {#} (handle_SecGetPinStatusReply m s) s \<and> immediate (handle_SecGetPinStatusReply m s)"
  "serves {#} (handle_SecSimCardType m s) s \<and> immediate (handle_SecSimCardType m s)"
  "serves {#} (handle_NetGetCurrentPlmnReply m s) s \<and> immediate (handle_NetGetCurrentPlmnReply m s)"
  "serves {#} (handle_NetGetNetworkRegistrationReply m s) s \<and> immediate (handle_NetGetNetworkRegistrationReply m s)"
  "serves {#} (handle_DispGetIconInformationReply p m s) s \<and> immediate (handle_DispGetIconInformationReply p m s)"
  "serves {#} (handle_DispRssiInformation p m s) s \<and> immediate (handle_DispRssiInformation p m s)"
  "serves {#} (handle_CallIncoming m s) s \<and> immediate (handle_CallIncoming m s)"
  "serves {#} (handle_CallStateChanged m s) s \<and> immediate (handle_CallStateChanged m s)"
  "serves {#} (handle_SvcDisplayScreen api m s) s \<and> immediate (handle_SvcDisplayScreen api m s)"
  unfolding handle_PwrPhoneBootComplete_def handle_PwrPhonePoweredOff_def
    handle_PwrPhoneReset_def handle_PwrPhoneModeChanged_def
    handle_MiscGetMobileEquipImsiReply_def handle_SecGetPinStatusReply_def
    handle_SecSimCardType_def handle_NetGetCurrentPlmnReply_def
    handle_NetGetNetworkRegistrationReply_def handle_DispGetIconInformationReply_def
    handle_DispRssiInformation_def handle_CallIncoming_def handle_CallStateChanged_def
    handle_SvcDisplayScreen_def Let_def
  by (auto intro!: owes_submitted marshals_outgoing simp: expects_outgoing_iff find_outgoing)

lemma unsolicited_immediate:
  assumes "(key, h) \<in> set (unsolicited_handlers p api)"
  shows "serves {#} (h m s) s \<and> immediate (h m s)"
  using assms by (auto simp: unsolicited_handlers_def unsolicited_serve)

lemma deliver_immediate: "serves {#} (deliver p api m s) s" "immediate (deliver p api m s)"
  using unsolicited_immediate by (fastforce simp: deliver_def dest!: map_of_SomeD split: option.splits)+

lemma completion_immediate:
  "serves (tokens (pending_token who)) (complete_message p who reply s) s"
  "immediate (complete_message p who reply s)"
  by (cases who;
      auto simp: served handlePinStatusRefreshComplete_def handle_SecGetPinStatusReply_def
        andThen_eq_Inr intro!: serves_finish split: option.splits)
    (cases who;
      auto simp: handlePinStatusRefreshComplete_def handle_SecGetPinStatusReply_def
        handleRadioPowerSetModeComplete_def handleQueryAvailableNetworksComplete_def
        handleSetBandModeComplete_def handleSetPreferredNetworkTypeComplete_def
        setPLMNSelectionComplete_def split: option.splits)

end
