(* ===== verification/RIL_Dispatch.thy ===== *)
theory RIL_Dispatch
  imports RIL_Requests
begin

text \<open>
  The dispatch table of the request handler against the numbers of telephony/ril.h: every request
  that has a handler reaches it, and nothing else is supported.
\<close>

section \<open>The numbers of telephony/ril.h\<close>

text \<open>
  What the table relies on: the first 24 requests are numbered consecutively in the order of the
  initialiser, the numbers are distinct, and they lie between the first and the last.
\<close>

definition initial_names :: "request_name list" where
  "initial_names =
     [RIL_REQUEST_GET_SIM_STATUS, RIL_REQUEST_ENTER_SIM_PIN, RIL_REQUEST_ENTER_SIM_PUK,
      RIL_REQUEST_ENTER_SIM_PIN2, RIL_REQUEST_ENTER_SIM_PUK2, RIL_REQUEST_CHANGE_SIM_PIN,
      RIL_REQUEST_CHANGE_SIM_PIN2, RIL_REQUEST_ENTER_NETWORK_DEPERSONALIZATION,
      RIL_REQUEST_GET_CURRENT_CALLS, RIL_REQUEST_DIAL, RIL_REQUEST_GET_IMSI,
      RIL_REQUEST_HANGUP, RIL_REQUEST_HANGUP_WAITING_OR_BACKGROUND,
      RIL_REQUEST_HANGUP_FOREGROUND_RESUME_BACKGROUND,
      RIL_REQUEST_SWITCH_WAITING_OR_HOLDING_AND_ACTIVE, RIL_REQUEST_CONFERENCE,
      RIL_REQUEST_UDUB, RIL_REQUEST_LAST_CALL_FAIL_CAUSE, RIL_REQUEST_SIGNAL_STRENGTH,
      RIL_REQUEST_VOICE_REGISTRATION_STATE, RIL_REQUEST_DATA_REGISTRATION_STATE,
      RIL_REQUEST_OPERATOR, RIL_REQUEST_RADIO_POWER, RIL_REQUEST_DTMF]"

definition ril_numbers :: "ril_abi \<Rightarrow> bool" where
  "ril_numbers abi \<longleftrightarrow>
     inj abi \<and>
     (\<forall>i < length initial_names. abi (initial_names ! i) = FirstRequest abi + int i) \<and>
     (\<forall>name. FirstRequest abi \<le> abi name \<and> abi name \<le> LastRequest abi)"

text \<open>The numbers that Android has used since its first releases.\<close>

fun ril_h :: "request_name \<Rightarrow> int" where
  "ril_h RIL_REQUEST_GET_SIM_STATUS = 1"
| "ril_h RIL_REQUEST_ENTER_SIM_PIN = 2"
| "ril_h RIL_REQUEST_ENTER_SIM_PUK = 3"
| "ril_h RIL_REQUEST_ENTER_SIM_PIN2 = 4"
| "ril_h RIL_REQUEST_ENTER_SIM_PUK2 = 5"
| "ril_h RIL_REQUEST_CHANGE_SIM_PIN = 6"
| "ril_h RIL_REQUEST_CHANGE_SIM_PIN2 = 7"
| "ril_h RIL_REQUEST_ENTER_NETWORK_DEPERSONALIZATION = 8"
| "ril_h RIL_REQUEST_GET_CURRENT_CALLS = 9"
| "ril_h RIL_REQUEST_DIAL = 10"
| "ril_h RIL_REQUEST_GET_IMSI = 11"
| "ril_h RIL_REQUEST_HANGUP = 12"
| "ril_h RIL_REQUEST_HANGUP_WAITING_OR_BACKGROUND = 13"
| "ril_h RIL_REQUEST_HANGUP_FOREGROUND_RESUME_BACKGROUND = 14"
| "ril_h RIL_REQUEST_SWITCH_WAITING_OR_HOLDING_AND_ACTIVE = 15"
| "ril_h RIL_REQUEST_CONFERENCE = 16"
| "ril_h RIL_REQUEST_UDUB = 17"
| "ril_h RIL_REQUEST_LAST_CALL_FAIL_CAUSE = 18"
| "ril_h RIL_REQUEST_SIGNAL_STRENGTH = 19"
| "ril_h RIL_REQUEST_VOICE_REGISTRATION_STATE = 20"
| "ril_h RIL_REQUEST_DATA_REGISTRATION_STATE = 21"
| "ril_h RIL_REQUEST_OPERATOR = 22"
| "ril_h RIL_REQUEST_RADIO_POWER = 23"
| "ril_h RIL_REQUEST_DTMF = 24"
| "ril_h RIL_REQUEST_SIM_IO = 28"
| "ril_h RIL_REQUEST_GET_IMEI = 38"
| "ril_h RIL_REQUEST_GET_IMEISV = 39"
| "ril_h RIL_REQUEST_ANSWER = 40"
| "ril_h RIL_REQUEST_QUERY_NETWORK_SELECTION_MODE = 45"
| "ril_h RIL_REQUEST_SET_NETWORK_SELECTION_AUTOMATIC = 46"
| "ril_h RIL_REQUEST_SET_NETWORK_SELECTION_MANUAL = 47"
| "ril_h RIL_REQUEST_QUERY_AVAILABLE_NETWORKS = 48"
| "ril_h RIL_REQUEST_DTMF_START = 49"
| "ril_h RIL_REQUEST_DTMF_STOP = 50"
| "ril_h RIL_REQUEST_BASEBAND_VERSION = 51"
| "ril_h RIL_REQUEST_SEPARATE_CONNECTION = 52"
| "ril_h RIL_REQUEST_SET_MUTE = 53"
| "ril_h RIL_REQUEST_GET_MUTE = 54"
| "ril_h RIL_REQUEST_OEM_HOOK_RAW = 59"
| "ril_h RIL_REQUEST_SCREEN_STATE = 61"
| "ril_h RIL_REQUEST_SET_BAND_MODE = 65"
| "ril_h RIL_REQUEST_QUERY_AVAILABLE_BAND_MODE = 66"
| "ril_h RIL_REQUEST_EXPLICIT_CALL_TRANSFER = 72"
| "ril_h RIL_REQUEST_SET_PREFERRED_NETWORK_TYPE = 73"
| "ril_h RIL_REQUEST_GET_PREFERRED_NETWORK_TYPE = 74"
| "ril_h RIL_REQUEST_STK_SEND_ENVELOPE_WITH_STATUS = 107"

lemma ril_numbers_ril_h: "ril_numbers ril_h"
proof -
  have "inj ril_h"
  proof (rule injI)
    fix a b
    show "ril_h a = ril_h b \<Longrightarrow> a = b"
      by (cases a; cases b; simp)
  qed
  moreover have "1 \<le> ril_h name \<and> ril_h name \<le> 107" for name
    by (cases name) simp_all
  moreover have "map ril_h initial_names = map (\<lambda>i. 1 + int i) [0..<24]"
    by (simp add: initial_names_def upt_rec)
  then have "ril_h (initial_names ! i) = 1 + int i" if "i < length initial_names" for i
    using that by (metis (no_types, lifting) add_0 diff_zero length_map length_upt nth_map nth_upt)
  ultimately show ?thesis
    by (simp add: ril_numbers_def FirstRequest_def LastRequest_def)
qed

section \<open>Which request is handled by what\<close>

fun handler_of :: "platform \<Rightarrow> 'p parcel_api \<Rightarrow> request_name \<Rightarrow> handler option" where
  "handler_of p api RIL_REQUEST_GET_SIM_STATUS = Some (handleSIMStatus p)"
| "handler_of p api RIL_REQUEST_ENTER_SIM_PIN = Some handleEnterSIMPin"
| "handler_of p api RIL_REQUEST_ENTER_SIM_PUK = Some handleEnterSIMPuk"
| "handler_of p api RIL_REQUEST_ENTER_SIM_PIN2 = Some handleEnterSIMPin2"
| "handler_of p api RIL_REQUEST_ENTER_SIM_PUK2 = Some handleEnterSIMPuk2"
| "handler_of p api RIL_REQUEST_CHANGE_SIM_PIN = Some handleChangeSIMPin"
| "handler_of p api RIL_REQUEST_CHANGE_SIM_PIN2 = Some handleChangeSIMPin2"
| "handler_of p api RIL_REQUEST_ENTER_NETWORK_DEPERSONALIZATION = None"
| "handler_of p api RIL_REQUEST_GET_CURRENT_CALLS = Some handleCurrentCalls"
| "handler_of p api RIL_REQUEST_DIAL = Some handleDial"
| "handler_of p api RIL_REQUEST_GET_IMSI = Some handleIMSI"
| "handler_of p api RIL_REQUEST_HANGUP = Some (handleHangup p)"
| "handler_of p api RIL_REQUEST_HANGUP_WAITING_OR_BACKGROUND = Some (handleHangupWaitingOrBackground p)"
| "handler_of p api RIL_REQUEST_HANGUP_FOREGROUND_RESUME_BACKGROUND = Some (handleHangupForegroundResumeBackground p)"
| "handler_of p api RIL_REQUEST_SWITCH_WAITING_OR_HOLDING_AND_ACTIVE = Some (handleSwitchWaitingOrHoldingAndActive p)"
| "handler_of p api RIL_REQUEST_CONFERENCE = Some (handleConference p)"
| "handler_of p api RIL_REQUEST_UDUB = Some (handleUDUB p)"
| "handler_of p api RIL_REQUEST_LAST_CALL_FAIL_CAUSE = Some handleLastCallFailCause"
| "handler_of p api RIL_REQUEST_SIGNAL_STRENGTH = Some (handleSignalStrength p)"
| "handler_of p api RIL_REQUEST_VOICE_REGISTRATION_STATE = Some handleVoiceRegistrationState"
| "handler_of p api RIL_REQUEST_DATA_REGISTRATION_STATE = Some handleDataRegistrationState"
| "handler_of p api RIL_REQUEST_OPERATOR = Some (handleOperator p)"
| "handler_of p api RIL_REQUEST_RADIO_POWER = Some (handleRadioPower p)"
| "handler_of p api RIL_REQUEST_DTMF = Some handleDTMF"
| "handler_of p api RIL_REQUEST_SIM_IO = Some handleSIM_IO"
| "handler_of p api RIL_REQUEST_OEM_HOOK_RAW = Some (handleOemHookRaw api)"
| "handler_of p api RIL_REQUEST_QUERY_NETWORK_SELECTION_MODE = Some handleQueryNetworkSelectionMode"
| "handler_of p api RIL_REQUEST_SET_NETWORK_SELECTION_AUTOMATIC = Some handleSetNetworkSelectionAutomatic"
| "handler_of p api RIL_REQUEST_SET_NETWORK_SELECTION_MANUAL = Some handleSetNetworkSelectionManual"
| "handler_of p api RIL_REQUEST_QUERY_AVAILABLE_NETWORKS = Some handleQueryAvailableNetworks"
| "handler_of p api RIL_REQUEST_DTMF_START = Some handleDTMFStart"
| "handler_of p api RIL_REQUEST_DTMF_STOP = Some handleDTMFStop"
| "handler_of p api RIL_REQUEST_BASEBAND_VERSION = Some handleBasebandVersion"
| "handler_of p api RIL_REQUEST_GET_IMEI = Some handleIMEI"
| "handler_of p api RIL_REQUEST_GET_IMEISV = Some handleIMEISV"
| "handler_of p api RIL_REQUEST_ANSWER = Some handleAnswer"
| "handler_of p api RIL_REQUEST_SCREEN_STATE = Some handleScreenState"
| "handler_of p api RIL_REQUEST_SET_BAND_MODE = Some handleSetBandMode"
| "handler_of p api RIL_REQUEST_QUERY_AVAILABLE_BAND_MODE = Some handleQueryAvailableBandMode"
| "handler_of p api RIL_REQUEST_EXPLICIT_CALL_TRANSFER = Some (handleExplicitCallTransfer p)"
| "handler_of p api RIL_REQUEST_SET_PREFERRED_NETWORK_TYPE = Some handleSetPreferredNetworkType"
| "handler_of p api RIL_REQUEST_GET_PREFERRED_NETWORK_TYPE = Some handleGetPreferredNetworkType"
| "handler_of p api RIL_REQUEST_SEPARATE_CONNECTION = Some (handleSeparateConnection p)"
| "handler_of p api RIL_REQUEST_SET_MUTE = Some handleSetMute"
| "handler_of p api RIL_REQUEST_GET_MUTE = Some handleGetMute"
| "handler_of p api RIL_REQUEST_STK_SEND_ENVELOPE_WITH_STATUS = None"

lemma handler_of_initial: "map (handler_of p api) initial_names = initial_handlers p"
  by (simp add: initial_names_def initial_handlers_def)

lemma initial_lengths:
  "length initial_names = 24" "length (initial_handlers p) = 24"
  by (simp_all add: initial_names_def initial_handlers_def)

lemma handler_of_assigned: "(name, h) \<in> set (assigned_handlers p api) \<Longrightarrow> handler_of p api name = Some h"
  by (auto simp: assigned_handlers_def)

lemma handled_names:
  "name \<in> set initial_names \<or> name \<in> fst ` set (assigned_handlers p api) \<or>
     name = RIL_REQUEST_STK_SEND_ENVELOPE_WITH_STATUS"
  by (cases name) (simp_all add: initial_names_def assigned_handlers_def)

lemma names_distinct:
  "distinct (map fst (assigned_handlers p api))"
  "set initial_names \<inter> fst ` set (assigned_handlers p api) = {}"
  "RIL_REQUEST_STK_SEND_ENVELOPE_WITH_STATUS \<notin> set initial_names \<union> fst ` set (assigned_handlers p api)"
  by (simp_all add: assigned_handlers_def initial_names_def)

lemma fold_updates_other:
  "\<forall>(name, h) \<in> set assigned. f name \<noteq> j \<Longrightarrow>
     fold (\<lambda>(name, h) table. table[f name := Some h]) assigned table ! j = table ! j"
  by (induction assigned arbitrary: table) auto

lemma fold_updates_same:
  assumes "(name, h) \<in> set assigned" and "distinct (map (\<lambda>(name, h). f name) assigned)"
    and "f name < length table"
  shows "fold (\<lambda>(name, h) table. table[f name := Some h]) assigned table ! f name = Some h"
  using assms
proof (induction assigned arbitrary: table)
  case (Cons a assigned)
  obtain n g where a: "a = (n, g)" by fastforce
  show ?case
  proof (cases "a = (name, h)")
    case True
    have "\<forall>(n, g) \<in> set assigned. f n \<noteq> f name"
      using Cons.prems(2) by (fastforce simp: True image_iff)
    then show ?thesis
      using fold_updates_other [of assigned f "f name" "table[f name := Some h]"] Cons.prems(3)
      by (simp add: True)
  next
    case False
    then show ?thesis
      using Cons.IH [of "table[f n := Some g]"] Cons.prems by (auto simp: a)
  qed
qed simp

section \<open>Positions in the table\<close>

definition position :: "ril_abi \<Rightarrow> request_name \<Rightarrow> nat" where
  "position abi name = nat (abi name - FirstRequest abi)"

lemma position_eq_iff:
  assumes numbers: "ril_numbers abi"
  shows "position abi a = position abi b \<longleftrightarrow> a = b"
  using numbers by (fastforce simp: ril_numbers_def position_def nat_eq_iff dest: injD)

lemma position_initial:
  assumes numbers: "ril_numbers abi"
  shows "i < 24 \<Longrightarrow> position abi (initial_names ! i) = i"
  using numbers by (simp add: ril_numbers_def position_def initial_lengths)

lemma position_last: "position abi RIL_REQUEST_STK_SEND_ENVELOPE_WITH_STATUS = table_size abi - 1"
  by (simp add: position_def table_size_def LastRequest_def nat_add_distrib)

lemma position_less:
  assumes numbers: "ril_numbers abi"
  shows "position abi name < table_size abi"
  using numbers by (auto simp: ril_numbers_def position_def table_size_def)

lemma table_size_ge:
  assumes numbers: "ril_numbers abi"
  shows "24 < table_size abi"
proof -
  let ?last = "RIL_REQUEST_STK_SEND_ENVELOPE_WITH_STATUS"
  have "position abi ?last \<noteq> i" if "i < 24" for i
  proof
    assume "position abi ?last = i"
    then have "?last = initial_names ! i"
      using position_initial [OF numbers that] position_eq_iff [OF numbers] by metis
    moreover have "initial_names ! i \<in> set initial_names"
      using that by (intro nth_mem) (simp add: initial_names_def)
    ultimately show False
      using names_distinct(3) by auto
  qed
  then have "\<not> position abi ?last < 24" by blast
  then show ?thesis by (simp add: position_last)
qed

lemma lookup_by_position:
  assumes "ril_numbers abi"
  shows "lookup_handler abi p api (abi name) = m_requestHandlers abi p api ! position abi name"
proof -
  have "\<not> abi name < FirstRequest abi" "\<not> abi name > LastRequest abi"
    using assms by (auto simp: ril_numbers_def not_less)
  then show ?thesis by (simp add: lookup_handler_def position_def)
qed

lemma table_fold:
  "m_requestHandlers abi p api =
     fold (\<lambda>(name, h) table. table[position abi name := Some h]) (assigned_handlers p api)
       (initial_handlers p @ replicate (table_size abi - 24) None)"
  by (simp add: m_requestHandlers_def position_def initial_lengths)

lemma table_assigned:
  assumes "ril_numbers abi" and "(name, h) \<in> set (assigned_handlers p api)"
  shows "m_requestHandlers abi p api ! position abi name = Some h"
  unfolding table_fold
proof (rule fold_updates_same [OF assms(2)])
  have "map (\<lambda>(name, h). position abi name) (assigned_handlers p api) =
      map (position abi) (map fst (assigned_handlers p api))"
    by (simp add: split_beta comp_def)
  moreover have "inj_on (position abi) A" for A
    using position_eq_iff [OF assms(1)] by (simp add: inj_on_def)
  ultimately show "distinct (map (\<lambda>(name, h). position abi name) (assigned_handlers p api))"
    using names_distinct(1) [of p api] by (simp only: distinct_map)
qed (use position_less [OF assms(1)] table_size_ge [OF assms(1)] in \<open>simp add: initial_lengths\<close>)

lemma table_unassigned:
  assumes "ril_numbers abi" and "name \<notin> fst ` set (assigned_handlers p api)"
  shows "m_requestHandlers abi p api ! position abi name =
    (initial_handlers p @ replicate (table_size abi - 24) None) ! position abi name"
proof -
  have "\<forall>(other, h) \<in> set (assigned_handlers p api). position abi other \<noteq> position abi name"
    using assms(2) position_eq_iff [OF assms(1)] by (auto simp: image_iff)
  from fold_updates_other [OF this] show ?thesis
    by (simp only: table_fold)
qed

section \<open>A sample platform\<close>

text \<open>
  For evaluations: a database without operators, no properties set, cleared memory, and parcels
  that are their bytes.
\<close>

definition quiet_platform :: platform where
  "quiet_platform =
     \<lparr>sqlite = (\<lambda>h c. if c = Sqlite Sql_step then SQLITE_DONE else SQLITE_OK),
      property_get = (\<lambda>h c. None), uninitialised = (\<lambda>n. replicate n 0),
      sizeof_card_status = 168, sizeof_signal_strength = 60\<rparr>"

definition byte_parcels :: "byte list parcel_api" where
  "byte_parcels =
     \<lparr>parcel_setData = (\<lambda>d. d), parcel_new = [],
      parcel_readInt32 = (\<lambda>d. (sint (de32 d), drop 4 d)), parcel_readString = (\<lambda>d. (d, [])),
      parcel_error = (\<lambda>d. False), parcel_writeInt32 = (\<lambda>i d. d @ le32 (word_of_int i)),
      parcel_writeString = (\<lambda>t d. d @ t), parcel_data = (\<lambda>d. d)\<rparr>"

lemma dispatched:
  assumes "ril_numbers abi"
  shows "lookup_handler abi p api (abi name) = handler_of p api name"
proof -
  consider "name \<in> fst ` set (assigned_handlers p api)"
    | "name \<in> set initial_names" | "name = RIL_REQUEST_STK_SEND_ENVELOPE_WITH_STATUS"
    using handled_names by blast
  then show ?thesis
  proof cases
    case 1
    then obtain h where "(name, h) \<in> set (assigned_handlers p api)" by auto
    then show ?thesis
      using table_assigned [OF assms] handler_of_assigned lookup_by_position [OF assms] by metis
  next
    case 2
    then obtain i where i: "i < 24" "name = initial_names ! i"
      by (metis in_set_conv_nth length_map handler_of_initial initial_lengths)
    have "name \<notin> fst ` set (assigned_handlers p api)"
      using 2 names_distinct(2) by blast
    then show ?thesis
      using table_unassigned [OF assms, of name p api] i(1) position_initial [OF assms i(1)]
        arg_cong [OF handler_of_initial, of "\<lambda>hs. hs ! i" p api]
      by (simp add: i(2) lookup_by_position [OF assms] nth_append initial_lengths)
  next
    case 3
    then have "name \<notin> fst ` set (assigned_handlers p api)"
      using names_distinct(3) [of p api] by simp
    moreover have "\<not> position abi name < 24"
      using table_size_ge [OF assms] by (simp add: 3 position_last)
    ultimately show ?thesis
      using table_unassigned [OF assms, of name p api] position_less [OF assms, of name]
      by (simp add: 3 lookup_by_position [OF assms] nth_append initial_lengths)
  qed
qed

section \<open>Properties\<close>

text \<open>
  C18. The table of handlers is filled partly by position and partly by number.  With the numbers
  of telephony/ril.h both ways agree with the list of requests: every request of the list reaches
  its own handler, and the two that have none are not supported.
\<close>

theorem request_dispatch:
  assumes "ril_numbers abi"
  shows "lookup_handler abi p api (abi name) = handler_of p api name"
  by (rule dispatched [OF assms])

theorem request_dispatch_witness:
  "lookup_handler ril_h quiet_platform byte_parcels 23 = Some (handleRadioPower quiet_platform) \<and>
   lookup_handler ril_h quiet_platform byte_parcels 8 = None"
  using request_dispatch [OF ril_numbers_ril_h, of quiet_platform byte_parcels RIL_REQUEST_RADIO_POWER]
    request_dispatch [OF ril_numbers_ril_h, of quiet_platform byte_parcels RIL_REQUEST_ENTER_NETWORK_DEPERSONALIZATION]
  by simp

end
