(* ===== verification/RIL_System.thy ===== *)
theory RIL_System
  imports RIL_Dispatch
begin

text \<open>
  The RIL as a system of threads (ril/RIL.cpp): Android's calls, the threads that wait in
  \<open>RIL::execute\<close> on the one semaphore of the object, and the worker thread that delivers replies,
  completions and unsolicited messages.  A handler holds the lock between two waits, so each of
  these stretches is one step.
\<close>

section \<open>Threads inside execute\<close>

text \<open>
  \<open>t_reply\<close> is \<open>data.reply\<close>, a local variable that is not initialised; the reply itself may be
  null.  \<open>y_giving\<close> tells that the worker thread is inside \<open>onExecutionComplete\<close>: it has stored the
  reply and not yet given the semaphore.
\<close>

record thread =
  t_request :: request
  t_message :: wire_message
  t_continue :: "wire_message option \<Rightarrow> ril \<Rightarrow> process"
  t_reply :: "wire_message option option"

record system =
  y_ril :: ril
  y_threads :: "thread list"
  y_semaphore :: nat
  y_giving :: bool
  y_received :: "request list"

definition initial_system :: system where
  "initial_system =
     \<lparr>y_ril = initial_ril, y_threads = [], y_semaphore = 0, y_giving = False, y_received = []\<rparr>"

text \<open>How the thread of a request leaves the lock.  Faults and exits have no successor.\<close>

fun leave :: "request \<Rightarrow> process \<Rightarrow> system \<Rightarrow> system option" where
  "leave r (Finished s) c = Some (c\<lparr>y_ril := s\<rparr>)"
| "leave r (Executing m s k) c =
     Some (c\<lparr>y_ril := s,
       y_threads := y_threads c @ [\<lparr>t_request = r, t_message = m, t_continue = k, t_reply = None\<rparr>]\<rparr>)"
| "leave r (Faulted f) c = None"
| "leave r (Exited n) c = None"

definition remove_nth :: "nat \<Rightarrow> 'a list \<Rightarrow> 'a list" where
  "remove_nth i xs = take i xs @ drop (Suc i) xs"

section \<open>Steps\<close>

text \<open>
  Android calls \<open>request\<close>; \<open>onExecutionComplete\<close> stores the reply, and then gives the semaphore; a
  thread takes it and continues; a submitted message is completed; a message is delivered.  The two
  halves of \<open>onExecutionComplete\<close> are steps of the one worker thread, so other threads can run between
  them, but no other completion or delivery.  With \<open>serial\<close>, Android waits for one call to return
  before it makes the next.
\<close>

inductive ril_step ::
    "ril_abi \<Rightarrow> platform \<Rightarrow> 'p parcel_api \<Rightarrow> bool \<Rightarrow> system \<Rightarrow> system \<Rightarrow> bool"
  for abi :: ril_abi and p :: platform and api :: "'p parcel_api" and serial :: bool
where
  request:
    "(serial \<Longrightarrow> y_threads c = []) \<Longrightarrow>
     leave r (handle_request abi p api r (y_ril c)) (c\<lparr>y_received := r # y_received c\<rparr>) = Some c' \<Longrightarrow>
     ril_step abi p api serial c c'"
| onExecutionComplete:
    "\<not> y_giving c \<Longrightarrow> i < length (y_threads c) \<Longrightarrow> t_reply (y_threads c ! i) = None \<Longrightarrow>
     ril_step abi p api serial c
       (c\<lparr>y_threads := (y_threads c)[i := (y_threads c ! i)\<lparr>t_reply := Some reply\<rparr>],
          y_giving := True\<rparr>)"
| given:
    "y_giving c \<Longrightarrow>
     ril_step abi p api serial c (c\<lparr>y_semaphore := Suc (y_semaphore c), y_giving := False\<rparr>)"
| taken:
    "i < length (y_threads c) \<Longrightarrow> y_semaphore c = Suc n \<Longrightarrow>
     t_reply (y_threads c ! i) = Some reply \<Longrightarrow>
     leave (t_request (y_threads c ! i)) (t_continue (y_threads c ! i) reply (y_ril c))
       (c\<lparr>y_threads := remove_nth i (y_threads c), y_semaphore := n\<rparr>) = Some c' \<Longrightarrow>
     ril_step abi p api serial c c'"
| completed:
    "\<not> y_giving c \<Longrightarrow> in_air (y_ril c) = before @ (m, who) # after \<Longrightarrow>
     complete_message p who reply ((y_ril c)\<lparr>in_air := before @ after\<rparr>) = Finished s \<Longrightarrow>
     ril_step abi p api serial c (c\<lparr>y_ril := s\<rparr>)"
| delivered:
    "\<not> y_giving c \<Longrightarrow> deliver p api m (y_ril c) = Finished s \<Longrightarrow>
     ril_step abi p api serial c (c\<lparr>y_ril := s\<rparr>)"

inductive_cases ril_stepE: "ril_step abi p api serial c c'"

abbreviation reachable_system ::
    "ril_abi \<Rightarrow> platform \<Rightarrow> 'p parcel_api \<Rightarrow> bool \<Rightarrow> system \<Rightarrow> bool"
where
  "reachable_system abi p api serial \<equiv> (ril_step abi p api serial)\<^sup>*\<^sup>* initial_system"

text \<open>
  The semaphore can be taken by a thread whose own reply is not there: it would use
  \<open>data.reply\<close> uninitialised.
\<close>

definition misled :: "system \<Rightarrow> bool" where
  "misled c \<longleftrightarrow> y_semaphore c > 0 \<and> (\<exists>t \<in> set (y_threads c). t_reply t = None)"

section \<open>Every request is answered once\<close>

text \<open>The tokens of the requests whose handlers wait.\<close>

definition waiting_requests :: "system \<Rightarrow> nat multiset" where
  "waiting_requests c = image_mset (\<lambda>t. r_token (t_request t)) (mset (y_threads c))"

definition received_requests :: "system \<Rightarrow> nat multiset" where
  "received_requests c = image_mset r_token (mset (y_received c))"

definition sound_thread :: "thread \<Rightarrow> bool" where
  "sound_thread t \<longleftrightarrow> answerable (t_message t) \<and>
     (\<forall>reply s. serves {#r_token (t_request t)#} (t_continue t reply s) s)"

text \<open>
  The tokens \<open>T\<close> account for all requests but some writes to the file of fixed dialling numbers, which
  the code forgets.
\<close>

definition forgettable :: "system \<Rightarrow> request multiset" where
  "forgettable c = filter_mset forgotten (mset (y_received c))"

definition accounts :: "nat multiset \<Rightarrow> system \<Rightarrow> bool" where
  "accounts T c \<longleftrightarrow> (\<exists>lost. lost \<subseteq># forgettable c \<and> T + image_mset r_token lost = received_requests c)"

definition sound_system :: "system \<Rightarrow> bool" where
  "sound_system c \<longleftrightarrow>
     (\<forall>t \<in> set (y_threads c). sound_thread t) \<and>
     (\<forall>(m, who) \<in> set (in_air (y_ril c)). sendable m who) \<and>
     accounts (obligations (y_ril c) + waiting_requests c) c"

lemma accounts_served:
  "accounts T c \<Longrightarrow> accounts (T + {#r_token r#}) (c\<lparr>y_received := r # y_received c\<rparr>)"
  unfolding accounts_def
  by (elim exE conjE, rule exI, rule conjI)
    (auto simp: forgettable_def received_requests_def subset_mset.order_trans)

lemma accounts_forgotten:
  assumes "accounts T c" "forgotten r"
  shows "accounts T (c\<lparr>y_received := r # y_received c\<rparr>)"
proof -
  obtain lost where "lost \<subseteq># forgettable c" "T + image_mset r_token lost = received_requests c"
    using assms(1) by (auto simp: accounts_def)
  then show ?thesis
    unfolding accounts_def using assms(2)
    by (intro exI [of _ "add_mset r lost"]) (simp add: forgettable_def received_requests_def)
qed

lemma accounts_same: "y_received c' = y_received c \<Longrightarrow> accounts T c' = accounts T c"
  by (simp add: accounts_def forgettable_def received_requests_def)

lemma remove_nth_facts:
  assumes "i < length xs"
  shows "mset xs = add_mset (xs ! i) (mset (remove_nth i xs))"
    and "set (remove_nth i xs) \<subseteq> set xs"
    and "length (remove_nth i xs) = length xs - 1"
proof -
  have xs: "xs = take i xs @ xs ! i # drop (Suc i) xs"
    using assms by (rule id_take_nth_drop)
  then show "mset xs = add_mset (xs ! i) (mset (remove_nth i xs))"
    by (metis remove_nth_def mset_append mset.simps(2) union_mset_add_mset_right)
  show "set (remove_nth i xs) \<subseteq> set xs"
    by (auto simp: remove_nth_def dest: in_set_takeD in_set_dropD)
  show "length (remove_nth i xs) = length xs - 1"
    using assms by (simp add: remove_nth_def)
qed

lemma owes_sendable:
  "owes T s s' \<Longrightarrow> \<forall>(m, who) \<in> set (in_air s). sendable m who \<Longrightarrow>
   \<forall>(m, who) \<in> set (in_air s'). sendable m who"
  by (auto simp: owes_def)

text \<open>A thread that leaves the lock keeps the balance: its request is owed or answered.\<close>

lemma leave_keeps: "leave r q c = Some c' \<Longrightarrow> y_received c' = y_received c \<and> y_giving c' = y_giving c"
  by (cases q) auto

lemma sound_leave:
  assumes left: "leave r q c = Some c'" and "serves {#r_token r#} q (y_ril c)"
    and "\<forall>t \<in> set (y_threads c). sound_thread t"
    and "\<forall>(m, who) \<in> set (in_air (y_ril c)). sendable m who"
    and acc: "accounts (obligations (y_ril c) + waiting_requests c + {#r_token r#}) c"
  shows "sound_system c'"
proof -
  have acc: "accounts (obligations (y_ril c) + waiting_requests c + {#r_token r#}) c'"
    using acc accounts_same leave_keeps [OF left] by blast
  show ?thesis
  proof (cases q)
    case (Finished s)
    with assms(1-4) acc show ?thesis
      by (auto simp: sound_system_def waiting_requests_def owes_def)
  next
    case (Executing m s k)
    with assms(1-4) acc show ?thesis
      by (auto simp: sound_system_def waiting_requests_def owes_def sound_thread_def serves_Executing)
  qed (use left in simp_all)
qed

lemma sound_ril:
  assumes "sound_system c" and "obligations s = obligations (y_ril c)"
    and "\<forall>(m, who) \<in> set (in_air s). sendable m who"
  shows "sound_system (c\<lparr>y_ril := s\<rparr>)"
  using assms accounts_same [of "c\<lparr>y_ril := s\<rparr>" c] by (simp add: sound_system_def waiting_requests_def)

lemma sound_step:
  assumes "ril_step abi p api serial c c'" and "sound_system c"
  shows "sound_system c'"
  using assms(1)
proof cases
  case (request r)
  let ?c = "c\<lparr>y_received := r # y_received c\<rparr>"
  have acc: "accounts (obligations (y_ril c) + waiting_requests c) c"
    using assms(2) by (simp add: sound_system_def)
  have waiting: "waiting_requests ?c = waiting_requests c" by (simp add: waiting_requests_def)
  consider "serves {#r_token r#} (handle_request abi p api r (y_ril c)) (y_ril c)"
    | "forgotten r" "handle_request abi p api r (y_ril c) = Finished (y_ril c)"
    using serves_request forgotten_request by blast
  then show ?thesis
  proof cases
    case 1
    show ?thesis
      by (rule sound_leave [OF request(2)])
        (use assms(2) 1 accounts_served [OF acc, of r] waiting in \<open>simp_all add: sound_system_def\<close>)
  next
    case 2
    then have "c' = ?c" using request(2) by simp
    then show ?thesis
      using assms(2) accounts_forgotten [OF acc 2(1)] waiting by (simp add: sound_system_def)
  qed
next
  case (onExecutionComplete i reply)
  let ?t = "y_threads c ! i"
  have t: "?t \<in> set (y_threads c)"
    using onExecutionComplete(3) by simp
  have waiting: "waiting_requests c' = waiting_requests c"
    using onExecutionComplete
    by (simp add: waiting_requests_def mset_update image_mset_Diff)
  have "sound_thread t" if "t \<in> set (y_threads c')" for t
  proof -
    from that have "t \<in> insert (?t\<lparr>t_reply := Some reply\<rparr>) (set (y_threads c))"
      using set_update_subset_insert by (fastforce simp: onExecutionComplete(1))
    then show ?thesis
      using t assms(2) by (auto simp: sound_system_def sound_thread_def)
  qed
  moreover have "accounts T c' = accounts T c" for T
    by (rule accounts_same) (simp add: onExecutionComplete(1))
  ultimately show ?thesis
    using assms(2) waiting by (simp add: sound_system_def) (simp add: onExecutionComplete(1))
next
  case given
  then show ?thesis
    using assms(2) accounts_same [of c' c] by (simp add: sound_system_def waiting_requests_def)
next
  case (taken i n reply)
  let ?t = "y_threads c ! i" and ?c = "c\<lparr>y_threads := remove_nth i (y_threads c), y_semaphore := n\<rparr>"
  have t: "sound_thread ?t"
    using assms(2) taken(1) by (simp add: sound_system_def)
  have "waiting_requests c = waiting_requests ?c + {#r_token (t_request ?t)#}"
    using remove_nth_facts(1) [OF taken(1)] by (simp add: waiting_requests_def)
  then have acc: "accounts (obligations (y_ril ?c) + waiting_requests ?c + {#r_token (t_request ?t)#}) ?c"
    using assms(2) accounts_same [of ?c c] by (simp add: sound_system_def)
  show ?thesis
    by (rule sound_leave [OF taken(4) _ _ _ acc])
      (use assms(2) t remove_nth_facts(2) [OF taken(1)] in \<open>auto simp: sound_system_def sound_thread_def\<close>)
next
  case (completed before m who after reply s)
  let ?s = "(y_ril c)\<lparr>in_air := before @ after\<rparr>"
  have o: "owes (tokens (pending_token who)) ?s s"
    using completion_immediate(1) [of who p reply ?s] completed(4) by simp
  have "obligations (y_ril c) = obligations ?s + tokens (pending_token who)"
    by (simp add: obligations_def completed_requests_def pending_requests_def completed(3))
  then have "obligations s = obligations (y_ril c)"
    using o by (simp add: owes_def)
  moreover have "\<forall>(m, who) \<in> set (in_air s). sendable m who"
    by (rule owes_sendable [OF o]) (use assms(2) in \<open>auto simp: sound_system_def completed(3)\<close>)
  ultimately show ?thesis
    unfolding completed(1) by (rule sound_ril [OF assms(2)])
next
  case (delivered m s)
  have o: "owes {#} (y_ril c) s"
    using deliver_immediate(1) [of p api m "y_ril c"] delivered(3) by simp
  have "\<forall>(m, who) \<in> set (in_air s). sendable m who"
    by (rule owes_sendable [OF o]) (use assms(2) in \<open>simp add: sound_system_def\<close>)
  then show ?thesis
    unfolding delivered(1) using o by (intro sound_ril [OF assms(2)]) (simp add: owes_def)
qed

lemma sound_reachable: "reachable_system abi p api serial c \<Longrightarrow> sound_system c"
proof (induction rule: rtranclp_induct)
  case base
  show ?case
    by (simp add: sound_system_def initial_system_def initial_ril_def waiting_requests_def accounts_def
        received_requests_def obligations_def completed_requests_def pending_requests_def)
qed (rule sound_step)

section \<open>Who takes the semaphore\<close>

lemma leave_threads:
  "leave r q c = Some c' \<Longrightarrow>
     (y_threads c' = y_threads c \<or> (\<exists>t. y_threads c' = y_threads c @ [t] \<and> t_reply t = None)) \<and>
     y_semaphore c' = y_semaphore c"
  by (cases q) auto

text \<open>
  With serial calls there is at most one thread, and the semaphore counts its reply, or is about to.
\<close>

lemma serial_semaphore:
  assumes "reachable_system abi p api True c"
  shows "length (y_threads c) \<le> 1 \<and>
    y_semaphore c + of_bool (y_giving c) = length (filter (\<lambda>t. t_reply t \<noteq> None) (y_threads c))"
  using assms
proof (induction rule: rtranclp_induct)
  case base
  show ?case by (simp add: initial_system_def)
next
  case (step c c')
  from step.hyps(2) show ?case
  proof cases
    case (request r)
    then show ?thesis
      using step.IH leave_threads [OF request(2)] leave_keeps [OF request(2)] by auto
  next
    case (onExecutionComplete i reply)
    then obtain t where "y_threads c = [t]" "i = 0" "t_reply t = None"
      using step.IH by (cases "y_threads c"; cases "tl (y_threads c)") auto
    then show ?thesis
      using step.IH onExecutionComplete(2) by (simp add: onExecutionComplete(1))
  next
    case (taken i n reply)
    then obtain t where "y_threads c = [t]" "i = 0"
      using step.IH by (cases "y_threads c"; cases "tl (y_threads c)") auto
    then show ?thesis
      using step.IH taken leave_threads [OF taken(4)] leave_keeps [OF taken(4)] by (auto simp: remove_nth_def)
  qed (use step.IH in auto)
qed

section \<open>The radio switched off\<close>

lemma sim_status_off:
  assumes "m_radioState s = RADIO_STATE_UNAVAILABLE \<or> m_radioState s = RADIO_STATE_OFF"
  shows "\<exists>s'. handleSIMStatus p r s = Finished s' \<and> in_air s' = in_air s"
  using assms by (simp add: handleSIMStatus_def translateSimStatus_def ril_ops)

lemma oem_hook_off:
  assumes "m_radioState s = RADIO_STATE_UNAVAILABLE \<or> m_radioState s = RADIO_STATE_OFF"
  shows "(\<exists>f. handleOemHookRaw api r s = Faulted f) \<or>
    (\<exists>s'. handleOemHookRaw api r s = Finished s' \<and> in_air s' = in_air s)"
  using assms
  by (cases "raw_arg r")
    (auto simp: handleOemHookRaw_def Let_def oem_int_def oem_done_def ril_ops split: prod.splits)

lemma radio_power_off:
  assumes "m_radioState s = RADIO_STATE_OFF"
  shows "(\<exists>f. handleRadioPower p r s = Faulted f) \<or>
    (\<exists>s'. handleRadioPower p r s = Finished s' \<and>
       (in_air s' = in_air s \<or>
        in_air s' = in_air s @ [(set_phone_mode True, RadioPowerSetModeComplete r)]))"
  using assms
  by (cases "int_arg r") (auto simp: handleRadioPower_def Let_def split_beta ril_ops)

section \<open>Properties\<close>

text \<open>
  C5. In every run of the RIL, whatever Android asks, the modem answers and the threads interleave,
  the requests received are, as a multiset, those completed, those that a message in flight will
  complete, those whose handler waits, and some lost ones: no request is completed twice, and the
  only requests that the code loses are writes to the file of fixed dialling numbers.
\<close>

theorem requests_answered_once:
  assumes "reachable_system abi p api serial c"
  shows "\<exists>lost. lost \<subseteq># filter_mset forgotten (mset (y_received c)) \<and>
    completed_requests (y_ril c) + pending_requests (y_ril c) + waiting_requests c + image_mset r_token lost =
      received_requests c"
  using sound_reachable [OF assms]
  by (simp add: sound_system_def accounts_def forgettable_def obligations_def)

definition mute_request :: "nat \<Rightarrow> request" where
  "mute_request t = \<lparr>r_code = 54, r_data = Null_data, r_data_size = 0, r_token = t\<rparr>"

lemma mute_request_handled:
  "handle_request ril_h quiet_platform byte_parcels (mute_request t) s =
     (if m_radioState s = RADIO_STATE_UNAVAILABLE \<or> m_radioState s = RADIO_STATE_OFF
      then Finished (completed (mute_request t) RIL_E_RADIO_NOT_AVAILABLE s)
      else handleGetMute (mute_request t) s)"
  using dispatched [OF ril_numbers_ril_h, of quiet_platform byte_parcels RIL_REQUEST_GET_MUTE]
  by (simp add: handle_request_def gated_def mute_request_def)

theorem requests_answered_once_witness:
  "\<exists>c. reachable_system ril_h quiet_platform byte_parcels True c \<and>
     received_requests c = {#7#} \<and> completed_requests (y_ril c) = {#7#} \<and>
     completed_requests (y_ril c) + pending_requests (y_ril c) + waiting_requests c =
       received_requests c"
proof -
  let ?c = "initial_system\<lparr>y_received := [mute_request 7],
      y_ril := completed (mute_request 7) RIL_E_RADIO_NOT_AVAILABLE initial_ril\<rparr>"
  have "ril_step ril_h quiet_platform byte_parcels True initial_system ?c"
    by (rule ril_step.request [of _ _ "mute_request 7"])
      (simp_all add: initial_system_def mute_request_handled initial_ril_def)
  then have r: "reachable_system ril_h quiet_platform byte_parcels True ?c" by blast
  have "filter_mset forgotten (mset (y_received ?c)) = {#}"
    by (simp add: forgotten_def mute_request_def)
  with requests_answered_once [OF r] have "completed_requests (y_ril ?c) + pending_requests (y_ril ?c) +
      waiting_requests ?c = received_requests ?c" by auto
  then show ?thesis
    using r by (intro exI [of _ ?c])
      (simp add: received_requests_def completed_requests_def Request_complete_def effect_def
        mute_request_def initial_ril_def)
qed

text \<open>
  C6. Every message that any handler hands to the modem, in any run, has the members of its class
  with their types, so that the modem layer never completes it with a null reply because it could
  not be written; and its class is an event, which the modem layer deletes once it is sent, exactly
  when nobody waits for its completion.
\<close>

theorem messages_marshal:
  assumes "reachable_system abi p api serial c"
  shows "(\<forall>(m, who) \<in> set (in_air (y_ril c)). writeMessage wire_ops m \<noteq> None \<and>
      (who = Unsubscribed) = (c_op (w_class m) = IPC_CMD_EVENT)) \<and>
    (\<forall>t \<in> set (y_threads c). writeMessage wire_ops (t_message t) \<noteq> None \<and>
      c_op (w_class (t_message t)) \<noteq> IPC_CMD_EVENT)"
  using sound_reachable [OF assms]
  by (auto simp: sound_system_def sound_thread_def marshals_def expects_response_def)

definition card_ready :: wire_message where
  "card_ready =
     \<lparr>w_group = group_SEC, w_class = find_class In group_SEC ''GET_PIN_STATUS_REPLY'',
      w_object = [(''state'', VU8 0), (''xstate'', VU8 0)]\<rparr>"

definition ril_ready :: ril where
  "ril_ready = setRadioState RADIO_STATE_SIM_READY initial_ril"

definition waiting_thread :: "nat \<Rightarrow> thread" where
  "waiting_thread t =
     (case handleGetMute (mute_request t) ril_ready of
        Executing m s k \<Rightarrow> \<lparr>t_request = mute_request t, t_message = m, t_continue = k, t_reply = None\<rparr>)"

lemma ready_reachable:
  "reachable_system ril_h quiet_platform byte_parcels serial (initial_system\<lparr>y_ril := ril_ready\<rparr>)"
proof -
  have "deliver quiet_platform byte_parcels card_ready (y_ril initial_system) = Finished ril_ready"
    by (simp add: deliver_def unsolicited_handlers_def card_ready_def find_outgoing
        handle_SecGetPinStatusReply_def pin_status_received_def radio_state_of_def member_u8_def
        PinStatus_Ready_def ril_ready_def initial_system_def)
  from ril_step.delivered [OF _ this] show ?thesis by (auto simp: initial_system_def)
qed

lemma mute_leaves:
  "leave (mute_request t) (handleGetMute (mute_request t) ril_ready) c =
     Some (c\<lparr>y_ril := ril_ready, y_threads := y_threads c @ [waiting_thread t]\<rparr>)"
  by (simp add: handleGetMute_def query_def waiting_thread_def)

lemma ril_ready_state: "m_radioState ril_ready = RADIO_STATE_SIM_READY"
  by (simp add: ril_ready_def setRadioState_def initial_ril_def unsolicited_def effect_def)

lemma mute_step:
  assumes "y_ril c = ril_ready" and "serial \<Longrightarrow> y_threads c = []"
  shows "ril_step ril_h quiet_platform byte_parcels serial c
    (c\<lparr>y_received := mute_request t # y_received c, y_ril := ril_ready,
       y_threads := y_threads c @ [waiting_thread t]\<rparr>)"
  by (rule ril_step.request [of _ _ "mute_request t"])
    (use assms in \<open>simp_all add: mute_request_handled ril_ready_state mute_leaves\<close>)

definition one_waiting :: system where
  "one_waiting = \<lparr>y_ril = ril_ready, y_threads = [waiting_thread 1], y_semaphore = 0,
     y_giving = False, y_received = [mute_request 1]\<rparr>"

lemma one_waiting_reachable:
  "reachable_system ril_h quiet_platform byte_parcels serial one_waiting"
proof -
  let ?c = "initial_system\<lparr>y_ril := ril_ready\<rparr>"
  have "ril_step ril_h quiet_platform byte_parcels serial ?c one_waiting"
    using mute_step [of ?c serial 1] by (simp add: initial_system_def one_waiting_def)
  with ready_reachable show ?thesis
    by (rule rtranclp.rtrancl_into_rtrancl)
qed

theorem messages_marshal_witness:
  "y_threads one_waiting = [waiting_thread 1] \<and>
   writeMessage wire_ops (t_message (waiting_thread 1)) \<noteq> None"
  using messages_marshal [OF one_waiting_reachable [of True]] by (simp add: one_waiting_def)

lemma waiting_thread_reply: "t_reply (waiting_thread t) = None"
  by (simp add: waiting_thread_def handleGetMute_def query_def)

text \<open>
  C8. As long as Android makes its calls one after the other, at most one thread is in \<open>execute\<close>, and
  the semaphore that it waits on is at one exactly when the thread's reply is there and
  \<open>onExecutionComplete\<close> has returned, and at zero otherwise.  So the thread does not continue with an
  uninitialised reply, it is woken by its reply, and no count is left over for the next \<open>execute\<close>.
\<close>

theorem single_caller_execute:
  assumes "reachable_system abi p api True c"
  shows "length (y_threads c) \<le> 1 \<and>
    y_semaphore c = (if \<not> y_giving c \<and> (\<exists>t \<in> set (y_threads c). t_reply t \<noteq> None) then 1 else 0) \<and>
    (y_giving c \<longrightarrow> (\<exists>t \<in> set (y_threads c). t_reply t \<noteq> None))"
  using serial_semaphore [OF assms]
  by (cases "y_threads c"; cases "y_giving c") (auto split: if_splits)

text \<open>The mute query with its reply, before and after the semaphore is given.\<close>

definition replied_thread :: "nat \<Rightarrow> thread" where
  "replied_thread t = (waiting_thread t)\<lparr>t_reply := Some None\<rparr>"

lemma one_replied_steps:
  "ril_step ril_h quiet_platform byte_parcels serial one_waiting
     (one_waiting\<lparr>y_threads := [replied_thread 1], y_giving := True\<rparr>)"
  "ril_step ril_h quiet_platform byte_parcels serial (one_waiting\<lparr>y_threads := [replied_thread 1], y_giving := True\<rparr>)
     (one_waiting\<lparr>y_threads := [replied_thread 1], y_semaphore := 1\<rparr>)"
  using ril_step.onExecutionComplete [of one_waiting 0] ril_step.given [of "one_waiting\<lparr>y_threads := [replied_thread 1], y_giving := True\<rparr>"]
  by (simp_all add: one_waiting_def waiting_thread_reply replied_thread_def)

theorem single_caller_execute_witness:
  "reachable_system ril_h quiet_platform byte_parcels True (one_waiting\<lparr>y_threads := [replied_thread 1], y_semaphore := 1\<rparr>) \<and>
   y_semaphore one_waiting = 0 \<and> length (y_threads one_waiting) = 1"
proof
  show "reachable_system ril_h quiet_platform byte_parcels True (one_waiting\<lparr>y_threads := [replied_thread 1], y_semaphore := 1\<rparr>)"
    using one_waiting_reachable one_replied_steps by (meson rtranclp.rtrancl_into_rtrancl)
  show "y_semaphore one_waiting = 0 \<and> length (y_threads one_waiting) = 1"
    using single_caller_execute [OF one_waiting_reachable] by (simp add: one_waiting_def waiting_thread_reply)
qed

text \<open>
  C9. With two calls at a time the semaphore is not enough: \<open>execute\<close> releases the lock, so a
  second handler can wait too, and the reply of one lets the other continue, whose own reply is
  not there.
\<close>

theorem execute_race:
  "\<exists>c. reachable_system ril_h quiet_platform byte_parcels False c \<and> misled c"
proof -
  let ?c = "\<lparr>y_ril = ril_ready, y_threads = [waiting_thread 1, waiting_thread 2], y_semaphore = 0,
      y_giving = False, y_received = [mute_request 2, mute_request 1]\<rparr>"
  let ?c2 = "?c\<lparr>y_threads := [waiting_thread 1, replied_thread 2], y_giving := True\<rparr>"
  let ?c3 = "?c\<lparr>y_threads := [waiting_thread 1, replied_thread 2], y_semaphore := 1\<rparr>"
  have "ril_step ril_h quiet_platform byte_parcels False one_waiting ?c"
    using mute_step [of one_waiting False 2] by (simp add: one_waiting_def)
  moreover have "ril_step ril_h quiet_platform byte_parcels False ?c ?c2"
    using ril_step.onExecutionComplete [of ?c 1] by (simp add: waiting_thread_reply replied_thread_def)
  moreover have "ril_step ril_h quiet_platform byte_parcels False ?c2 ?c3"
    using ril_step.given [of ?c2] by simp
  ultimately have "reachable_system ril_h quiet_platform byte_parcels False ?c3"
    using one_waiting_reachable by (meson rtranclp.rtrancl_into_rtrancl)
  then show ?thesis
    by (intro exI conjI, assumption) (simp add: misled_def waiting_thread_reply)
qed

text \<open>
  C10. The worker thread that delivers all replies never waits for one: no unsolicited message and
  no completion function, with any reply and in any state, calls \<open>execute\<close>, so the thread cannot
  block on itself.
\<close>

theorem worker_never_waits:
  "deliver p api m s \<noteq> Executing m' s' k \<and> complete_message p who reply s \<noteq> Executing m' s' k"
  using deliver_immediate(2) [of p api m s] completion_immediate(2) [of p who reply s] by auto

text \<open>
  C7. While the radio is off or unavailable no request makes the modem do anything, and none
  waits, with one exception: when the radio is off, switching it on submits the message that sets
  the normal mode.
\<close>

theorem radio_off_silent:
  assumes "ril_numbers abi"
    and "m_radioState s = RADIO_STATE_UNAVAILABLE \<or> m_radioState s = RADIO_STATE_OFF"
  shows "(\<exists>f. handle_request abi p api r s = Faulted f) \<or>
    (\<exists>s'. handle_request abi p api r s = Finished s' \<and>
       (in_air s' = in_air s \<or>
        m_radioState s = RADIO_STATE_OFF \<and> r_code r = abi RIL_REQUEST_RADIO_POWER \<and>
        in_air s' = in_air s @ [(set_phone_mode True, RadioPowerSetModeComplete r)]))"
proof (cases "gated abi (m_radioState s) (r_code r)")
  case True
  then show ?thesis by (simp add: handle_request_def ril_ops)
next
  case False
  note dispatch = dispatched [OF assms(1), of p api]
  from False assms(2) consider
      "r_code r = abi RIL_REQUEST_GET_SIM_STATUS" | "r_code r = abi RIL_REQUEST_OEM_HOOK_RAW"
    | "m_radioState s = RADIO_STATE_OFF" "r_code r = abi RIL_REQUEST_RADIO_POWER"
    by (auto simp: gated_def)
  then show ?thesis
  proof cases
    case 1
    then show ?thesis
      using False dispatch sim_status_off [OF assms(2), of p r] by (auto simp: handle_request_def)
  next
    case 2
    then show ?thesis
      using False dispatch oem_hook_off [OF assms(2), of api r] by (auto simp: handle_request_def)
  next
    case 3
    then show ?thesis
      using False dispatch radio_power_off [OF 3(1), of p r] by (auto simp: handle_request_def)
  qed
qed

theorem radio_off_silent_witness:
  "\<exists>s'. handle_request ril_h quiet_platform byte_parcels (mute_request 3) initial_ril = Finished s' \<and>
     in_air s' = in_air initial_ril"
proof -
  have "m_radioState initial_ril = RADIO_STATE_UNAVAILABLE" by (simp add: initial_ril_def)
  with radio_off_silent [OF ril_numbers_ril_h, of initial_ril quiet_platform byte_parcels "mute_request 3"]
  show ?thesis by (auto simp: mute_request_handled)
qed

end
