(* ===== verification/Modem_Boot.thy ===== *)
theory Modem_Boot
  imports NV_Data
begin

text \<open>
  Booting and dumping the modem (libsamsung-ipc/SamsungModem.cpp): the two boot stages, the boot
  loader's command protocol, and the transfer of the secure images.  The link to the modem is a
  parameter; the file system is used through its interface.
\<close>

section \<open>The link\<close>

datatype channel = Boot | IPC | Loopback | RamDump | RFS

text \<open>
  What the modem object does, in the order it does it: the calls on the transport and on the boot
  socket, and, for a dump, what it writes to the output stream and reports to the progress callback.
\<close>

datatype boot_call =
    CreateSocket channel
  | Connect
  | Redetect
  | Send "byte list"
  | Recv nat
  | CloseSocket
  | StreamWrite "byte list"
  | Progress nat nat

text \<open>
  The answers: how many bytes of a \<open>Send\<close> were taken (never more than were given), the bytes of a
  \<open>Recv\<close> (never more than asked for; none is a timeout), and success of the transport calls and of
  the stream.  \<open>None\<close> is an error for which the implementation aborts the process.
\<close>

record link =
  l_send :: "(boot_call, nat option) environment"
  l_recv :: "(boot_call, byte list option) environment"
  l_done :: "(boot_call, bool) environment"

record 'f boot_state =
  b_calls :: "boot_call list"
  b_fs :: 'f

definition note_call :: "boot_call \<Rightarrow> 'f boot_state \<Rightarrow> 'f boot_state" where
  "note_call c st = st\<lparr>b_calls := c # b_calls st\<rparr>"

definition socket_send :: "link \<Rightarrow> byte list \<Rightarrow> 'f boot_state \<Rightarrow> (nat \<times> 'f boot_state) outcome" where
  "socket_send l data st =
     (case l_send l (b_calls st) (Send data) of
        None \<Rightarrow> Inl Panic
      | Some n \<Rightarrow> Inr (min n (length data), note_call (Send data) st))"

definition socket_recv :: "link \<Rightarrow> nat \<Rightarrow> 'f boot_state \<Rightarrow> (byte list \<times> 'f boot_state) outcome" where
  "socket_recv l n st =
     (case l_recv l (b_calls st) (Recv n) of
        None \<Rightarrow> Inl Panic
      | Some bytes \<Rightarrow> Inr (take n bytes, note_call (Recv n) st))"

definition with_fs :: "('f \<Rightarrow> ('a \<times> 'f) outcome) \<Rightarrow> 'f boot_state \<Rightarrow> ('a \<times> 'f boot_state) outcome" where
  "with_fs op st = andThen (op (b_fs st)) (\<lambda>(x, f). Inr (x, st\<lparr>b_fs := f\<rparr>))"

section \<open>Sequencing\<close>

text \<open>
  A step may abort the process (\<open>Inl\<close>), fail or succeed (the \<open>bool\<close>), or never return (\<open>None\<close>).
\<close>

type_synonym 'f step = "'f boot_state \<Rightarrow> (bool \<times> 'f boot_state) outcome option"

definition succeed :: "'f step" where "succeed st = Some (Inr (True, st))"
definition fail :: "'f step" where "fail st = Some (Inr (False, st))"

definition continue :: "'a outcome \<Rightarrow> ('a \<Rightarrow> 'b outcome option) \<Rightarrow> 'b outcome option" where
  "continue m f = (case m of Inl e \<Rightarrow> Some (Inl e) | Inr x \<Rightarrow> f x)"

text \<open>\<open>if(!step) return false;\<close>\<close>

definition unless_failed :: "'f step \<Rightarrow> 'f step \<Rightarrow> 'f step" where
  "unless_failed step rest st =
     (case step st of
        None \<Rightarrow> None
      | Some (Inl e) \<Rightarrow> Some (Inl e)
      | Some (Inr (ok, st)) \<Rightarrow> if ok then rest st else fail st)"

section \<open>Acknowledgements\<close>

definition expectAck :: "link \<Rightarrow> byte list \<Rightarrow> 'f step" where
  "expectAck l data st =
     continue (socket_recv l (length data) st) (\<lambda>(bytes, st).
       if length bytes < length data then fail st
       else if bytes \<noteq> data then fail st
       else succeed st)"

text \<open>\<open>if(recv(ack, 1) == 0) return false;\<close>\<close>

definition expect_byte :: "link \<Rightarrow> 'f step" where
  "expect_byte l st =
     continue (socket_recv l 1 st) (\<lambda>(bytes, st). if bytes = [] then fail st else succeed st)"

primrec expect_bytes :: "link \<Rightarrow> nat \<Rightarrow> 'f step" where
  "expect_bytes l 0 = succeed"
| "expect_bytes l (Suc n) = unless_failed (expect_byte l) (expect_bytes l n)"

definition send_step :: "link \<Rightarrow> byte list \<Rightarrow> 'f step" where
  "send_step l data st = continue (socket_send l data st) (\<lambda>(n, st). succeed st)"

section \<open>Sending an image\<close>

definition calculateCRC :: "byte list \<Rightarrow> byte" where
  "calculateCRC data = fold (\<lambda>b crc. xor crc b) data 0"

text \<open>
  The loop \<open>while(offset < img.size())\<close>: it advances by what \<open>send\<close> took, so a link that takes
  nothing keeps it running forever.
\<close>

partial_function (option) send_all ::
    "link \<Rightarrow> nat \<Rightarrow> byte list \<Rightarrow> nat \<Rightarrow> 'f boot_state \<Rightarrow> (bool \<times> 'f boot_state) outcome option"
where
  "send_all l limit img offset st =
     (if offset < length img then
        (case socket_send l (take limit (drop offset img)) st of
           Inl e \<Rightarrow> Some (Inl e)
         | Inr (bytes, st) \<Rightarrow> send_all l limit img (offset + bytes) st)
      else Some (Inr (True, st)))"

definition load_firmware :: "'f fs_ops \<Rightarrow> FirmwareType \<Rightarrow> (byte list \<Rightarrow> 'f step) \<Rightarrow> 'f step" where
  "load_firmware ops type rest st =
     continue (with_fs (fs_getFirmware ops type) st) (\<lambda>((ok, img), st).
       if \<not> ok then fail st else rest img st)"

definition psi_header :: "byte list \<Rightarrow> byte list" where
  "psi_header img = [0x30] @ le16 (of_nat (length img)) @ [0xFF]"

definition sendPSI :: "link \<Rightarrow> 'f fs_ops \<Rightarrow> 'f step" where
  "sendPSI l ops =
     load_firmware ops PSI (\<lambda>img.
       unless_failed (send_step l (lit ''ATAT'')) (
       unless_failed (expect_byte l) (
       unless_failed (expect_byte l) (
       unless_failed (send_step l (psi_header img)) (
       unless_failed (send_all l (length img) img 0) (
       unless_failed (send_step l [calculateCRC img]) (
       unless_failed (expect_bytes l 22) (
       unless_failed (expectAck l [0x01]) (
       unless_failed (expectAck l [0x01])
         (expectAck l [0x00, 0xAA]))))))))))"

definition sendEBL :: "link \<Rightarrow> 'f fs_ops \<Rightarrow> 'f step" where
  "sendEBL l ops =
     load_firmware ops EBL (\<lambda>img.
       unless_failed (send_step l (le32 (of_nat (length img)))) (
       unless_failed (expectAck l [0xCC, 0xCC]) (
       unless_failed (send_all l 32768 img 0) (
       unless_failed (send_step l [calculateCRC img])
         (expectAck l [0x51, 0xA5])))))"

section \<open>Boot loader commands\<close>

definition SetPortConf :: u16 where "SetPortConf = 0x86"
definition ReqSecStart :: u16 where "ReqSecStart = 0x204"
definition ReqSecEnd :: u16 where "ReqSecEnd = 0x205"
definition ReqForceHwReset :: u16 where "ReqForceHwReset = 0x208"
definition ReqFlashSetAddress :: u16 where "ReqFlashSetAddress = 0x802"
definition ReqFlashWriteBlock :: u16 where "ReqFlashWriteBlock = 0x804"

definition command_checksum :: "u16 \<Rightarrow> byte list \<Rightarrow> u16" where
  "command_checksum cmd data = fold (\<lambda>b acc. acc + ucast b) data (of_nat (length data mod 0x10000) + cmd)"

definition command_size :: "u16 \<Rightarrow> nat" where
  "command_size cmd = (if cmd = SetPortConf then 0x800 + 8 else 0x4000 + 8)"

definition command_packet :: "u16 \<Rightarrow> byte list \<Rightarrow> byte list" where
  "command_packet cmd data =
     (let packet = le16 (command_checksum cmd data) @ le16 cmd @ le32 (of_nat (length data)) @ data
      in packet @ replicate (command_size cmd - length packet) 0)"

text \<open>Data that does not fit behind the header is copied over the end of the buffer.\<close>

definition bootloaderCommand :: "link \<Rightarrow> u16 \<Rightarrow> byte list \<Rightarrow> 'f step" where
  "bootloaderCommand l cmd data st =
     (if command_size cmd < 8 + length data then Some (Inl Undefined)
      else continue (socket_send l (command_packet cmd data) st) (\<lambda>(n, st).
        if cmd \<noteq> ReqForceHwReset \<and> cmd \<noteq> ReqFlashWriteBlock then
          continue (socket_recv l 8 st) (\<lambda>(reply, st).
            if length reply \<noteq> 8 then fail st
            else if de16 (drop 2 reply) \<noteq> cmd then fail st
            else continue (socket_recv l (command_size cmd - 8) st) (\<lambda>(reply_buf, st).
              if length reply_buf \<noteq> command_size cmd - 8 then fail st
              else succeed st))
        else succeed st))"

definition readBootInfo :: "link \<Rightarrow> 'f step" where
  "readBootInfo l st =
     continue (socket_recv l 76 st) (\<lambda>(info, st).
       if length info \<noteq> 76 then fail st else bootloaderCommand l SetPortConf info st)"

function flash_blocks :: "link \<Rightarrow> byte list \<Rightarrow> nat \<Rightarrow> 'f step" where
  "flash_blocks l img offset st =
     (if offset < length img then
        (let chunk = min (length img - offset) 16384 in
         unless_failed (bootloaderCommand l ReqFlashWriteBlock (take chunk (drop offset img)))
           (flash_blocks l img (offset + chunk)) st)
      else succeed st)"
  by pat_completeness auto
termination
  by (relation "measure (\<lambda>(l, img, offset, st). length img - offset)") auto

declare flash_blocks.simps [simp del]

definition loadFlashImage :: "link \<Rightarrow> u32 \<Rightarrow> byte list \<Rightarrow> 'f step" where
  "loadFlashImage l address img =
     unless_failed (bootloaderCommand l ReqFlashSetAddress (le32 address)) (flash_blocks l img 0)"

definition sendSecureImage :: "link \<Rightarrow> 'f fs_ops \<Rightarrow> 'f step" where
  "sendSecureImage l ops =
     load_firmware ops SecureImage (\<lambda>secure.
     load_firmware ops Firmware (\<lambda>firmware st.
       continue (with_fs (\<lambda>f. Inr (fs_readNVData ops 0 (replicate 2097152 0) f)) st) (\<lambda>((ret, nvdata), st).
         if ret < 0 then fail st
         else
           unless_failed (bootloaderCommand l ReqSecStart secure) (
           unless_failed (loadFlashImage l 0x60300000 firmware) (
           unless_failed (loadFlashImage l 0x60e80000 nvdata)
             (bootloaderCommand l ReqSecEnd [0, 0]))) st)))"

section \<open>Boot and dump\<close>

definition transport_step :: "link \<Rightarrow> boot_call \<Rightarrow> 'f step" where
  "transport_step l c st = Some (Inr (l_done l (b_calls st) c, note_call c st))"

definition note_step :: "boot_call \<Rightarrow> 'f step" where
  "note_step c st = succeed (note_call c st)"

definition boot :: "link \<Rightarrow> 'f fs_ops \<Rightarrow> 'f step" where
  "boot l ops =
     unless_failed (note_step (CreateSocket Boot)) (
     unless_failed (transport_step l Connect) (
     unless_failed (sendPSI l ops) (
     unless_failed (sendEBL l ops) (
     unless_failed (readBootInfo l) (
     unless_failed (sendSecureImage l ops) (
     unless_failed (bootloaderCommand l ReqForceHwReset (le32 0x00111001)) (
     unless_failed (note_step CloseSocket)
       (transport_step l Redetect))))))))"

definition stream_write :: "link \<Rightarrow> byte list \<Rightarrow> 'f step" where
  "stream_write l data st =
     (if l_done l (b_calls st) (StreamWrite data) then succeed (note_call (StreamWrite data) st)
      else Some (Inl Panic))"

definition report :: "bool \<Rightarrow> nat \<Rightarrow> nat \<Rightarrow> 'f boot_state \<Rightarrow> 'f boot_state" where
  "report progress a b st = (if progress then note_call (Progress a b) st else st)"

text \<open>The loop runs until \<open>recv\<close> times out.\<close>

partial_function (option) dump_blocks ::
    "link \<Rightarrow> bool \<Rightarrow> nat \<Rightarrow> 'f boot_state \<Rightarrow> (bool \<times> 'f boot_state) outcome option"
where
  "dump_blocks l progress count st =
     (case socket_recv l 16384 st of
        Inl e \<Rightarrow> Some (Inl e)
      | Inr (bytes, st) \<Rightarrow>
          if \<not> l_done l (b_calls st) (StreamWrite bytes) then Some (Inl Panic)
          else (let count = count + length bytes;
                    st = report progress (count div 16384) (50 * 1024 * 1024 div 16384)
                      (note_call (StreamWrite bytes) st)
                in if bytes \<noteq> [] then dump_blocks l progress count st else Some (Inr (True, st))))"

definition modem_dump :: "link \<Rightarrow> 'f fs_ops \<Rightarrow> bool \<Rightarrow> 'f step" where
  "modem_dump l ops progress =
     unless_failed (note_step (CreateSocket Boot)) (
     unless_failed (note_step Connect) (
     unless_failed (sendPSI l ops) (
     unless_failed (send_step l (le32 0xDEADDEAD)) (\<lambda>st.
       continue (socket_recv l 150 st) (\<lambda>(message, st).
         if length message \<noteq> 150 then fail st
         else
           unless_failed (stream_write l message) (
           unless_failed (send_step l (lit ''PASS'')) (\<lambda>st.
           unless_failed (dump_blocks l progress 0) (note_step CloseSocket)
             (report progress 0 (50 * 1024 * 1024) st))) st)))))"

section \<open>Steps\<close>

lemma unless_failed_True [simp]:
  "unless_failed s r st = Some (Inr (True, st')) \<longleftrightarrow>
     (\<exists>st1. s st = Some (Inr (True, st1)) \<and> r st1 = Some (Inr (True, st')))"
  by (auto simp: unless_failed_def fail_def split: option.splits sum.splits if_splits)

lemma continue_Some: "continue m f = Some (Inr x) \<longleftrightarrow> (\<exists>y. m = Inr y \<and> f y = Some (Inr x))"
  by (auto simp: continue_def split: sum.splits)

lemma succeed_fail [simp]: "succeed st = Some (Inr (b, st')) \<longleftrightarrow> b \<and> st' = st" "fail st \<noteq> Some (Inr (True, st'))"
  by (auto simp: succeed_def fail_def)

lemma load_firmware_True:
  "load_firmware ops type rest st = Some (Inr (True, st')) \<longleftrightarrow>
     (\<exists>img f. fs_getFirmware ops type (b_fs st) = Inr ((True, img), f) \<and>
       rest img (st\<lparr>b_fs := f\<rparr>) = Some (Inr (True, st')))"
  by (auto simp: load_firmware_def with_fs_def continue_Some andThen_eq_Inr split: if_splits)

lemma note_call_simps [simp]: "b_calls (note_call c st) = c # b_calls st" "b_fs (note_call c st) = b_fs st"
  by (simp_all add: note_call_def)

lemma socket_send_Inr:
  "socket_send l data st = Inr (n, st') \<longleftrightarrow>
     (\<exists>v. l_send l (b_calls st) (Send data) = Some v \<and> n = min v (length data) \<and> st' = note_call (Send data) st)"
  by (auto simp: socket_send_def split: option.splits)

lemma socket_recv_Inr:
  "socket_recv l n st = Inr (bytes, st') \<longleftrightarrow>
     (\<exists>v. l_recv l (b_calls st) (Recv n) = Some v \<and> bytes = take n v \<and> st' = note_call (Recv n) st)"
  by (auto simp: socket_recv_def split: option.splits)

section \<open>What went over the link\<close>

text \<open>The packets given to the link, the bytes it took, the bytes it delivered, and the bytes written to the stream.\<close>

fun sends :: "boot_call list \<Rightarrow> byte list list" where
  "sends [] = []"
| "sends (Send d # h) = sends h @ [d]"
| "sends (c # h) = sends h"

fun accepted_bytes :: "link \<Rightarrow> boot_call list \<Rightarrow> byte list" where
  "accepted_bytes l [] = []"
| "accepted_bytes l (Send d # h) =
     accepted_bytes l h @ (case l_send l h (Send d) of Some n \<Rightarrow> take n d | None \<Rightarrow> [])"
| "accepted_bytes l (c # h) = accepted_bytes l h"

fun received_bytes :: "link \<Rightarrow> boot_call list \<Rightarrow> byte list" where
  "received_bytes l [] = []"
| "received_bytes l (Recv n # h) =
     received_bytes l h @ (case l_recv l h (Recv n) of Some bs \<Rightarrow> take n bs | None \<Rightarrow> [])"
| "received_bytes l (c # h) = received_bytes l h"

fun streamed_bytes :: "boot_call list \<Rightarrow> byte list" where
  "streamed_bytes [] = []"
| "streamed_bytes (StreamWrite d # h) = streamed_bytes h @ d"
| "streamed_bytes (c # h) = streamed_bytes h"

text \<open>A step that only receives.\<close>

definition silent :: "link \<Rightarrow> 'f boot_state \<Rightarrow> 'f boot_state \<Rightarrow> bool" where
  "silent l st st' \<longleftrightarrow> sends (b_calls st') = sends (b_calls st) \<and>
     accepted_bytes l (b_calls st') = accepted_bytes l (b_calls st) \<and> b_fs st' = b_fs st"

lemma silent_refl [simp]: "silent l st st"
  by (simp add: silent_def)

lemma silent_trans: "silent l st st1 \<Longrightarrow> silent l st1 st2 \<Longrightarrow> silent l st st2"
  by (simp add: silent_def)

lemma expectAck_silent: "expectAck l data st = Some (Inr (True, st')) \<Longrightarrow> silent l st st'"
  by (auto simp: expectAck_def continue_Some socket_recv_Inr silent_def split: if_splits)

lemma expect_byte_silent: "expect_byte l st = Some (Inr (True, st')) \<Longrightarrow> silent l st st'"
  by (auto simp: expect_byte_def continue_Some socket_recv_Inr silent_def split: if_splits)

lemma expect_bytes_silent: "expect_bytes l n st = Some (Inr (True, st')) \<Longrightarrow> silent l st st'"
  by (induction n arbitrary: st) (auto intro: silent_trans dest: expect_byte_silent)

lemmas silent_steps = expectAck_silent expect_byte_silent expect_bytes_silent

text \<open>The loop hands over the rest of the image exactly once, however the link splits it.\<close>

lemma send_all_accepted:
  fixes st st' :: "'f boot_state"
  assumes ret: "send_all l limit img offset st = Some (Inr (ok, st'))"
  shows "ok \<and> accepted_bytes l (b_calls st') = accepted_bytes l (b_calls st) @ drop offset img \<and> b_fs st' = b_fs st"
proof -
  define Q where "Q l img offset st r \<longleftrightarrow> (\<forall>ok st'. r = Inr (ok, st') \<longrightarrow> ok \<and>
      accepted_bytes l (b_calls st') = accepted_bytes l (b_calls st) @ drop offset img \<and> b_fs st' = b_fs st)"
    for l img offset and st :: "'f boot_state" and r :: "(bool \<times> 'f boot_state) outcome"
  have "Q l img offset st (Inr (ok, st'))"
  proof (rule send_all.raw_induct [where P = "\<lambda>l limit img offset st r. Q l img offset st r", OF _ ret])
    fix d l limit img offset and st :: "'f boot_state" and r
    assume IH: "\<And>l limit img offset (st :: 'f boot_state) y. d l limit img offset st = Some y \<Longrightarrow> Q l img offset st y"
      and eq: "(if offset < length img
         then case socket_send l (take limit (drop offset img)) st of Inl e \<Rightarrow> Some (Inl e)
              | Inr (bytes, st) \<Rightarrow> d l limit img (offset + bytes) st
         else Some (Inr (True, st))) = Some r"
    show "Q l img offset st r"
    proof (cases "offset < length img")
      case False
      with eq show ?thesis by (auto simp: Q_def)
    next
      case True
      show ?thesis
      proof (cases "socket_send l (take limit (drop offset img)) st")
        case (Inl e)
        with eq True show ?thesis by (auto simp: Q_def)
      next
        case (Inr x)
        then obtain n st1 where x: "x = (n, st1)" by fastforce
        with Inr obtain v where v: "l_send l (b_calls st) (Send (take limit (drop offset img))) = Some v"
          "n = min v (min limit (length img - offset))" "st1 = note_call (Send (take limit (drop offset img))) st"
          by (auto simp: socket_send_Inr)
        have "take v (take limit (drop offset img)) @ drop (offset + n) img = drop offset img"
          using v(2) by (simp add: min_def not_le) (metis add.commute append_take_drop_id drop_drop drop_all append_Nil2 take_all
            length_drop le_cases not_le)
        moreover have "d l limit img (offset + n) st1 = Some r" using eq True Inr x by simp
        ultimately show ?thesis using IH [of l limit img "offset + n" st1 r] v by (auto simp: Q_def)
      qed
    qed
  qed
  then show ?thesis by (simp add: Q_def)
qed

section \<open>Commands\<close>

lemma command_packet_length: "8 + length data \<le> command_size cmd \<Longrightarrow> length (command_packet cmd data) = command_size cmd"
  by (simp add: command_packet_def Let_def)

lemma drop_le: "drop 2 (le16 a @ xs) = xs" "drop 4 (le16 a @ le16 b @ xs) = xs" "drop 8 (le16 a @ le16 b @ le32 c @ xs) = xs"
  by (simp_all add: le16_def le32_def)

lemma command_packet_fields:
  "de16 (command_packet cmd data) = command_checksum cmd data"
  "de16 (drop 2 (command_packet cmd data)) = cmd"
  "de32 (drop 4 (command_packet cmd data)) = of_nat (length data)"
  "take (length data) (drop 8 (command_packet cmd data)) = data"
  by (simp_all add: command_packet_def Let_def drop_le)

lemma command_checksum_sum:
  "command_checksum cmd data = cmd + of_nat (length data + sum_list (map unat data))"
proof -
  have "fold (\<lambda>b acc. acc + ucast b) data a = a + of_nat (sum_list (map unat data))" for a :: u16
    by (induction data arbitrary: a) simp_all
  moreover have "(of_nat (length data mod 0x10000) :: u16) = of_nat (length data)"
    by (simp add: word_unat_eq_iff unat_of_nat)
  ultimately show ?thesis by (simp add: command_checksum_def algebra_simps)
qed

lemma bootloaderCommand_sends:
  assumes "bootloaderCommand l cmd data st = Some (Inr (True, st'))"
  shows "8 + length data \<le> command_size cmd \<and>
    sends (b_calls st') = sends (b_calls st) @ [command_packet cmd data] \<and> b_fs st' = b_fs st"
  using assms
  by (auto simp: bootloaderCommand_def continue_Some socket_send_Inr socket_recv_Inr split: if_splits)

lemma flash_blocks_sends:
  "flash_blocks l img offset st = Some (Inr (True, st')) \<Longrightarrow>
     \<exists>blocks. concat blocks = drop offset img \<and> list_all (\<lambda>b. 0 < length b \<and> length b \<le> 16384) blocks \<and>
       sends (b_calls st') = sends (b_calls st) @ map (command_packet ReqFlashWriteBlock) blocks \<and> b_fs st' = b_fs st"
proof (induction l img offset st arbitrary: st' rule: flash_blocks.induct)
  case (1 l img offset st)
  show ?case
  proof (cases "offset < length img")
    case True
    define chunk where "chunk = min (length img - offset) 16384"
    obtain st1 where cmd: "bootloaderCommand l ReqFlashWriteBlock (take chunk (drop offset img)) st = Some (Inr (True, st1))"
      and rest: "flash_blocks l img (offset + chunk) st1 = Some (Inr (True, st'))"
      using "1.prems" True by (subst (asm) flash_blocks.simps) (auto simp: Let_def chunk_def)
    from "1.IH" [OF True chunk_def rest] obtain blocks where blocks: "concat blocks = drop (offset + chunk) img"
      "list_all (\<lambda>b. 0 < length b \<and> length b \<le> 16384) blocks"
      "sends (b_calls st') = sends (b_calls st1) @ map (command_packet ReqFlashWriteBlock) blocks" "b_fs st' = b_fs st1"
      by blast
    have "take chunk (drop offset img) @ drop (offset + chunk) img = drop offset img"
      by (metis add.commute append_take_drop_id drop_drop)
    then show ?thesis
      using blocks bootloaderCommand_sends [OF cmd] True
      by (intro exI [of _ "take chunk (drop offset img) # blocks"]) (auto simp: chunk_def)
  next
    case False
    with "1.prems" show ?thesis by (subst (asm) flash_blocks.simps) (auto intro: exI [of _ "[]"])
  qed
qed

lemma loadFlashImage_sends:
  assumes "loadFlashImage l address img st = Some (Inr (True, st'))"
  obtains blocks where "concat blocks = img" "list_all (\<lambda>b. 0 < length b \<and> length b \<le> 16384) blocks"
    "sends (b_calls st') = sends (b_calls st) @ command_packet ReqFlashSetAddress (le32 address) #
       map (command_packet ReqFlashWriteBlock) blocks" "b_fs st' = b_fs st"
  using assms by (auto simp: loadFlashImage_def dest!: flash_blocks_sends bootloaderCommand_sends)

section \<open>No command overflows its buffer\<close>

definition sound_step :: "'f step \<Rightarrow> bool" where
  "sound_step s \<longleftrightarrow> (\<forall>st. s st \<noteq> Some (Inl Undefined))"

lemma sound_unless [intro]: "sound_step s \<Longrightarrow> sound_step r \<Longrightarrow> sound_step (unless_failed s r)"
  by (auto simp: sound_step_def unless_failed_def fail_def split: option.splits sum.splits prod.splits)

lemma sound_simple [simp, intro]:
  "sound_step succeed" "sound_step fail" "sound_step (note_step c)" "sound_step (transport_step l c)"
  "sound_step (send_step l data)" "sound_step (expectAck l data)" "sound_step (expect_byte l)"
  by (auto simp: sound_step_def succeed_def fail_def note_step_def transport_step_def send_step_def expectAck_def
      expect_byte_def continue_def socket_send_def socket_recv_def split: option.splits if_splits sum.splits)

lemma sound_expect_bytes [intro]: "sound_step (expect_bytes l n)"
  by (induction n) auto

lemma sound_command [intro]: "8 + length data \<le> command_size cmd \<Longrightarrow> sound_step (bootloaderCommand l cmd data)"
  by (auto simp: sound_step_def bootloaderCommand_def continue_def socket_send_def socket_recv_def succeed_def fail_def
      split: option.splits if_splits sum.splits)

lemma sound_flash_blocks [intro]: "sound_step (flash_blocks l img offset :: 'f step)"
proof -
  have "flash_blocks l img offset st \<noteq> Some (Inl Undefined)" for st :: "'f boot_state"
  proof (induction l img offset st rule: flash_blocks.induct)
    case (1 l img offset st)
    have "sound_step (bootloaderCommand l ReqFlashWriteBlock (take (min (length img - offset) 16384) (drop offset img)) :: 'f step)"
      by (rule sound_command) (simp add: command_size_def SetPortConf_def ReqFlashWriteBlock_def)
    then show ?case
      using "1.IH"
      by (subst flash_blocks.simps)
        (auto simp: Let_def unless_failed_def succeed_def fail_def sound_step_def split: option.splits sum.splits)
  qed
  then show ?thesis by (simp add: sound_step_def)
qed

lemma sound_loadFlashImage [intro]: "sound_step (loadFlashImage l address img)"
  unfolding loadFlashImage_def
  by (intro sound_unless sound_command sound_flash_blocks) (simp add: command_size_def SetPortConf_def ReqFlashSetAddress_def)

lemma send_all_fault:
  fixes st :: "'f boot_state"
  assumes ret: "send_all l limit img offset st = Some r"
  shows "r \<noteq> Inl Undefined"
proof (rule send_all.raw_induct [where P = "\<lambda>l limit img offset st r. r \<noteq> Inl Undefined", OF _ ret])
  fix d l limit img offset and st :: "'f boot_state" and r
  assume IH: "\<And>l limit img offset (st :: 'f boot_state) y. d l limit img offset st = Some y \<Longrightarrow> y \<noteq> Inl Undefined"
    and eq: "(if offset < length img
       then case socket_send l (take limit (drop offset img)) st of Inl e \<Rightarrow> Some (Inl e)
            | Inr (bytes, st) \<Rightarrow> d l limit img (offset + bytes) st
       else Some (Inr (True, st))) = Some r"
  show "r \<noteq> Inl Undefined"
  proof (cases "l_send l (b_calls st) (Send (take limit (drop offset img)))")
    case None
    with eq show ?thesis by (auto simp: socket_send_def split: if_splits)
  next
    case (Some n)
    with eq IH show ?thesis by (fastforce simp: socket_send_def split: if_splits)
  qed
qed

lemma sound_send_all [intro]: "sound_step (send_all l limit img offset)"
  by (auto simp: sound_step_def dest: send_all_fault)

text \<open>The images of the Android file system have the sizes of their slices.\<close>

lemma android_firmware:
  "getFirmware k type f = Inr ((ok, img), f') \<Longrightarrow> ok \<and> length img = snd (firmware_slice type)"
  by (auto simp: getFirmware_def andThen_eq_Inr split: prod.splits if_splits)

lemma or_panic_sound: "or_panic r \<noteq> Inl Undefined"
  by (auto simp: or_panic_def split: prod.splits sum.splits)

lemma android_firmware_sound: "getFirmware k type f \<noteq> Inl Undefined"
  by (auto simp: getFirmware_def andThen_eq_Inl NativeFile_open_def NativeFile_pread_def or_panic_sound
      split: prod.splits if_splits)

lemma sound_load_firmware:
  assumes "\<And>img. length img = snd (firmware_slice type) \<Longrightarrow> sound_step (rest img)"
  shows "sound_step (load_firmware (android_ops k h) type rest)"
  unfolding sound_step_def
proof
  fix st
  show "load_firmware (android_ops k h) type rest st \<noteq> Some (Inl Undefined)"
  proof (cases "getFirmware k type (b_fs st)")
    case (Inl e)
    then show ?thesis
      using android_firmware_sound [of k type "b_fs st"]
      by (auto simp: load_firmware_def continue_def with_fs_def android_ops_def)
  next
    case (Inr x)
    then obtain ok img f' where x: "x = ((ok, img), f')" by (metis surj_pair)
    with Inr android_firmware [of k type "b_fs st" ok img f'] assms [of img] show ?thesis
      by (auto simp: load_firmware_def continue_def with_fs_def android_ops_def sound_step_def fail_def)
  qed
qed

lemma sound_sendPSI: "sound_step (sendPSI l (android_ops k h))"
  unfolding sendPSI_def by (rule sound_load_firmware) (intro sound_unless sound_simple sound_send_all sound_expect_bytes)

lemma sound_sendEBL: "sound_step (sendEBL l (android_ops k h))"
  unfolding sendEBL_def by (rule sound_load_firmware) (intro sound_unless sound_simple sound_send_all)

lemma sound_readBootInfo: "sound_step (readBootInfo l :: 'f step)"
proof -
  have "sound_step (bootloaderCommand l SetPortConf info :: 'f step)" if "length info = 76" for info
    using that by (intro sound_command) (simp add: command_size_def)
  then show ?thesis
    by (auto simp: sound_step_def readBootInfo_def continue_def socket_recv_def fail_def split: option.splits)
qed

lemma sound_sendSecureImage: "sound_step (sendSecureImage l (android_ops k h))"
proof -
  have "sound_step (\<lambda>st. continue (with_fs (\<lambda>f. Inr (fs_readNVData (android_ops k h) 0 (replicate 2097152 0) f)) st)
      (\<lambda>((ret, nvdata), st). if ret < 0 then fail st else
         unless_failed (bootloaderCommand l ReqSecStart secure) (
         unless_failed (loadFlashImage l 0x60300000 firmware) (
         unless_failed (loadFlashImage l 0x60e80000 nvdata) (bootloaderCommand l ReqSecEnd [0, 0]))) st))"
    if "length secure = 2048" for secure firmware
  proof -
    have "sound_step (unless_failed (bootloaderCommand l ReqSecStart secure) (
         unless_failed (loadFlashImage l 0x60300000 firmware) (
         unless_failed (loadFlashImage l 0x60e80000 nvdata) (bootloaderCommand l ReqSecEnd [0, 0]))) :: file_system step)"
      for nvdata
      using that
      by (intro sound_unless sound_command sound_loadFlashImage)
        (simp_all add: command_size_def SetPortConf_def ReqSecStart_def ReqSecEnd_def)
    then show ?thesis
      by (auto simp: sound_step_def continue_def with_fs_def fail_def split: prod.splits)
  qed
  then show ?thesis
    unfolding sendSecureImage_def by (intro sound_load_firmware) simp
qed

section \<open>Every step returns when the link takes bytes\<close>

definition eager :: "link \<Rightarrow> bool" where
  "eager l \<longleftrightarrow> (\<forall>h d n. d \<noteq> [] \<longrightarrow> l_send l h (Send d) = Some n \<longrightarrow> 0 < n)"

definition returns :: "'f step \<Rightarrow> bool" where
  "returns s \<longleftrightarrow> (\<forall>st. s st \<noteq> None)"

lemma returns_unless [intro]: "returns s \<Longrightarrow> returns r \<Longrightarrow> returns (unless_failed s r)"
  by (auto simp: returns_def unless_failed_def fail_def split: option.splits sum.splits prod.splits)

lemma returns_simple [simp, intro]:
  "returns succeed" "returns fail" "returns (note_step c)" "returns (transport_step l c)"
  "returns (send_step l data)" "returns (expectAck l data)" "returns (expect_byte l)" "returns (bootloaderCommand l cmd data)"
  by (auto simp: returns_def succeed_def fail_def note_step_def transport_step_def send_step_def expectAck_def
      expect_byte_def bootloaderCommand_def continue_def split: option.splits if_splits sum.splits)

lemma returns_expect_bytes [intro]: "returns (expect_bytes l n)"
  by (induction n) auto

lemma returns_load_firmware: "(\<And>img. returns (rest img)) \<Longrightarrow> returns (load_firmware ops type rest)"
  by (auto simp: returns_def load_firmware_def continue_def fail_def split: sum.splits)

lemma returns_send_all:
  assumes "eager l" "0 < limit"
  shows "send_all l limit img offset st \<noteq> None"
proof (induction "length img - offset" arbitrary: offset st rule: less_induct)
  case less
  show ?case
  proof (cases "offset < length img")
    case True
    let ?piece = "take limit (drop offset img)"
    have "?piece \<noteq> []" using True assms(2) by simp
    show ?thesis
    proof (cases "l_send l (b_calls st) (Send ?piece)")
      case (Some n)
      with \<open>?piece \<noteq> []\<close> assms(1) have "0 < n" unfolding eager_def by blast
      with True assms(2) have "length img - (offset + min n (length ?piece)) < length img - offset" by auto
      from less [OF this] Some True show ?thesis by (subst send_all.simps) (simp add: socket_send_def)
    qed (subst send_all.simps, simp add: socket_send_def)
  qed (subst send_all.simps, simp)
qed

lemma returns_send_all_step: "eager l \<Longrightarrow> 0 < limit \<or> img = [] \<Longrightarrow> returns (send_all l limit img 0)"
  using returns_send_all [of l limit img 0] by (auto simp: returns_def send_all.simps [of _ _ "[]"])

lemma returns_flash_blocks: "returns (flash_blocks l img offset :: 'f step)"
proof -
  have "flash_blocks l img offset st \<noteq> None" for st :: "'f boot_state"
  proof (induction l img offset st rule: flash_blocks.induct)
    case (1 l img offset st)
    have "returns (bootloaderCommand l ReqFlashWriteBlock (take (min (length img - offset) 16384) (drop offset img)) :: 'f step)"
      by simp
    then show ?case
      using "1.IH"
      by (subst flash_blocks.simps)
        (auto simp: Let_def unless_failed_def succeed_def fail_def returns_def split: option.splits sum.splits;
          metis option.distinct(1))
  qed
  then show ?thesis by (simp add: returns_def)
qed

lemma returns_sendPSI: "eager l \<Longrightarrow> returns (sendPSI l ops)"
  unfolding sendPSI_def
  by (intro returns_load_firmware returns_unless returns_simple returns_send_all_step returns_expect_bytes) auto

lemma returns_sendEBL: "eager l \<Longrightarrow> returns (sendEBL l ops)"
  unfolding sendEBL_def
  by (intro returns_load_firmware returns_unless returns_simple returns_send_all_step) auto

lemma returns_sendSecureImage: "returns (sendSecureImage l ops :: 'f step)"
proof -
  have "returns (unless_failed (bootloaderCommand l ReqSecStart secure) (
         unless_failed (loadFlashImage l 0x60300000 firmware) (
         unless_failed (loadFlashImage l 0x60e80000 nvdata) (bootloaderCommand l ReqSecEnd [0, 0]))) :: 'f step)"
    for secure firmware nvdata
    unfolding loadFlashImage_def by (intro returns_unless returns_simple returns_flash_blocks)
  then show ?thesis
    unfolding sendSecureImage_def
    by (intro returns_load_firmware) (auto simp: returns_def continue_def with_fs_def fail_def split: prod.splits sum.splits)
qed

section \<open>The secure session\<close>

lemma sendSecureImage_True:
  assumes "sendSecureImage l ops st = Some (Inr (True, st'))"
  obtains secure firmware ret nvdata f2 f3 f4 t0 t1 t2 t3 where
    "fs_getFirmware ops SecureImage (b_fs st) = Inr ((True, secure), f2)"
    "fs_getFirmware ops Firmware f2 = Inr ((True, firmware), f3)"
    "fs_readNVData ops 0 (replicate 2097152 0) f3 = ((ret, nvdata), f4)" "0 \<le> ret"
    "b_calls t0 = b_calls st"
    "bootloaderCommand l ReqSecStart secure t0 = Some (Inr (True, t1))"
    "loadFlashImage l 0x60300000 firmware t1 = Some (Inr (True, t2))"
    "loadFlashImage l 0x60e80000 nvdata t2 = Some (Inr (True, t3))"
    "bootloaderCommand l ReqSecEnd [0, 0] t3 = Some (Inr (True, st'))"
proof -
  obtain secure f2 firmware f3 where fw:
    "fs_getFirmware ops SecureImage (b_fs st) = Inr ((True, secure), f2)"
    "fs_getFirmware ops Firmware f2 = Inr ((True, firmware), f3)"
    and rest: "continue (with_fs (\<lambda>f. Inr (fs_readNVData ops 0 (replicate 2097152 0) f)) (st\<lparr>b_fs := f3\<rparr>))
      (\<lambda>((ret, nvdata), st). if ret < 0 then fail st else
        unless_failed (bootloaderCommand l ReqSecStart secure) (
        unless_failed (loadFlashImage l 0x60300000 firmware) (
        unless_failed (loadFlashImage l 0x60e80000 nvdata) (bootloaderCommand l ReqSecEnd [0, 0]))) st) =
      Some (Inr (True, st'))"
    using assms unfolding sendSecureImage_def load_firmware_True by auto
  obtain ret nvdata f4 where nv: "fs_readNVData ops 0 (replicate 2097152 0) f3 = ((ret, nvdata), f4)"
    by (metis surj_pair)
  have "0 \<le> ret" using rest nv by (auto simp: continue_def with_fs_def split: if_splits)
  with rest nv obtain t1 t2 t3 where
    "bootloaderCommand l ReqSecStart secure (st\<lparr>b_fs := f4\<rparr>) = Some (Inr (True, t1))"
    "loadFlashImage l 0x60300000 firmware t1 = Some (Inr (True, t2))"
    "loadFlashImage l 0x60e80000 nvdata t2 = Some (Inr (True, t3))"
    "bootloaderCommand l ReqSecEnd [0, 0] t3 = Some (Inr (True, st'))"
    by (auto simp: continue_def with_fs_def)
  with fw nv \<open>0 \<le> ret\<close> show thesis by (intro that [of secure f2 firmware f3 ret nvdata f4 "st\<lparr>b_fs := f4\<rparr>"]) simp_all
qed

section \<open>The dump\<close>

lemma dump_blocks_streams:
  fixes st st' :: "'f boot_state"
  assumes ret: "dump_blocks l progress count st = Some (Inr (ok, st'))"
  shows "ok \<and> (\<exists>bytes. received_bytes l (b_calls st') = received_bytes l (b_calls st) @ bytes \<and>
    streamed_bytes (b_calls st') = streamed_bytes (b_calls st) @ bytes)"
proof -
  define Q where "Q l st r \<longleftrightarrow> (\<forall>ok st'. r = Inr (ok, st') \<longrightarrow> ok \<and>
      (\<exists>bytes. received_bytes l (b_calls st') = received_bytes l (b_calls st) @ bytes \<and>
        streamed_bytes (b_calls st') = streamed_bytes (b_calls st) @ bytes))"
    for l and st :: "'f boot_state" and r :: "(bool \<times> 'f boot_state) outcome"
  have "Q l st (Inr (ok, st'))"
  proof (rule dump_blocks.raw_induct [where P = "\<lambda>l progress count st r. Q l st r", OF _ ret])
    fix d l progress count and st :: "'f boot_state" and r
    assume IH: "\<And>l progress count (st :: 'f boot_state) y. d l progress count st = Some y \<Longrightarrow> Q l st y"
      and eq: "(case socket_recv l 16384 st of Inl e \<Rightarrow> Some (Inl e)
         | Inr (bytes, st) \<Rightarrow>
             if \<not> l_done l (b_calls st) (StreamWrite bytes) then Some (Inl Panic)
             else let count = count + length bytes;
                      st = report progress (count div 16384) (50 * 1024 * 1024 div 16384)
                        (note_call (StreamWrite bytes) st)
                  in if bytes \<noteq> [] then d l progress count st else Some (Inr (True, st))) = Some r"
    show "Q l st r"
    proof (cases "l_recv l (b_calls st) (Recv 16384)")
      case None
      with eq show ?thesis by (auto simp: Q_def socket_recv_def)
    next
      case (Some v)
      define bytes where "bytes = take 16384 v"
      define st1 where "st1 = report progress ((count + length bytes) div 16384) 3200
        (note_call (StreamWrite bytes) (note_call (Recv 16384) st))"
      have st1: "received_bytes l (b_calls st1) = received_bytes l (b_calls st) @ bytes"
        "streamed_bytes (b_calls st1) = streamed_bytes (b_calls st) @ bytes"
        using Some by (simp_all add: st1_def report_def bytes_def)
      show ?thesis
      proof (cases "l_done l (Recv 16384 # b_calls st) (StreamWrite bytes)")
        case False
        with eq Some show ?thesis by (auto simp: Q_def socket_recv_def bytes_def)
      next
        case True
        have "(if bytes \<noteq> [] then d l progress (count + length bytes) st1 else Some (Inr (True, st1))) = Some r"
          using eq Some True by (auto simp: socket_recv_def bytes_def st1_def Let_def split: if_splits)
        then show ?thesis
          using IH [of l progress "count + length bytes" st1 r] st1 by (auto simp: Q_def split: if_splits)
      qed
    qed
  qed
  then show ?thesis by (simp add: Q_def)
qed

section \<open>A modem that cooperates\<close>

text \<open>
  It takes all bytes, acknowledges single bytes with 1 and the three two-byte acknowledgements in
  turn, and echoes the header of a command with data of zeros.  Its files are one byte long.
\<close>

definition acks :: "boot_call list \<Rightarrow> nat" where
  "acks h = length (filter (\<lambda>c. c = Recv 2) h)"

definition good_link :: link where
  "good_link =
     \<lparr>l_send = (\<lambda>h c. case c of Send d \<Rightarrow> Some (length d) | _ \<Rightarrow> None),
      l_recv = (\<lambda>h c. case c of Recv n \<Rightarrow> Some (
        if n = 1 then [1]
        else if n = 2 then (if acks h = 0 then [0, 0xAA] else if acks h = 1 then [0xCC, 0xCC] else [0x51, 0xA5])
        else if n = 8 then (if sends h = [] then [] else last (sends h))
        else replicate n 0) | _ \<Rightarrow> None),
      l_done = (\<lambda>h c. True)\<rparr>"

definition small_ops :: "file_system fs_ops" where
  "small_ops = (android_ops calm_kernel id)
     \<lparr>fs_getFirmware := (\<lambda>t f. Inr ((True, [7]), f)), fs_readNVData := (\<lambda>offset data f. ((0, data), f))\<rparr>"

definition boot_start :: "file_system boot_state" where
  "boot_start = \<lparr>b_calls = [], b_fs = calm_state\<rparr>"

lemma good_simps:
  "socket_send good_link d st = Inr (length d, note_call (Send d) st)"
  "socket_recv good_link 1 st = Inr ([1], note_call (Recv 1) st)"
  "socket_recv good_link 2 st =
     Inr (if acks (b_calls st) = 0 then [0, 0xAA] else if acks (b_calls st) = 1 then [0xCC, 0xCC] else [0x51, 0xA5],
       note_call (Recv 2) st)"
  "n \<notin> {1, 2, 8} \<Longrightarrow> socket_recv good_link n st = Inr (replicate n 0, note_call (Recv n) st)"
  by (auto simp: socket_send_def socket_recv_def good_link_def)

lemmas good_steps = good_simps good_simps(2) [unfolded One_nat_def] good_simps(3) [unfolded numeral_2_eq_2 One_nat_def]

lemma acks_simps [simp]:
  "acks [] = 0" "acks (Recv 2 # h) = Suc (acks h)" "acks (Recv (Suc (Suc 0)) # h) = Suc (acks h)" "n \<noteq> 2 \<Longrightarrow> acks (Recv n # h) = acks h"
  "acks (Send d # h) = acks h" "acks (CreateSocket c # h) = acks h" "acks (Connect # h) = acks h"
  by (simp_all add: acks_def)

lemma good_command:
  assumes "8 + length data \<le> command_size cmd"
  shows "\<exists>st'. bootloaderCommand good_link cmd data st = Some (Inr (True, st'))"
proof -
  have "socket_recv good_link 8 (note_call (Send (command_packet cmd data)) st) =
      Inr (take 8 (command_packet cmd data), note_call (Recv 8) (note_call (Send (command_packet cmd data)) st))"
    by (simp add: socket_recv_def good_link_def)
  moreover have "length (take 8 (command_packet cmd data)) = 8"
    using command_packet_length [OF assms] assms by simp
  moreover have "de16 (drop 2 (take 8 (command_packet cmd data))) = cmd"
    using command_packet_fields(2) [of cmd data] by (simp add: command_packet_def Let_def le16_def le32_def)
  moreover have "command_size cmd - 8 \<notin> {1, 2, 8}" by (simp add: command_size_def)
  ultimately show ?thesis
    using assms
    by (simp add: bootloaderCommand_def good_simps continue_def succeed_def)
qed

lemma good_flash_blocks: "\<exists>st'. flash_blocks good_link img offset st = Some (Inr (True, st'))"
proof (induction "length img - offset" arbitrary: offset st rule: less_induct)
  case less
  show ?case
  proof (cases "offset < length img")
    case True
    have "8 + length (take (min (length img - offset) 16384) (drop offset img)) \<le> command_size ReqFlashWriteBlock"
      by (simp add: command_size_def SetPortConf_def ReqFlashWriteBlock_def)
    from good_command [OF this, of st] obtain st1 where
      "bootloaderCommand good_link ReqFlashWriteBlock (take (min (length img - offset) 16384) (drop offset img)) st =
        Some (Inr (True, st1))" ..
    moreover from True have "length img - (offset + min (length img - offset) 16384) < length img - offset" by auto
    ultimately show ?thesis
      using less [of "offset + min (length img - offset) 16384" st1] True
      by (subst flash_blocks.simps) (simp add: Let_def)
  qed (subst flash_blocks.simps, simp add: succeed_def)
qed

lemma good_loadFlashImage: "\<exists>st'. loadFlashImage good_link address img st = Some (Inr (True, st'))"
proof -
  have "8 + length (le32 address) \<le> command_size ReqFlashSetAddress"
    by (simp add: command_size_def SetPortConf_def ReqFlashSetAddress_def)
  from good_command [OF this, of st] good_flash_blocks [of img 0] show ?thesis
    by (auto simp: loadFlashImage_def)
qed

lemma good_expect_bytes:
  "\<exists>st'. expect_bytes good_link n st = Some (Inr (True, st')) \<and> acks (b_calls st') = acks (b_calls st)"
proof (induction n arbitrary: st)
  case (Suc n)
  have "expect_byte good_link st = Some (Inr (True, note_call (Recv 1) st))"
    by (simp add: expect_byte_def good_steps continue_def succeed_def)
  with Suc [of "note_call (Recv 1) st"] show ?case by simp
qed (simp add: succeed_def)

lemma good_send_all:
  "0 < limit \<Longrightarrow> send_all good_link limit [x] 0 st = Some (Inr (True, note_call (Send [x]) st))"
  by (simp add: send_all.simps [of _ _ _ 0] send_all.simps [of _ _ _ 1] send_all.simps [of _ _ _ "Suc 0"] good_steps)

lemma good_PSI:
  assumes "acks (b_calls st) = 0"
  shows "\<exists>st'. sendPSI good_link small_ops st = Some (Inr (True, st')) \<and> acks (b_calls st') = 1"
proof -
  obtain st1 where "expect_bytes good_link 22 (note_call (Send [7]) (note_call (Send [7])
      (note_call (Send (psi_header [7])) (note_call (Recv 1) (note_call (Recv 1) (note_call (Send (lit ''ATAT''))
        (st\<lparr>b_fs := b_fs st\<rparr>))))))) = Some (Inr (True, st1))" "acks (b_calls st1) = 0"
    using good_expect_bytes [of 22] assms by fastforce
  then show ?thesis
    by (intro exI [of _ "note_call (Recv 2) (note_call (Recv 1) (note_call (Recv 1) st1))"])
      (simp add: sendPSI_def load_firmware_True small_ops_def send_step_def expect_byte_def expectAck_def good_steps
        good_send_all continue_def succeed_def calculateCRC_def del: expect_bytes.simps)
qed

lemma good_EBL:
  assumes "acks (b_calls st) = 1"
  shows "\<exists>st'. sendEBL good_link small_ops st = Some (Inr (True, st'))"
  using assms
  by (simp add: sendEBL_def load_firmware_True small_ops_def send_step_def expectAck_def good_steps
      good_send_all continue_def succeed_def calculateCRC_def)

lemma good_boot: "\<exists>st'. boot good_link small_ops boot_start = Some (Inr (True, st'))"
proof -
  let ?st = "note_call Connect (note_call (CreateSocket Boot) boot_start)"
  obtain st1 where 1: "sendPSI good_link small_ops ?st = Some (Inr (True, st1))" "acks (b_calls st1) = 1"
    using good_PSI [of ?st] by (auto simp: boot_start_def)
  obtain st2 where 2: "sendEBL good_link small_ops st1 = Some (Inr (True, st2))"
    using good_EBL [OF 1(2)] ..
  obtain st3 where "bootloaderCommand good_link SetPortConf (replicate 76 0) (note_call (Recv 76) st2) = Some (Inr (True, st3))"
    using good_command [of "replicate 76 0" SetPortConf] by (auto simp: command_size_def)
  then have 3: "readBootInfo good_link st2 = Some (Inr (True, st3))"
    by (simp add: readBootInfo_def good_steps continue_def del: replicate.simps)
  obtain a where cmd: "bootloaderCommand good_link ReqSecStart [7] (st3\<lparr>b_fs := b_fs st3\<rparr>) = Some (Inr (True, a))"
    using good_command [of "[7]" ReqSecStart] by (auto simp: command_size_def ReqSecStart_def SetPortConf_def)
  obtain b where fw: "loadFlashImage good_link 0x60300000 [7] a = Some (Inr (True, b))"
    using good_loadFlashImage by blast
  obtain c where nv: "loadFlashImage good_link 0x60e80000 (replicate 2097152 0) b = Some (Inr (True, c))"
    using good_loadFlashImage by blast
  obtain d where "bootloaderCommand good_link ReqSecEnd [0, 0] c = Some (Inr (True, d))"
    using good_command [of "[0, 0]" ReqSecEnd] by (auto simp: command_size_def ReqSecEnd_def SetPortConf_def)
  note cmd fw nv this
  then have 4: "sendSecureImage good_link small_ops st3 = Some (Inr (True, d))"
    by (simp add: sendSecureImage_def load_firmware_True small_ops_def continue_def with_fs_def del: replicate.simps)
  obtain e where "bootloaderCommand good_link ReqForceHwReset (le32 0x00111001) d = Some (Inr (True, e))"
    using good_command [of "le32 0x00111001" ReqForceHwReset] by (auto simp: command_size_def ReqForceHwReset_def SetPortConf_def)
  with 1 2 3 4 show ?thesis
    by (simp add: boot_def note_step_def transport_step_def succeed_def) (simp add: good_link_def)
qed

section \<open>Properties\<close>

text \<open>
  When the PSI stage succeeds, the bytes the modem took are the greeting, the header, the whole
  PSI image exactly once, and its checksum, however the link split the image: only the greeting, the
  header and the checksum byte, whose sends are not checked, can have been cut short.
\<close>

theorem psi_transmitted:
  assumes "sendPSI l ops st = Some (Inr (True, st'))"
  shows "\<exists>img f a b c. fs_getFirmware ops PSI (b_fs st) = Inr ((True, img), f) \<and> b_fs st' = f \<and>
    accepted_bytes l (b_calls st') = accepted_bytes l (b_calls st) @
      take a (lit ''ATAT'') @ take b (psi_header img) @ img @ take c [calculateCRC img]"
proof -
  obtain img f st1 st2 st3 st4 st5 st6 st7 st8 st9 where steps:
    "fs_getFirmware ops PSI (b_fs st) = Inr ((True, img), f)"
    "send_step l (lit ''ATAT'') (st\<lparr>b_fs := f\<rparr>) = Some (Inr (True, st1))"
    "expect_byte l st1 = Some (Inr (True, st2))" "expect_byte l st2 = Some (Inr (True, st3))"
    "send_step l (psi_header img) st3 = Some (Inr (True, st4))"
    "send_all l (length img) img 0 st4 = Some (Inr (True, st5))"
    "send_step l [calculateCRC img] st5 = Some (Inr (True, st6))"
    "expect_bytes l 22 st6 = Some (Inr (True, st7))" "expectAck l [1] st7 = Some (Inr (True, st8))"
    "expectAck l [1] st8 = Some (Inr (True, st9))" "expectAck l [0, 0xAA] st9 = Some (Inr (True, st'))"
    using assms by (auto simp: sendPSI_def load_firmware_def with_fs_def continue_Some andThen_eq_Inr
        split: if_splits simp del: expect_bytes.simps)
  have send: "\<exists>n. accepted_bytes l (b_calls t') = accepted_bytes l (b_calls t) @ take n d \<and> b_fs t' = b_fs t"
    if "send_step l d t = Some (Inr (True, t'))" for d t t'
    using that by (auto simp: send_step_def continue_Some socket_send_Inr)
  from send [OF steps(2)] send [OF steps(5)] send [OF steps(7)] show ?thesis
    using silent_steps(2) [OF steps(3)] silent_steps(2) [OF steps(4)] silent_steps(3) [OF steps(8)]
      silent_steps(1) [OF steps(9)] silent_steps(1) [OF steps(10)] silent_steps(1) [OF steps(11)]
      send_all_accepted [OF steps(6)] steps(1)
    by (auto simp: silent_def) blast
qed

theorem psi_transmitted_witness:
  "\<exists>st' a b c. sendPSI good_link small_ops boot_start = Some (Inr (True, st')) \<and>
     accepted_bytes good_link (b_calls st') =
       take a (lit ''ATAT'') @ take b (psi_header [7]) @ [7] @ take c [calculateCRC [7]]"
proof -
  obtain st' where run: "sendPSI good_link small_ops boot_start = Some (Inr (True, st'))"
    using good_PSI [of boot_start] by (auto simp: boot_start_def)
  from psi_transmitted [OF run] run show ?thesis
    by (auto simp: small_ops_def boot_start_def)
qed

lemma readBootInfo_sends:
  assumes "readBootInfo l st = Some (Inr (True, st'))"
  obtains info where "length info = 76"
    "sends (b_calls st') = sends (b_calls st) @ [command_packet SetPortConf info]"
proof -
  obtain info t where "socket_recv l 76 st = Inr (info, t)" and len: "length info = 76"
    and cmd: "bootloaderCommand l SetPortConf info t = Some (Inr (True, st'))"
    using assms by (auto simp: readBootInfo_def continue_Some split: if_splits)
  then have "sends (b_calls t) = sends (b_calls st)" by (auto simp: socket_recv_Inr)
  with bootloaderCommand_sends [OF cmd] len show thesis by (intro that [of info]) simp_all
qed

text \<open>
  C28. A boot that succeeds has sent both boot stages, and from there on its transcript is exactly: the
  port configuration, the start of the secure session with the secure image, the firmware and the NV
  data, each as its address and blocks of at most 16 KB that make up the whole image in order, the
  end of the session and the reset; then the socket is closed and the link detected again.
\<close>

theorem boot_transcript:
  assumes "boot l ops st = Some (Inr (True, st'))"
  shows "\<exists>psi ebl st0 info secure firmware nvdata blocks nv_blocks calls.
    sendPSI l ops psi = Some (Inr (True, ebl)) \<and> sendEBL l ops ebl = Some (Inr (True, st0)) \<and>
    b_calls st' = Redetect # CloseSocket # calls \<and>
    sends calls = sends (b_calls st0) @
      [command_packet SetPortConf info, command_packet ReqSecStart secure,
       command_packet ReqFlashSetAddress (le32 0x60300000)] @ map (command_packet ReqFlashWriteBlock) blocks @
      [command_packet ReqFlashSetAddress (le32 0x60e80000)] @ map (command_packet ReqFlashWriteBlock) nv_blocks @
      [command_packet ReqSecEnd [0, 0], command_packet ReqForceHwReset (le32 0x00111001)] \<and>
    length info = 76 \<and> concat blocks = firmware \<and> concat nv_blocks = nvdata \<and>
    list_all (\<lambda>b. 0 < length b \<and> length b \<le> 16384) (blocks @ nv_blocks) \<and>
    (\<exists>f1 f2 f3 f4 ret. fs_getFirmware ops SecureImage f1 = Inr ((True, secure), f2) \<and>
      fs_getFirmware ops Firmware f2 = Inr ((True, firmware), f3) \<and>
      fs_readNVData ops 0 (replicate 2097152 0) f3 = ((ret, nvdata), f4) \<and> 0 \<le> ret)"
proof -
  obtain psi ebl st0 st1 st2 st3 where stages:
    "sendPSI l ops psi = Some (Inr (True, ebl))" "sendEBL l ops ebl = Some (Inr (True, st0))"
    and steps: "readBootInfo l st0 = Some (Inr (True, st1))"
    "sendSecureImage l ops st1 = Some (Inr (True, st2))"
    "bootloaderCommand l ReqForceHwReset (le32 0x00111001) st2 = Some (Inr (True, st3))"
    "b_calls st' = Redetect # CloseSocket # b_calls st3"
    using assms by (auto simp: boot_def transport_step_def note_step_def)
  obtain info where info: "length info = 76"
    "sends (b_calls st1) = sends (b_calls st0) @ [command_packet SetPortConf info]"
    by (rule readBootInfo_sends [OF steps(1)])
  obtain secure firmware ret nvdata f2 f3 f4 t0 t1 t2 t3 where secure:
    "fs_getFirmware ops SecureImage (b_fs st1) = Inr ((True, secure), f2)"
    "fs_getFirmware ops Firmware f2 = Inr ((True, firmware), f3)"
    "fs_readNVData ops 0 (replicate 2097152 0) f3 = ((ret, nvdata), f4)" "0 \<le> ret"
    "b_calls t0 = b_calls st1"
    "bootloaderCommand l ReqSecStart secure t0 = Some (Inr (True, t1))"
    "loadFlashImage l 0x60300000 firmware t1 = Some (Inr (True, t2))"
    "loadFlashImage l 0x60e80000 nvdata t2 = Some (Inr (True, t3))"
    "bootloaderCommand l ReqSecEnd [0, 0] t3 = Some (Inr (True, st2))"
    by (rule sendSecureImage_True [OF steps(2)])
  obtain blocks where blocks: "concat blocks = firmware" "list_all (\<lambda>b. 0 < length b \<and> length b \<le> 16384) blocks"
    "sends (b_calls t2) = sends (b_calls t1) @ command_packet ReqFlashSetAddress (le32 0x60300000) #
       map (command_packet ReqFlashWriteBlock) blocks"
    by (rule loadFlashImage_sends [OF secure(7)])
  obtain nv_blocks where nv: "concat nv_blocks = nvdata" "list_all (\<lambda>b. 0 < length b \<and> length b \<le> 16384) nv_blocks"
    "sends (b_calls t3) = sends (b_calls t2) @ command_packet ReqFlashSetAddress (le32 0x60e80000) #
       map (command_packet ReqFlashWriteBlock) nv_blocks"
    by (rule loadFlashImage_sends [OF secure(8)])
  have "sends (b_calls st3) = sends (b_calls st0) @
      [command_packet SetPortConf info, command_packet ReqSecStart secure,
       command_packet ReqFlashSetAddress (le32 0x60300000)] @ map (command_packet ReqFlashWriteBlock) blocks @
      [command_packet ReqFlashSetAddress (le32 0x60e80000)] @ map (command_packet ReqFlashWriteBlock) nv_blocks @
      [command_packet ReqSecEnd [0, 0], command_packet ReqForceHwReset (le32 0x00111001)]"
    using bootloaderCommand_sends [OF secure(6)] bootloaderCommand_sends [OF secure(9)]
      bootloaderCommand_sends [OF steps(3)] info(2) secure(5) blocks(3) nv(3) by simp
  note all_sends = this
  have sizes: "list_all (\<lambda>b. 0 < length b \<and> length b \<le> 16384) (blocks @ nv_blocks)"
    using blocks(2) nv(2) by simp
  show ?thesis
    by (intro exI conjI, rule stages(1), rule stages(2), rule steps(4), rule all_sends, rule info(1), rule blocks(1), rule nv(1), rule sizes,
        rule secure(1), rule secure(2), rule secure(3), rule secure(4))
qed

theorem boot_transcript_witness:
  "\<exists>st' calls. boot good_link small_ops boot_start = Some (Inr (True, st')) \<and>
     b_calls st' = Redetect # CloseSocket # calls \<and> sends calls \<noteq> []"
proof -
  obtain st' where run: "boot good_link small_ops boot_start = Some (Inr (True, st'))"
    using good_boot ..
  from boot_transcript [OF run] run show ?thesis by fastforce
qed

text \<open>
  Every packet of the boot loader protocol has the fixed size of its command and carries the
  command, the length of the data and the data behind an 8-byte header, whose check field is the sum
  modulo 2^16 of the command, the length and the data bytes.
\<close>

theorem command_packet_layout:
  assumes "8 + length data \<le> command_size cmd"
  shows "length (command_packet cmd data) = command_size cmd \<and>
    de16 (command_packet cmd data) = cmd + of_nat (length data + sum_list (map unat data)) \<and>
    de16 (drop 2 (command_packet cmd data)) = cmd \<and>
    de32 (drop 4 (command_packet cmd data)) = of_nat (length data) \<and>
    take (length data) (drop 8 (command_packet cmd data)) = data"
  using command_packet_length [OF assms] command_packet_fields command_checksum_sum by simp

theorem command_packet_layout_witness:
  "length (command_packet SetPortConf [1, 2]) = 0x808 \<and> de16 (command_packet SetPortConf [1, 2]) = 0x8B"
  using command_packet_layout [of "[1, 2]" SetPortConf] by (simp add: command_size_def SetPortConf_def)

text \<open>
  C29. On the Android file system no boot loader command runs over its buffer: whatever the modem
  answers, a boot can fail or abort, but never copies data behind the end of a packet.
\<close>

theorem boot_never_overflows: "boot l (android_ops k md5) st \<noteq> Some (Inl Undefined)"
proof -
  have "sound_step (boot l (android_ops k md5))"
    unfolding boot_def
    by (intro sound_unless sound_simple sound_sendPSI sound_sendEBL sound_readBootInfo sound_sendSecureImage sound_command)
      (simp add: command_size_def SetPortConf_def ReqForceHwReset_def)
  then show ?thesis by (simp add: sound_step_def)
qed

text \<open>
  C30. A boot returns, with whatever result, when the link takes at least one byte of everything it is
  given; a link that takes nothing of the image is sent the same bytes forever.
\<close>

theorem boot_returns:
  fixes ops :: "'f fs_ops"
  assumes "eager l"
  shows "boot l ops st \<noteq> None"
proof -
  have "returns (readBootInfo l :: 'f step)"
  proof -
    have "returns (bootloaderCommand l SetPortConf info :: 'f step)" for info by simp
    then show ?thesis by (auto simp: returns_def readBootInfo_def continue_def fail_def split: sum.splits)
  qed
  then have "returns (boot l ops)"
    unfolding boot_def
    by (intro returns_unless returns_simple returns_sendPSI [OF assms] returns_sendEBL [OF assms] returns_sendSecureImage)
  then show ?thesis by (simp add: returns_def)
qed

theorem boot_returns_witness: "boot good_link small_ops boot_start \<noteq> None"
  by (rule boot_returns) (auto simp: eager_def good_link_def)

text \<open>
  A dump that returns has written to the stream exactly what the modem delivered since the error
  message was requested: the message and then every block up to the first empty one, in order.
\<close>

theorem dump_streams_everything:
  assumes "dump_blocks l progress count st = Some (Inr (ok, st'))"
  shows "ok \<and> (\<exists>bytes. received_bytes l (b_calls st') = received_bytes l (b_calls st) @ bytes \<and>
    streamed_bytes (b_calls st') = streamed_bytes (b_calls st) @ bytes)"
  by (rule dump_blocks_streams [OF assms])

theorem dump_streams_everything_witness:
  "\<exists>st'. dump_blocks (good_link\<lparr>l_recv := \<lambda>h c. Some (if h = [] then [1, 2] else [])\<rparr>) False 0 boot_start =
      Some (Inr (True, st')) \<and> streamed_bytes (b_calls st') = [1, 2]"
proof -
  let ?l = "good_link\<lparr>l_recv := \<lambda>h c. Some (if h = [] then [1, 2] else [])\<rparr>"
  let ?st = "note_call (StreamWrite []) (note_call (Recv 16384)
    (note_call (StreamWrite [1, 2]) (note_call (Recv 16384) boot_start)))"
  have run: "dump_blocks ?l False 0 boot_start = Some (Inr (True, ?st))"
    by (subst dump_blocks.simps, simp add: socket_recv_def boot_start_def report_def Let_def,
        subst dump_blocks.simps, simp add: socket_recv_def report_def Let_def) (simp add: good_link_def)
  from dump_streams_everything [OF run] run show ?thesis by (auto simp: boot_start_def)
qed

end
