(* ===== verification/RIL_Init.thy ===== *)
theory RIL_Init
  imports Worker_Thread RIL_System Modem_Boot
begin

text \<open>
  The start of the radio interface layer (ril/ril.cpp and RIL::RIL, RIL::initialize of ril/RIL.cpp):
  the check of the Java class, the operator database, the boot of the modem and its channels in this
  order, and the functions that Android is given.  The parts are those of the other theories.
\<close>

section \<open>The object\<close>

text \<open>The RIL with its database and request handler, the modem on its link, and the modem's thread.\<close>

record 'f ril_core =
  k_ril :: ril
  k_boot :: "'f boot_state"
  k_worker :: "(wire_message, 'f) worker option"

definition RIL :: "'f \<Rightarrow> 'f ril_core" where
  "RIL f = \<lparr>k_ril = initial_ril, k_boot = \<lparr>b_calls = [], b_fs = f\<rparr>, k_worker = None\<rparr>"

definition property_value :: "platform \<Rightarrow> string \<Rightarrow> byte list \<Rightarrow> ril \<Rightarrow> byte list \<times> ril" where
  "property_value p key fallback s =
     (case property_get p (ril_effects s) (Property_get key) of None \<Rightarrow> fallback | Some v \<Rightarrow> c_str v,
      effect (Property_get key) s)"

text \<open>The class of the Java side; an override replaces it.\<close>

definition ril_class :: "platform \<Rightarrow> ril \<Rightarrow> byte list \<times> ril" where
  "ril_class p s =
     (let (shadow, s) = property_value p ''ro.telephony.ril_class'' (lit ''RIL'') s
      in property_value p ''ril.override_class'' shadow s)"

text \<open>
  The modem's \<open>initialize\<close>, on the descriptors of its pipe and of the sockets of the two channels.
\<close>

definition start_channels :: "int \<times> int \<times> int \<Rightarrow> 'f ril_core \<Rightarrow> 'f ril_core" where
  "start_channels fds c =
     (case fds of (control, ipc_fd, rfs_fd) \<Rightarrow>
        c\<lparr>k_boot := note_call (CreateSocket RFS) (note_call (CreateSocket IPC) (k_boot c)),
          k_worker := Some (modem_initialize control ipc_fd rfs_fd (b_fs (k_boot c)))\<rparr>)"

definition RIL_initialize ::
    "platform \<Rightarrow> link \<Rightarrow> 'f fs_ops \<Rightarrow> int \<times> int \<times> int \<Rightarrow> 'f ril_core \<Rightarrow>
     (bool \<times> 'f ril_core) outcome option"
where
  "RIL_initialize p l ops fds c =
     (let (value, s) = ril_class p (k_ril c) in
      if value \<noteq> lit ''RIL'' then Some (Inr (False, c\<lparr>k_ril := s\<rparr>))
      else let (opened, s) = database_open p s; c = c\<lparr>k_ril := s\<rparr> in
        if \<not> opened then Some (Inr (False, c))
        else case boot l ops (k_boot c) of
            None \<Rightarrow> None
          | Some (Inl e) \<Rightarrow> Some (Inl e)
          | Some (Inr (booted, st)) \<Rightarrow>
              if \<not> booted then Some (Inr (False, c\<lparr>k_boot := st\<rparr>))
              else Some (Inr (True, start_channels fds (c\<lparr>k_boot := st\<rparr>))))"

text \<open>\<open>RIL_Init\<close>: the table of functions is returned (\<open>True\<close>) or a null pointer.\<close>

definition RIL_Init ::
    "platform \<Rightarrow> link \<Rightarrow> 'f fs_ops \<Rightarrow> int \<times> int \<times> int \<Rightarrow> 'f \<Rightarrow> (bool \<times> 'f ril_core) outcome option"
where
  "RIL_Init p l ops fds f = RIL_initialize p l ops fds (RIL f)"

section \<open>The calls of Android\<close>

text \<open>
  The methods of the object: a request goes to the handler with its data and token, the radio state
  is read, \<open>supports\<close> asks the table, and \<open>cancel\<close> ignores its token.
\<close>

definition RIL_request ::
    "ril_abi \<Rightarrow> platform \<Rightarrow> 'p parcel_api \<Rightarrow> request \<Rightarrow> 'f ril_core \<Rightarrow> process"
where
  [simp]: "RIL_request abi p api r c = handle_request abi p api r (k_ril c)"

definition RIL_radioState :: "'f ril_core \<Rightarrow> radio_state" where
  [simp]: "RIL_radioState c = m_radioState (k_ril c)"

definition RIL_supports :: "ril_abi \<Rightarrow> platform \<Rightarrow> 'p parcel_api \<Rightarrow> int \<Rightarrow> 'f ril_core \<Rightarrow> int" where
  [simp]: "RIL_supports abi p api code c = (if supports abi p api code then 1 else 0)"

definition RIL_cancel :: "nat \<Rightarrow> 'f ril_core \<Rightarrow> 'f ril_core" where
  "RIL_cancel token c = c"

definition RIL_getVersion :: "'f ril_core \<Rightarrow> byte list" where
  "RIL_getVersion c = lit ''FreeRIL-I9100 (prerelease version)''"

section \<open>The table of functions\<close>

text \<open>They use the object that \<open>RIL_Init\<close> left in a static pointer.\<close>

definition requestThunk ::
    "ril_abi \<Rightarrow> platform \<Rightarrow> 'p parcel_api \<Rightarrow> request \<Rightarrow> 'f ril_core option \<Rightarrow> process"
where
  "requestThunk abi p api r ril =
     (case ril of None \<Rightarrow> Faulted Undefined | Some c \<Rightarrow> RIL_request abi p api r c)"

definition stateRequestThunk :: "'f ril_core option \<Rightarrow> radio_state outcome" where
  "stateRequestThunk ril = (case ril of None \<Rightarrow> Inl Undefined | Some c \<Rightarrow> Inr (RIL_radioState c))"

definition supportsThunk ::
    "ril_abi \<Rightarrow> platform \<Rightarrow> 'p parcel_api \<Rightarrow> int \<Rightarrow> 'f ril_core option \<Rightarrow> int outcome"
where
  "supportsThunk abi p api code ril =
     (case ril of None \<Rightarrow> Inl Undefined | Some c \<Rightarrow> Inr (RIL_supports abi p api code c))"

definition cancelThunk :: "nat \<Rightarrow> 'f ril_core option \<Rightarrow> 'f ril_core outcome" where
  "cancelThunk token ril = (case ril of None \<Rightarrow> Inl Undefined | Some c \<Rightarrow> Inr (RIL_cancel token c))"

definition getVersionThunk :: "'f ril_core option \<Rightarrow> byte list outcome" where
  "getVersionThunk ril = (case ril of None \<Rightarrow> Inl Undefined | Some c \<Rightarrow> Inr (RIL_getVersion c))"

section \<open>What starting up does\<close>

lemma ril_class_keeps: "ril_class p s = (v, s') \<Longrightarrow> m_radioState s' = m_radioState s"
  by (auto simp: ril_class_def property_value_def effect_def Let_def)

lemma database_open_keeps: "database_open p s = (ok, s') \<Longrightarrow> m_radioState s' = m_radioState s"
  by (auto simp: database_open_def sql_def effect_def Let_def split: if_splits)

lemma startup_keeps:
  "ril_class p s = (v, s1) \<Longrightarrow> database_open p s1 = (ok, s2) \<Longrightarrow> m_radioState s2 = m_radioState s"
  by (simp add: ril_class_keeps database_open_keeps)

lemma boot_ends:
  assumes "boot l ops st = Some (Inr (True, st'))"
  shows "\<exists>h. b_calls st' = Redetect # CloseSocket # h"
  using assms by (auto simp: boot_def transport_step_def note_step_def)

lemma RIL_initialize_True:
  "RIL_initialize p l ops fds c = Some (Inr (True, c')) \<longleftrightarrow>
     (\<exists>s s' st. ril_class p (k_ril c) = (lit ''RIL'', s) \<and> database_open p s = (True, s') \<and>
        boot l ops (k_boot c) = Some (Inr (True, st)) \<and>
        c' = start_channels fds (c\<lparr>k_ril := s', k_boot := st\<rparr>))"
  by (cases c) (auto simp: RIL_initialize_def Let_def split: prod.splits option.splits sum.splits if_splits)

lemma RIL_initialize_False:
  assumes "RIL_initialize p l ops fds c = Some (Inr (False, c'))"
  shows "k_worker c' = k_worker c \<and> m_radioState (k_ril c') = m_radioState (k_ril c)"
  using assms
  by (auto simp: RIL_initialize_def Let_def dest: ril_class_keeps startup_keeps
      split: prod.splits option.splits sum.splits if_splits)

section \<open>Properties\<close>

text \<open>
  The Java class that the two properties select, and the calls that reading them and opening the
  database make (the latest first, as everywhere in \<open>ril_effects\<close>).
\<close>

definition selected_class :: "platform \<Rightarrow> byte list" where
  "selected_class p =
     (case property_get p [Property_get ''ro.telephony.ril_class''] (Property_get ''ril.override_class'') of
        Some v \<Rightarrow> c_str v
      | None \<Rightarrow> (case property_get p [] (Property_get ''ro.telephony.ril_class'') of
          Some v \<Rightarrow> c_str v | None \<Rightarrow> lit ''RIL''))"

definition class_read :: "ril_effect list" where
  "class_read = [Property_get ''ril.override_class'', Property_get ''ro.telephony.ril_class'']"

definition database_closed :: "ril_effect list" where
  "database_closed = [Sqlite Sql_close, Sqlite Sql_finalize] @ class_read"

lemma ril_class_selected:
  obtains s where "ril_class p initial_ril = (selected_class p, s)" "ril_effects s = class_read"
    "m_radioState s = RADIO_STATE_UNAVAILABLE"
proof -
  have "fst (ril_class p initial_ril) = selected_class p"
    "ril_effects (snd (ril_class p initial_ril)) = class_read"
    "m_radioState (snd (ril_class p initial_ril)) = RADIO_STATE_UNAVAILABLE"
    by (simp_all add: ril_class_def property_value_def selected_class_def class_read_def effect_def Let_def
        initial_ril_def split: option.splits)
  then show thesis using that by (metis prod.collapse)
qed

lemma database_opened:
  assumes "database_open p s = (ok, s')" "ril_effects s = class_read"
  shows "ok \<longleftrightarrow> sqlite p database_closed (Sqlite Sql_open) = SQLITE_OK \<and>
      sqlite p (Sqlite Sql_open # database_closed) (Sqlite Sql_prepare) = SQLITE_OK"
    and "ok \<Longrightarrow> ril_effects s' = map Sqlite [Sql_prepare, Sql_open] @ database_closed"
    and "m_radioState s' = m_radioState s"
  using assms
  by (auto simp: database_open_def sql_def effect_def Let_def database_closed_def split: if_splits)

text \<open>
  C16. \<open>RIL_Init\<close> goes in this order, whatever it returns.  It reads the two properties; when they select
  another class than ''RIL'', nothing else happens: the database is not opened, the modem is not
  booted, and a null pointer is returned.  The modem is booted only after the class was found to be
  ''RIL'' and the database was opened and its statement prepared.  The functions are handed out only
  after the modem has come back from its reset; only then are the channels opened, the IPC channel
  first, and until the modem reports otherwise every request but the two that need no radio is
  refused.  Without that no channel is opened.
\<close>

theorem init_order:
  assumes "RIL_Init p l ops (control, ipc_fd, rfs_fd) f = Some (Inr (ok, c))"
  shows "(selected_class p \<noteq> lit ''RIL'' \<longrightarrow>
      \<not> ok \<and> ril_effects (k_ril c) = class_read \<and> b_calls (k_boot c) = [])
    \<and> (b_calls (k_boot c) \<noteq> [] \<longrightarrow> selected_class p = lit ''RIL''
        \<and> sqlite p database_closed (Sqlite Sql_open) = SQLITE_OK
        \<and> sqlite p (Sqlite Sql_open # database_closed) (Sqlite Sql_prepare) = SQLITE_OK)
    \<and> (ok \<longrightarrow> ril_effects (k_ril c) = map Sqlite [Sql_prepare, Sql_open] @ database_closed
        \<and> (\<exists>h. b_calls (k_boot c) = CreateSocket RFS # CreateSocket IPC # Redetect # CloseSocket # h)
        \<and> k_worker c = Some (modem_initialize control ipc_fd rfs_fd (b_fs (k_boot c)))
        \<and> (r_code r \<notin> {abi RIL_REQUEST_GET_SIM_STATUS, abi RIL_REQUEST_OEM_HOOK_RAW} \<longrightarrow>
            requestThunk abi p api r (Some c) = Finished (completed r RIL_E_RADIO_NOT_AVAILABLE (k_ril c))))
    \<and> (\<not> ok \<longrightarrow> k_worker c = None)"
proof -
  obtain s where chosen: "ril_class p initial_ril = (selected_class p, s)" "ril_effects s = class_read"
    "m_radioState s = RADIO_STATE_UNAVAILABLE" by (rule ril_class_selected)
  obtain opened s' where database: "database_open p s = (opened, s')" by fastforce
  note facts = database_opened [OF database chosen(2)]
  note init = assms [unfolded RIL_Init_def RIL_initialize_def]
  consider (other) "selected_class p \<noteq> lit ''RIL''" | (database) "selected_class p = lit ''RIL''" "\<not> opened"
    | (boot) "selected_class p = lit ''RIL''" "opened" by blast
  then show ?thesis
  proof cases
    case boot
    then obtain booted st where st: "boot l ops \<lparr>b_calls = [], b_fs = f\<rparr> = Some (Inr (booted, st))"
      using init chosen(1) database by (auto simp: RIL_def Let_def split: option.splits sum.splits)
    show ?thesis
      using init boot st chosen database facts boot_ends [of l ops "\<lparr>b_calls = [], b_fs = f\<rparr>" st]
      by (cases booted) (auto simp: RIL_def Let_def start_channels_def requestThunk_def handle_request_def gated_def)
  qed (use init chosen database in \<open>auto simp: RIL_def Let_def\<close>)
qed

text \<open>When \<open>RIL_Init\<close> returns a null pointer no channel was opened and the radio is unavailable.\<close>

theorem init_fails_closed:
  assumes "RIL_Init p l ops fds f = Some (Inr (False, c))"
  shows "k_worker c = None \<and> stateRequestThunk (Some c) = Inr RADIO_STATE_UNAVAILABLE"
  using RIL_initialize_False [OF assms [unfolded RIL_Init_def]]
  by (simp add: RIL_def stateRequestThunk_def initial_ril_def)

lemma good_init:
  "\<exists>c. RIL_Init quiet_platform good_link small_ops (3, 5, 6) calm_state = Some (Inr (True, c))"
proof -
  obtain st where st: "boot good_link small_ops boot_start = Some (Inr (True, st))"
    using good_boot by blast
  have "\<exists>s. ril_class quiet_platform initial_ril = (lit ''RIL'', s)"
    by (simp add: ril_class_def property_value_def quiet_platform_def)
  moreover have "\<exists>s'. database_open quiet_platform s = (True, s')" for s
    by (simp add: database_open_def sql_def quiet_platform_def Let_def)
  ultimately show ?thesis
    using st unfolding RIL_Init_def RIL_initialize_True
    by (metis RIL_def boot_start_def ril_core.select_convs(1,2))
qed

lemma init_order_witness:
  "\<exists>c. RIL_Init quiet_platform good_link small_ops (3, 5, 6) calm_state = Some (Inr (True, c))
    \<and> requestThunk ril_h quiet_platform byte_parcels (mute_request 9) (Some c)
      = Finished (completed (mute_request 9) RIL_E_RADIO_NOT_AVAILABLE (k_ril c))"
proof -
  obtain c where c: "RIL_Init quiet_platform good_link small_ops (3, 5, 6) calm_state = Some (Inr (True, c))"
    using good_init by blast
  have "r_code (mute_request 9) \<notin> {ril_h RIL_REQUEST_GET_SIM_STATUS, ril_h RIL_REQUEST_OEM_HOOK_RAW}"
    by (simp add: mute_request_def)
  with init_order [OF c, where r = "mute_request 9" and abi = ril_h and api = byte_parcels] c
  show ?thesis by auto
qed

lemma init_fails_closed_witness:
  "\<exists>c. RIL_Init (quiet_platform\<lparr>property_get := \<lambda>h k. Some (lit ''Other'')\<rparr>) good_link small_ops (3, 5, 6) calm_state
      = Some (Inr (False, c)) \<and> k_worker c = None"
proof -
  obtain c where c: "RIL_Init (quiet_platform\<lparr>property_get := \<lambda>h k. Some (lit ''Other'')\<rparr>) good_link small_ops (3, 5, 6) calm_state
      = Some (Inr (False, c))"
    by (simp add: RIL_Init_def RIL_initialize_def ril_class_def property_value_def Let_def c_str_def lit_def)
  from init_fails_closed [OF this] this show ?thesis by blast
qed

end
