(* ===== verification/Android_HAL.thy ===== *)
theory Android_HAL
  imports USB_Transport Remote_Files RIL_Init
begin

text \<open>
  The hardware abstraction layer of the phone (libandroidhal/AndroidHAL.cpp): the USB link and the
  file system of the modem with the paths of the device, the construction of \<open>SamsungModem\<close> on
  them, and the end of the RIL object.  The theorem follows every path that reaches the kernel for
  the modem's files, from the construction of the file system on, as a text: links and dots in the
  names are the kernel's to resolve.
\<close>

section \<open>The device\<close>

definition phone_directory :: path where "phone_directory = lit ''/dev/''"
definition phone_ehci :: path where "phone_ehci = lit ''/sys/devices/platform/s5p-ehci''"
definition phone_firmware :: path where "phone_firmware = lit ''/dev/block/mmcblk0p8''"
definition phone_efs :: path where "phone_efs = lit ''/efs''"

definition createIPCTransport :: "kernel \<Rightarrow> history \<Rightarrow> usb_transport outcome" where
  "createIPCTransport k h = USBIPCTransport k phone_directory phone_ehci h"

definition createFilesystem :: "kernel \<Rightarrow> (byte list \<Rightarrow> byte list) \<Rightarrow> history \<Rightarrow> file_system outcome" where
  "createFilesystem k md5 h = AndroidFileSystem k md5 phone_firmware phone_efs h"

text \<open>
  The constructor of the modem: the link first, then the file system, on the one history of the
  process.
\<close>

definition SamsungModem :: "kernel \<Rightarrow> (byte list \<Rightarrow> byte list) \<Rightarrow> history \<Rightarrow> (usb_transport \<times> file_system) outcome" where
  "SamsungModem k md5 h =
     andThen (createIPCTransport k h) (\<lambda>link.
     andThen (createFilesystem k md5 (t_history link)) (\<lambda>fs. Inr (link, fs)))"

text \<open>
  \<open>~RIL\<close>: the request handler goes first, then the modem, whose destructor waits for the worker
  thread; what follows is reached only when that wait ends.
\<close>

definition RIL_destroy ::
    "(wire_message, 'f) channel_ops \<Rightarrow> wire_message worker_event list \<Rightarrow> 'f ril_core \<Rightarrow> unit outcome option"
where
  "RIL_destroy ops es c = modem_destroy ops es (k_worker c)"

section \<open>Paths\<close>

text \<open>A call that names a file of the modem: inside the mount point, or the firmware partition.\<close>

definition modem_path :: "path \<Rightarrow> path \<Rightarrow> syscall \<Rightarrow> bool" where
  "modem_path efs firmware c \<longleftrightarrow> path_confined efs c \<or> (\<exists>flags. c = SysOpen (c_str firmware) flags)"

lemma modem_path_simps [simp]:
  "modem_path efs fw (SysClose fd)" "modem_path efs fw (SysRead fd n)" "modem_path efs fw (SysWrite fd data)"
  "modem_path efs fw (SysPread fd n off)" "modem_path efs fw (SysPwrite fd data off)"
  "modem_path efs fw (SysLseek fd off whence)" "modem_path efs fw (SysFstat fd)"
  "modem_path efs fw (SysFtruncate fd len)" "modem_path efs fw (SysFsync fd)"
  "modem_path efs fw (SysSendfile a b i j)"
  by (simp_all add: modem_path_def)

lemma modem_path_own:
  assumes "0 \<notin> set efs" "hd name = slash"
  shows "modem_path efs fw (SysOpen (c_str (efs @ name)) flags)" "modem_path efs fw (SysAccess (c_str (efs @ name)))"
  using own_file_inside [OF assms] by (simp_all add: modem_path_def)

lemma modem_path_firmware [simp]: "modem_path efs fw (SysOpen (c_str fw) flags)"
  by (auto simp: modem_path_def)

lemma hd_lit_slash [simp]: "hd (lit (CHR ''/'' # cs)) = slash" "hd (lit (CHR ''/'' # cs) @ ys) = slash"
  by (simp_all add: lit_def slash_def)

section \<open>Every step of the construction\<close>

text \<open>What the history of a fixed start \<open>start\<close> has been extended by.\<close>

named_theorems within \<open>operations that only make calls on the modem's paths\<close>

lemma sys_data_Inr:
  "sys_data k c n h = (Inr data, h') \<longleftrightarrow> (\<exists>bytes. k_data k h c = Inr bytes \<and> data = take n bytes \<and> h' = c # h)"
  by (auto simp: sys_data_def call_def split: sum.splits)

lemma get_within [within]:
  "NativeFile_get k p h = Inr (data, h') \<Longrightarrow> emits (modem_path efs fw) start h \<Longrightarrow>
   modem_path efs fw (SysOpen (c_str p) O_RDONLY) \<Longrightarrow> emits (modem_path efs fw) start h'"
  by (auto simp: NativeFile_get_def NativeFile_open_def NativeFile_seek_def NativeFile_pread_def
      andThen_eq_Inr or_panic_eq_Inr sys_eq sys_data_Inr intro!: emits_step)

lemma put_within [within]:
  "NativeFile_put k p data sync h = Inr h' \<Longrightarrow> emits (modem_path efs fw) start h \<Longrightarrow>
   modem_path efs fw (SysOpen (c_str p) (O_WRONLY + O_TRUNC + O_CREAT)) \<Longrightarrow> emits (modem_path efs fw) start h'"
  by (auto simp: NativeFile_put_def NativeFile_open_def NativeFile_write_def NativeFile_sync_def
      andThen_eq_Inr or_panic_eq_Inr sys_eq split: if_splits intro!: emits_step)

lemma blocks_within [within]:
  "pread_blocks k fd i stop acc h = (r, h') \<Longrightarrow> emits (modem_path efs fw) start h \<Longrightarrow> emits (modem_path efs fw) start h'"
  using pread_blocks_emits [of efs h k fd i stop acc] emits_mono [of "path_confined efs" h h' "modem_path efs fw"]
  by (auto simp: modem_path_def intro: emits_trans)

lemma file_md5_within [within]:
  "calculateFileMD5 k md5 fd i n h = (r, h') \<Longrightarrow> emits (modem_path efs fw) start h \<Longrightarrow> emits (modem_path efs fw) start h'"
  by (auto simp: calculateFileMD5_def split: prod.splits intro: blocks_within)

lemma tryLoadNV_within:
  assumes load: "tryLoadNV k md5 file enabled n h = Inr (fd, h')" and h: "emits (modem_path efs fw) start h"
    and own: "modem_path efs fw (SysOpen (c_str file) O_RDWR)"
      "modem_path efs fw (SysOpen (c_str (file @ lit ''.md5'')) O_RDONLY)"
      "modem_path efs fw (SysAccess (c_str (file @ lit ''.md5'')))"
  shows "emits (modem_path efs fw) start h'"
proof -
  let ?open = "SysOpen (c_str file) O_RDWR" and ?access = "SysAccess (c_str (file @ lit ''.md5''))"
  show ?thesis
  proof (cases "k_int k h ?open")
    case (Inl e)
    then show ?thesis using load h own by (auto simp: tryLoadNV_def sys_eq intro!: emits_step)
  next
    case (Inr m)
    let ?h2 = "SysFstat (int m) # ?open # h"
    have h2: "emits (modem_path efs fw) start ?h2" using h own by (auto intro!: emits_step)
    show ?thesis
    proof (cases "\<exists>statbuf. k_stat k (?open # h) (SysFstat (int m)) = Inr statbuf \<and> st_size statbuf = n \<and> enabled \<and>
        k_int k ?h2 ?access = Inr 0")
      case False
      then show ?thesis
        using load h2 own Inr
        by (auto simp: tryLoadNV_def sys_eq call_def Let_def split: sum.splits if_splits intro!: emits_step)
    next
      case True
      then obtain stored h3 where get: "NativeFile_get k (file @ lit ''.md5'') (?access # ?h2) = Inr (stored, h3)"
        and fd: "(case calculateFileMD5 k md5 (int m) 0 n h3 of
            (None, h) \<Rightarrow> Inr (- 1, SysClose (int m) # h)
          | (Some digest, h) \<Rightarrow> if length stored \<noteq> 32 \<or> stored \<noteq> digest then Inr (- 1, SysClose (int m) # h)
              else Inr (int m, h)) = (Inr (fd, h') :: (int \<times> history) outcome)"
        using load Inr by (auto simp: tryLoadNV_def sys_eq call_def Let_def andThen_eq_Inr)
      have "emits (modem_path efs fw) start h3"
        using get_within [OF get _ own(2)] h2 own(3) by (auto intro!: emits_step)
      with fd show ?thesis
        by (cases "calculateFileMD5 k md5 (int m) 0 n h3")
          (auto split: option.splits if_splits intro!: emits_step dest: file_md5_within)
    qed
  qed
qed

text \<open>A file system at its place that has made no other calls since \<open>start\<close>.\<close>

definition placed :: "path \<Rightarrow> path \<Rightarrow> history \<Rightarrow> file_system \<Rightarrow> bool" where
  "placed efs fw start fs \<longleftrightarrow> 0 \<notin> set efs \<and> m_efs fs = efs \<and> m_firmware fs = fw \<and>
     emits (modem_path efs fw) start (history fs)"

lemma placed_update:
  "placed efs fw start fs \<Longrightarrow> emits (modem_path efs fw) start h \<Longrightarrow> placed efs fw start (fs\<lparr>history := h\<rparr>)"
  "placed efs fw start (fs\<lparr>m_nvdata := d\<rparr>) = placed efs fw start fs"
  "placed efs fw start (fs\<lparr>m_md5_enabled := b\<rparr>) = placed efs fw start fs"
  by (simp_all add: placed_def)

lemma placed_after:
  assumes "placed efs fw start fs" "emits (modem_path efs fw) start h"
  shows "placed efs fw start (fs\<lparr>history := h\<rparr>)" "placed efs fw start (fs\<lparr>m_nvdata := d, history := h\<rparr>)"
  using assms by (simp_all add: placed_def)

lemma placed_emits: "placed efs fw start fs \<Longrightarrow> emits (modem_path efs fw) start (history fs)"
  by (simp add: placed_def)

lemma digest_within [within]:
  "digest_or_panic k md5 fd n h = Inr (d, h') \<Longrightarrow> emits (modem_path efs fw) start h \<Longrightarrow> emits (modem_path efs fw) start h'"
  by (auto simp: digest_or_panic_Inr intro: blocks_within)

lemma getFirmware_within:
  assumes "getFirmware k type fs = Inr ((ok, data), fs')" "placed efs fw start fs"
  shows "placed efs fw start fs'"
  using assms
  by (cases "firmware_slice type")
    (auto simp: getFirmware_def Let_def NativeFile_open_def NativeFile_pread_def andThen_eq_Inr or_panic_eq_Inr
      sys_eq sys_data_Inr placed_def split: if_splits intro!: emits_step)

lemma updateMD5_within:
  assumes "updateMD5 k md5 fs = Inr fs'" "placed efs fw start fs"
  shows "placed efs fw start fs'"
  using assms(1)
proof (rule updateMD5_Inr)
  fix content h out marker
  assume blocks: "pread_blocks k (m_nvdata fs) 0 NVDATA_SIZE [] (history fs) = (Some content, h)"
    and fs': "fs' = fs\<lparr>history := checksum_calls (m_efs fs) (m_md5_enabled fs) out marker (calculateMD5 md5 content) @ h,
      m_md5_enabled := True\<rparr>"
  have "emits (modem_path efs fw) start h" by (rule blocks_within [OF blocks placed_emits [OF assms(2)]])
  then show "placed efs fw start fs'"
    using assms(2) by (auto simp: fs' placed_def checksum_calls_def modem_path_own intro!: emits_step)
qed

text \<open>
  The longer operations are walked through step by step: \<open>keeps Q m\<close> says that every result of
  \<open>m\<close> has \<open>Q\<close>, and there is a rule for each operation that can come first.
\<close>

definition keeps :: "('a \<Rightarrow> bool) \<Rightarrow> 'a outcome \<Rightarrow> bool" where
  "keeps Q m \<longleftrightarrow> (\<forall>x. m = Inr x \<longrightarrow> Q x)"

lemma keeps_Inr [simp]: "keeps Q (Inr x) \<longleftrightarrow> Q x"
  by (simp add: keeps_def)

lemma keeps_andThen: "(\<And>x. m = Inr x \<Longrightarrow> keeps Q (f x)) \<Longrightarrow> keeps Q (andThen m f)"
  by (cases m) (simp_all add: keeps_def)

named_theorems steps \<open>rules for the operation that comes first\<close>

lemma step_open [steps]:
  assumes "emits (modem_path efs fw) start h" "modem_path efs fw (SysOpen (c_str p) flags)"
    and "\<And>fd h'. emits (modem_path efs fw) start h' \<Longrightarrow> keeps Q (f fd h')"
  shows "keeps Q (andThen (open_or_panic k p flags h) (\<lambda>(fd, h). f fd h))"
  using assms emits_step [OF assms(1,2)] by (auto simp: open_or_panic_Inr intro!: keeps_andThen)

lemma step_expect [steps]:
  assumes "emits (modem_path efs fw) start h" "modem_path efs fw c"
    and "\<And>h'. emits (modem_path efs fw) start h' \<Longrightarrow> keeps Q (f h')"
  shows "keeps Q (andThen (expect n (sys k c h)) f)"
  using assms emits_step [OF assms(1,2)] by (auto simp: expect_Inr intro!: keeps_andThen)

lemma step_get [steps]:
  assumes "emits (modem_path efs fw) start h" "modem_path efs fw (SysOpen (c_str p) O_RDONLY)"
    and "\<And>data h'. emits (modem_path efs fw) start h' \<Longrightarrow> keeps Q (f data h')"
  shows "keeps Q (andThen (NativeFile_get k p h) (\<lambda>(data, h). f data h))"
  using assms by (auto intro!: keeps_andThen dest: get_within)

lemma step_put [steps]:
  assumes "emits (modem_path efs fw) start h" "modem_path efs fw (SysOpen (c_str p) (O_WRONLY + O_TRUNC + O_CREAT))"
    and "\<And>h'. emits (modem_path efs fw) start h' \<Longrightarrow> keeps Q (f h')"
  shows "keeps Q (andThen (NativeFile_put k p data sync h) f)"
  using assms by (auto intro!: keeps_andThen dest: put_within)

lemma step_digest [steps]:
  assumes "emits (modem_path efs fw) start h" "\<And>d h'. emits (modem_path efs fw) start h' \<Longrightarrow> keeps Q (f d h')"
  shows "keeps Q (andThen (digest_or_panic k md5 fd n h) (\<lambda>(d, h). f d h))"
  using assms by (auto intro!: keeps_andThen dest: digest_within)

lemma step_load [steps]:
  assumes "emits (modem_path efs fw) start h" "modem_path efs fw (SysOpen (c_str file) O_RDWR)"
      "modem_path efs fw (SysOpen (c_str (file @ lit ''.md5'')) O_RDONLY)"
      "modem_path efs fw (SysAccess (c_str (file @ lit ''.md5'')))"
    and "\<And>fd h'. emits (modem_path efs fw) start h' \<Longrightarrow> keeps Q (f fd h')"
  shows "keeps Q (andThen (tryLoadNV k md5 file enabled n h) (\<lambda>(fd, h). f fd h))"
  using assms(5) tryLoadNV_within [OF _ assms(1-4)] by (auto intro!: keeps_andThen)

lemma updateMD5_keeps_place: "placed efs fw start fs \<Longrightarrow> keeps (placed efs fw start) (updateMD5 k md5 fs)"
  by (auto simp: keeps_def intro: updateMD5_within)

lemma step_place:
  assumes "keeps (placed efs fw start) m" "\<And>fs. placed efs fw start fs \<Longrightarrow> keeps Q (f fs)"
  shows "keeps Q (andThen m f)"
  using assms by (auto simp: keeps_def andThen_eq_Inr)

lemma backup_keeps_place:
  assumes "placed efs fw start fs"
  shows "keeps (placed efs fw start) (backupNVData k md5 full fs)"
  unfolding backupNVData_def
proof (rule step_place [where efs = efs and fw = fw and start = start], goal_cases)
  case 1
  show ?case using assms updateMD5_keeps_place by simp
next
  case (2 fs)
  then have "0 \<notin> set efs" "m_efs fs = efs" "emits (modem_path efs fw) start (history fs)" by (simp_all add: placed_def)
  with 2 show ?case by (auto simp: modem_path_own placed_update intro!: placed_after steps emits_step)
qed

lemma recover_from_backup_keeps:
  assumes "placed efs fw start fs"
  shows "keeps (placed efs fw start) (recover_from_backup k md5 fs)"
proof -
  have "0 \<notin> set efs" "m_efs fs = efs" "emits (modem_path efs fw) start (history fs)"
    using assms by (simp_all add: placed_def)
  with assms show ?thesis
    unfolding recover_from_backup_def
    by (auto simp: modem_path_own placed_update intro!: placed_after steps emits_step updateMD5_keeps_place)
qed

lemma recover_from_core_keeps:
  assumes "placed efs fw start fs"
  shows "keeps (placed efs fw start) (recover_from_core k md5 fs)"
proof -
  have "0 \<notin> set efs" "m_efs fs = efs" "emits (modem_path efs fw) start (history fs)"
    using assms by (simp_all add: placed_def)
  with assms show ?thesis
    unfolding recover_from_core_def
    by (auto simp: modem_path_own placed_update intro!: placed_after steps emits_step)
qed

lemma step_firmware:
  assumes "placed efs fw start fs1" "\<And>ok data fs. placed efs fw start fs \<Longrightarrow> keeps Q (f ok data fs)"
  shows "keeps Q (andThen (getFirmware k type fs1) (\<lambda>((ok, data), fs). f ok data fs))"
  using assms getFirmware_within by (auto intro!: keeps_andThen)

lemma restore_defaults_keeps:
  assumes "placed efs fw start fs"
  shows "keeps (placed efs fw start) (restore_defaults k md5 fs)"
proof -
  note rules = steps [where efs = efs and fw = fw and start = start]
    step_firmware [where efs = efs and fw = fw and start = start]
    step_place [where efs = efs and fw = fw and start = start]
  have "0 \<notin> set efs" "m_efs fs = efs" "emits (modem_path efs fw) start (history fs)"
    using assms by (simp_all add: placed_def)
  with assms show ?thesis
    unfolding restore_defaults_def
    by (auto simp: modem_path_own placed_update placed_emits intro!: rules placed_after emits_step
        updateMD5_keeps_place backup_keeps_place)
qed

lemma unless_loaded_keeps:
  "(\<And>fs. placed efs fw start fs \<Longrightarrow> keeps (placed efs fw start) (stage fs)) \<Longrightarrow> placed efs fw start fs \<Longrightarrow>
   keeps (placed efs fw start) (unless_loaded stage fs)"
  by (simp add: unless_loaded_def)

lemma md5_marker_keeps:
  assumes "0 \<notin> set efs"
  shows "keeps (\<lambda>(b, h). emits (modem_path efs fw) start h) (md5_marker k efs start)"
  unfolding md5_marker_def
  by (auto simp: modem_path_own assms sys_eq intro!: step_get [where efs = efs and fw = fw and start = start] emits_step)

lemma step_marker:
  assumes "0 \<notin> set efs" "\<And>b h. emits (modem_path efs fw) start h \<Longrightarrow> keeps Q (f b h)"
  shows "keeps Q (andThen (md5_marker k efs start) (\<lambda>(b, h). f b h))"
  using assms(2) md5_marker_keeps [OF assms(1), of fw start k] by (auto simp: keeps_def andThen_eq_Inr)

lemma construction_keeps:
  assumes "0 \<notin> set efs"
  shows "keeps (placed efs fw start) (AndroidFileSystem k md5 fw efs start)"
proof -
  note rules = step_marker [where efs = efs and fw = fw and start = start]
    step_load [where efs = efs and fw = fw and start = start]
    step_place [where efs = efs and fw = fw and start = start]
  show ?thesis
    unfolding AndroidFileSystem_def
    by (auto simp: modem_path_own assms placed_def intro!: rules unless_loaded_keeps
        intro: recover_from_backup_keeps recover_from_core_keeps restore_defaults_keeps)
qed

section \<open>Properties\<close>

text \<open>What the modem object names: the control device of the link, and the modem's own paths.\<close>

definition phone_path :: "syscall \<Rightarrow> bool" where
  "phone_path c \<longleftrightarrow> modem_path phone_efs phone_firmware c \<or>
     c = SysOpen (c_str (phone_directory @ lit ''link_pm'')) O_RDWR"

text \<open>
  C24. The paths that the modem's constructor and its file system give to the kernel, through the loading,
  checking and recovery of NV data and whatever packets arrive on the RFS channel, begin, as text,
  with the mount point \<open>/efs\<close> followed by a slash or by nothing, or are the firmware partition or the
  control device of the link.  The check is no more than textual: after such a run as before it, a name
  that climbs out of \<open>/efs\<close> by \<open>..\<close> passes it.  (The device nodes that \<open>boot\<close>, \<open>initialize\<close> and
  \<open>redetect\<close> open have fixed names; they are not part of this run.)
\<close>

theorem phone_paths_confined:
  assumes made: "SamsungModem k md5 h = Inr (link, fs)"
    and run: "deliver_frames (rfs_handleReassembledMessage localtime (android_ops k md5)) packets (fs, sent) =
      Inr (fs', sent')"
  shows "emits phone_path h (history fs') \<and>
    expandAndValidateFilename (lit ''/efs/../data/'' @ name) fs' = Inr (lit ''/efs/../data/'' @ name)"
proof -
  from made have link: "t_history link = SysOpen (c_str (phone_directory @ lit ''link_pm'')) O_RDWR # h"
    and fs: "AndroidFileSystem k md5 phone_firmware phone_efs (t_history link) = Inr fs"
    by (auto simp: SamsungModem_def createIPCTransport_def USBIPCTransport_def createFilesystem_def NativeFile_open_def
        andThen_eq_Inr or_panic_eq_Inr sys_eq)
  have efs: "0 \<notin> set phone_efs" by (simp add: phone_efs_def lit_def)
  then have placed: "placed phone_efs phone_firmware (t_history link) fs"
    using construction_keeps fs by (auto simp: keeps_def)
  have "stays fs fs'" by (rule android_files.channel_tracked [OF run])
  then have run: "emits (path_confined phone_efs) (history fs) (history fs')" "m_efs fs' = lit ''/efs''"
    using placed by (simp_all add: stays_def placed_def confined_step_def phone_efs_def)
  from run(1) have "emits phone_path (history fs) (history fs')"
    by (rule emits_mono) (simp add: phone_path_def modem_path_def)
  moreover have "emits phone_path (t_history link) (history fs)"
    using placed_emits [OF placed] by (rule emits_mono) (simp add: phone_path_def)
  moreover have "emits phone_path h (t_history link)" by (simp add: link phone_path_def)
  ultimately have "emits phone_path h (history fs')" by (blast intro: emits_trans)
  with traversal_opened [OF run(2)] show ?thesis by blast
qed

theorem phone_paths_confined_witness:
  "\<exists>link fs. SamsungModem calm_kernel (\<lambda>_. replicate 16 0) [] = Inr (link, fs) \<and> emits phone_path [] (history fs) \<and>
     expandAndValidateFilename (lit ''/efs/../data/'' @ lit ''x'') fs = Inr (lit ''/efs/../data/'' @ lit ''x'')"
proof -
  obtain link where link: "createIPCTransport calm_kernel [] = Inr link"
    by (simp add: createIPCTransport_def USBIPCTransport_def NativeFile_open_def sys_eq or_panic_def)
  obtain fs where
    fs: "AndroidFileSystem calm_kernel (\<lambda>_. replicate 16 0) phone_firmware phone_efs (t_history link) = Inr fs"
    by (rule calm_constructed)
  have made: "SamsungModem calm_kernel (\<lambda>_. replicate 16 0) [] = Inr (link, fs)"
    by (simp add: SamsungModem_def link createFilesystem_def fs)
  have run: "deliver_frames (rfs_handleReassembledMessage (\<lambda>_. undefined) (android_ops calm_kernel (\<lambda>_. replicate 16 0)))
      [] (fs, []) = Inr (fs, [])" by simp
  from phone_paths_confined [OF made run] made show ?thesis by blast
qed

text \<open>
  Destroying the RIL object after its start never returns: the modem's destructor waits for a
  worker thread that nothing asks to stop.
\<close>

lemma RIL_destroy_waits:
  assumes "k_worker c = Some (modem_initialize control ipc_fd rfs_fd f)" and "None \<notin> set (written_messages es)"
    and "dispatchEvents ops es (modem_initialize control ipc_fd rfs_fd f) = Some (Inr w)"
  shows "RIL_destroy ops es c = None"
proof -
  have "w_running w"
    using dispatchEvents_in_order [OF in_order_initially assms(3)] assms(2) by (auto simp: in_order_def split: if_splits)
  then show ?thesis using assms by (simp add: RIL_destroy_def modem_destroy_def worker_run_def)
qed

end
