(* ===== verification/Secril_Client.thy ===== *)
theory Secril_Client
  imports Prelude
begin

text \<open>
  The compatibility library for the binary audio and GPS implementations: the client functions
  (secril-client-compat/client.cpp, include/secril-client-compat.h) and the proxy of the service they
  call (secril-client-compat/ICrossClientService.cpp, include/freeril/ICrossClientService.h).
  Android's Binder and its \<open>Parcel\<close> are parameters.
\<close>

section \<open>Binder\<close>

datatype transaction = TRANSACTION_setLoopbackTest | TRANSACTION_setDhaSolution
  | TRANSACTION_setTwoMicControl | TRANSACTION_getMute | TRANSACTION_setMute
  | TRANSACTION_setCallRecord | TRANSACTION_setCallClockSync | TRANSACTION_setVideoCallClockSync
  | TRANSACTION_setCallAudioPath | TRANSACTION_setCallVolume | TRANSACTION_samsungOemRequest

text \<open>
  An interface is known by a number.  \<open>getService\<close> answers an interface or that there is none; a ping
  answers whether the service lives; a transaction answers the reply parcel.
\<close>

datatype 'p binder_call = GetService string | Ping nat | Transact nat transaction 'p

datatype 'p binder_reply = Service "nat option" | Alive bool | Reply 'p

text \<open>
  \<open>b_read n p\<close> is what a buffer of \<open>n\<close> bytes holds after \<open>Parcel::read\<close>, which leaves it as it was
  when the parcel is shorter.
\<close>

record 'p android_binder =
  b_token :: "string \<Rightarrow> 'p"
  b_writeInt32 :: "int \<Rightarrow> 'p \<Rightarrow> 'p"
  b_writeString16 :: "byte list \<Rightarrow> 'p \<Rightarrow> 'p"
  b_write :: "byte list \<Rightarrow> 'p \<Rightarrow> 'p"
  b_readExceptionCode :: "'p \<Rightarrow> int \<times> 'p"
  b_readInt32 :: "'p \<Rightarrow> int \<times> 'p"
  b_read :: "nat \<Rightarrow> 'p \<Rightarrow> byte list"
  b_call :: "('p binder_call, 'p binder_reply) environment"

section \<open>The client\<close>

type_synonym client_callback = nat

text \<open>
  A client, the calls made so far and the callbacks run so far with their data (both the
  newest first).
\<close>

record 'p session =
  interface :: "nat option"
  callbacks :: "int \<Rightarrow> client_callback option"
  binder_calls :: "'p binder_call list"
  reported :: "(client_callback \<times> byte list) list"

type_synonym status = int

definition RIL_CLIENT_SUCCESS :: status where "RIL_CLIENT_SUCCESS = 0"
definition RIL_CLIENT_INVALID :: status where "RIL_CLIENT_INVALID = 3"
definition RIL_CLIENT_REFUSED :: status where "RIL_CLIENT_REFUSED = 4"
definition RIL_CLIENT_IO_ERROR :: status where "RIL_CLIENT_IO_ERROR = 5"
definition RIL_CLIENT_UNKNOWN :: status where "RIL_CLIENT_UNKNOWN = 7"

lemmas client_statuses = RIL_CLIENT_SUCCESS_def RIL_CLIENT_INVALID_def RIL_CLIENT_REFUSED_def
  RIL_CLIENT_IO_ERROR_def RIL_CLIENT_UNKNOWN_def

text \<open>\<open>None\<close> is a null pointer.\<close>

type_synonym 'p client = "'p session option"

definition binder_call :: "'p android_binder \<Rightarrow> 'p binder_call \<Rightarrow> 'p session \<Rightarrow> 'p binder_reply \<times> 'p session" where
  "binder_call b c s = (b_call b (binder_calls s) c, s\<lparr>binder_calls := c # binder_calls s\<rparr>)"

definition OpenClient_RILD :: "'p client" where
  "OpenClient_RILD =
     Some \<lparr>interface = None, callbacks = (\<lambda>_. None), binder_calls = [], reported = []\<rparr>"

fun Disconnect_RILD :: "'p client \<Rightarrow> status \<times> 'p client" where
  "Disconnect_RILD None = (RIL_CLIENT_INVALID, None)"
| "Disconnect_RILD (Some s) =
     (if interface s = None then (RIL_CLIENT_UNKNOWN, Some s)
      else (RIL_CLIENT_SUCCESS, Some (s\<lparr>interface := None\<rparr>)))"

text \<open>Closing does not free the client.\<close>

fun CloseClient_RILD :: "'p client \<Rightarrow> status \<times> 'p client" where
  "CloseClient_RILD None = (RIL_CLIENT_INVALID, None)"
| "CloseClient_RILD (Some s) =
     (RIL_CLIENT_SUCCESS, if interface s \<noteq> None then snd (Disconnect_RILD (Some s)) else Some s)"

text \<open>\<open>getService\<close> stores what it got, and fails when that is null.\<close>

definition service_name :: string where
  "service_name = ''org.freeril.i9100oemservice.CrossClientService''"

definition getService :: "'p android_binder \<Rightarrow> 'p session \<Rightarrow> status \<times> 'p client" where
  "getService b s =
     (let (r, s) = binder_call b (GetService service_name) s in
      case r of
        Service (Some i) \<Rightarrow> (RIL_CLIENT_SUCCESS, Some (s\<lparr>interface := Some i\<rparr>))
      | _ \<Rightarrow> (RIL_CLIENT_REFUSED, Some (s\<lparr>interface := None\<rparr>)))"

fun Connect_RILD :: "'p android_binder \<Rightarrow> 'p client \<Rightarrow> status \<times> 'p client" where
  "Connect_RILD b None = (RIL_CLIENT_INVALID, None)"
| "Connect_RILD b (Some s) =
     (case (if interface s \<noteq> None then snd (Disconnect_RILD (Some s)) else Some s) of
        None \<Rightarrow> (RIL_CLIENT_INVALID, None)
      | Some s \<Rightarrow> getService b s)"

text \<open>The result is 0 or 1 for a client: 0 is also \<open>RIL_CLIENT_SUCCESS\<close>.\<close>

fun isConnected_RILD :: "'p android_binder \<Rightarrow> 'p client \<Rightarrow> status \<times> 'p client" where
  "isConnected_RILD b None = (RIL_CLIENT_INVALID, None)"
| "isConnected_RILD b (Some s) =
     (case interface s of
        None \<Rightarrow> (0, Some s)
      | Some i \<Rightarrow>
          (let (r, s) = binder_call b (Ping i) s in
           if r = Alive True then (1, Some s) else (0, Some (s\<lparr>interface := None\<rparr>))))"

definition RegisterUnsolicitedHandler :: "'p client \<Rightarrow> int \<Rightarrow> client_callback option \<Rightarrow> status \<times> 'p client" where
  "RegisterUnsolicitedHandler c code callback = (RIL_CLIENT_SUCCESS, c)"

text \<open>\<open>std::map::insert\<close> keeps the callback that is already there.\<close>

fun RegisterRequestCompleteHandler ::
    "'p client \<Rightarrow> int \<Rightarrow> client_callback option \<Rightarrow> status \<times> 'p client"
where
  "RegisterRequestCompleteHandler None code callback = (RIL_CLIENT_INVALID, None)"
| "RegisterRequestCompleteHandler (Some s) code None =
     (RIL_CLIENT_SUCCESS, Some (s\<lparr>callbacks := (callbacks s)(code := None)\<rparr>))"
| "RegisterRequestCompleteHandler (Some s) code (Some f) =
     (RIL_CLIENT_SUCCESS,
      Some (if callbacks s code = None then s\<lparr>callbacks := (callbacks s)(code \<mapsto> f)\<rparr> else s))"

definition RegisterErrorCallback :: "'p client \<Rightarrow> client_callback option \<Rightarrow> nat \<Rightarrow> status \<times> 'p client" where
  "RegisterErrorCallback c callback arg = (RIL_CLIENT_SUCCESS, c)"

section \<open>The proxy\<close>

definition interface_descriptor :: string where
  "interface_descriptor = ''org.freeril.i9100oemservice.ICrossClientService''"

text \<open>The reply of a transaction, or \<open>None\<close> when the service threw an exception.\<close>

definition transact :: "'p android_binder \<Rightarrow> nat \<Rightarrow> transaction \<Rightarrow> ('p \<Rightarrow> 'p) \<Rightarrow> 'p session \<Rightarrow> 'p option \<times> 'p session" where
  "transact b i t marshal s =
     (let (r, s) = binder_call b (Transact i t (marshal (b_token b interface_descriptor))) s in
      case r of
        Reply p \<Rightarrow>
          (let (exception, p) = b_readExceptionCode b p in (if exception \<noteq> 0 then None else Some p, s))
      | _ \<Rightarrow> (None, s))"

definition transact_flag :: "'p android_binder \<Rightarrow> nat \<Rightarrow> transaction \<Rightarrow> ('p \<Rightarrow> 'p) \<Rightarrow> 'p session \<Rightarrow> bool \<times> 'p session" where
  "transact_flag b i t marshal s =
     (case transact b i t marshal s of
        (None, s) \<Rightarrow> (False, s)
      | (Some p, s) \<Rightarrow> (fst (b_readInt32 b p) \<noteq> 0, s))"

definition Bp_setLoopbackTest :: "'p android_binder \<Rightarrow> nat \<Rightarrow> int \<Rightarrow> int \<Rightarrow> 'p session \<Rightarrow> bool \<times> 'p session" where
  "Bp_setLoopbackTest b i loopback path =
     transact_flag b i TRANSACTION_setLoopbackTest (b_writeInt32 b path \<circ> b_writeInt32 b loopback)"

definition Bp_setDhaSolution ::
    "'p android_binder \<Rightarrow> nat \<Rightarrow> int \<Rightarrow> int \<Rightarrow> byte list \<Rightarrow> 'p session \<Rightarrow> bool \<times> 'p session"
where
  "Bp_setDhaSolution b i mode select extra =
     transact_flag b i TRANSACTION_setDhaSolution
       (b_writeString16 b extra \<circ> b_writeInt32 b select \<circ> b_writeInt32 b mode)"

definition Bp_setTwoMicControl :: "'p android_binder \<Rightarrow> nat \<Rightarrow> int \<Rightarrow> int \<Rightarrow> 'p session \<Rightarrow> bool \<times> 'p session" where
  "Bp_setTwoMicControl b i device report =
     transact_flag b i TRANSACTION_setTwoMicControl (b_writeInt32 b report \<circ> b_writeInt32 b device)"

text \<open>\<open>Some muted\<close> when it returns true; the argument is an array of one boolean.\<close>

definition Bp_getMute :: "'p android_binder \<Rightarrow> nat \<Rightarrow> 'p session \<Rightarrow> bool option \<times> 'p session" where
  "Bp_getMute b i s =
     (case transact b i TRANSACTION_getMute (b_writeInt32 b 0 \<circ> b_writeInt32 b 1) s of
        (None, s) \<Rightarrow> (None, s)
      | (Some p, s) \<Rightarrow>
          (let (status, p) = b_readInt32 b p; (count, p) = b_readInt32 b p; (muted, p) = b_readInt32 b p
           in (if count \<noteq> 1 then None else if status \<noteq> 0 then Some (muted \<noteq> 0) else None, s)))"

definition Bp_setMute :: "'p android_binder \<Rightarrow> nat \<Rightarrow> bool \<Rightarrow> 'p session \<Rightarrow> bool \<times> 'p session" where
  "Bp_setMute b i muted =
     transact_flag b i TRANSACTION_setMute (b_writeInt32 b (if muted then 1 else 0))"

definition Bp_setCallRecord :: "'p android_binder \<Rightarrow> nat \<Rightarrow> int \<Rightarrow> 'p session \<Rightarrow> bool \<times> 'p session" where
  "Bp_setCallRecord b i rec = transact_flag b i TRANSACTION_setCallRecord (b_writeInt32 b rec)"

definition Bp_setCallClockSync :: "'p android_binder \<Rightarrow> nat \<Rightarrow> int \<Rightarrow> 'p session \<Rightarrow> bool \<times> 'p session" where
  "Bp_setCallClockSync b i sync = transact_flag b i TRANSACTION_setCallClockSync (b_writeInt32 b sync)"

definition Bp_setVideoCallClockSync :: "'p android_binder \<Rightarrow> nat \<Rightarrow> int \<Rightarrow> 'p session \<Rightarrow> bool \<times> 'p session" where
  "Bp_setVideoCallClockSync b i sync =
     transact_flag b i TRANSACTION_setVideoCallClockSync (b_writeInt32 b sync)"

definition Bp_setCallAudioPath :: "'p android_binder \<Rightarrow> nat \<Rightarrow> int \<Rightarrow> int \<Rightarrow> 'p session \<Rightarrow> bool \<times> 'p session" where
  "Bp_setCallAudioPath b i path extraVolume =
     transact_flag b i TRANSACTION_setCallAudioPath (b_writeInt32 b extraVolume \<circ> b_writeInt32 b path)"

definition Bp_setCallVolume :: "'p android_binder \<Rightarrow> nat \<Rightarrow> int \<Rightarrow> int \<Rightarrow> 'p session \<Rightarrow> bool \<times> 'p session" where
  "Bp_setCallVolume b i device volume =
     transact_flag b i TRANSACTION_setCallVolume (b_writeInt32 b volume \<circ> b_writeInt32 b device)"

text \<open>The size of the reply is an \<open>int32_t\<close> converted to a \<open>size_t\<close>.\<close>

definition Bp_samsungOemRequest ::
    "'p android_binder \<Rightarrow> nat \<Rightarrow> byte list \<Rightarrow> 'p session \<Rightarrow> byte list option \<times> 'p session"
where
  "Bp_samsungOemRequest b i request s =
     (case transact b i TRANSACTION_samsungOemRequest
             (b_write b request \<circ> b_writeInt32 b (sint (word_of_int (int (length request)) :: u32))) s of
        (None, s) \<Rightarrow> (None, s)
      | (Some p, s) \<Rightarrow>
          (let (result, p) = b_readInt32 b p; (present, q) = b_readInt32 b p; (n, r) = b_readInt32 b q in
           (if result = 0 then None
            else if present \<noteq> 0 then Some (b_read b (unat (word_of_int n :: u32)) r)
            else Some [], s)))"

section \<open>Requests of a client\<close>

text \<open>The guards that every request starts with.\<close>

fun with_interface :: "'p client \<Rightarrow> (nat \<Rightarrow> 'p session \<Rightarrow> status \<times> 'p client) \<Rightarrow> status \<times> 'p client" where
  "with_interface None f = (RIL_CLIENT_INVALID, None)"
| "with_interface (Some s) f =
     (case interface s of None \<Rightarrow> (RIL_CLIENT_REFUSED, Some s) | Some i \<Rightarrow> f i s)"

definition flag_status :: "bool \<times> 'p session \<Rightarrow> status \<times> 'p client" where
  "flag_status r = (if fst r then RIL_CLIENT_SUCCESS else RIL_CLIENT_IO_ERROR, Some (snd r))"

definition run_callback :: "client_callback \<Rightarrow> byte list \<Rightarrow> 'p session \<Rightarrow> 'p session" where
  "run_callback f data s = s\<lparr>reported := (f, data) # reported s\<rparr>"

text \<open>\<open>hook\<close> is \<open>RIL_REQUEST_OEM_HOOK_RAW\<close> of telephony/ril.h.\<close>

definition InvokeOemRequestHookRaw :: "int \<Rightarrow> 'p android_binder \<Rightarrow> 'p client \<Rightarrow> byte list \<Rightarrow> status \<times> 'p client" where
  "InvokeOemRequestHookRaw hook b c data =
     with_interface c (\<lambda>i s.
       case callbacks s hook of
         None \<Rightarrow> (RIL_CLIENT_UNKNOWN, Some s)
       | Some f \<Rightarrow>
           (case Bp_samsungOemRequest b i data s of
              (None, s) \<Rightarrow> (RIL_CLIENT_IO_ERROR, Some s)
            | (Some reply, s) \<Rightarrow> (RIL_CLIENT_SUCCESS, Some (run_callback f reply s))))"

definition SetLoopbackTest :: "'p android_binder \<Rightarrow> 'p client \<Rightarrow> int \<Rightarrow> int \<Rightarrow> status \<times> 'p client" where
  "SetLoopbackTest b c loopback path =
     with_interface c (\<lambda>i s. flag_status (Bp_setLoopbackTest b i loopback path s))"

definition SetDhaSolution :: "'p android_binder \<Rightarrow> 'p client \<Rightarrow> int \<Rightarrow> int \<Rightarrow> byte list option \<Rightarrow> status \<times> 'p client" where
  "SetDhaSolution b c mode select extra =
     with_interface c (\<lambda>i s. flag_status (Bp_setDhaSolution b i mode select
       (case extra of None \<Rightarrow> [] | Some e \<Rightarrow> e) s))"

definition SetTwoMicControl :: "'p android_binder \<Rightarrow> 'p client \<Rightarrow> int \<Rightarrow> int \<Rightarrow> status \<times> 'p client" where
  "SetTwoMicControl b c param1 param2 =
     with_interface c (\<lambda>i s. flag_status (Bp_setTwoMicControl b i param1 param2 s))"

text \<open>The callback gets the success of the request, not the answer.\<close>

definition GetMute :: "'p android_binder \<Rightarrow> 'p client \<Rightarrow> client_callback \<Rightarrow> status \<times> 'p client" where
  "GetMute b c callback =
     with_interface c (\<lambda>i s.
       case Bp_getMute b i s of
         (None, s) \<Rightarrow> (RIL_CLIENT_IO_ERROR, Some s)
       | (Some muted, s) \<Rightarrow>
           (let ret = True; byte = (if ret then 1 else 0)
            in (RIL_CLIENT_SUCCESS, Some (run_callback callback [byte] s))))"

definition SetMute :: "'p android_binder \<Rightarrow> 'p client \<Rightarrow> int \<Rightarrow> status \<times> 'p client" where
  "SetMute b c mute = with_interface c (\<lambda>i s. flag_status (Bp_setMute b i (mute \<noteq> 0) s))"

definition SetCallRecord :: "'p android_binder \<Rightarrow> 'p client \<Rightarrow> int \<Rightarrow> status \<times> 'p client" where
  "SetCallRecord b c rec = with_interface c (\<lambda>i s. flag_status (Bp_setCallRecord b i rec s))"

definition SetCallClockSync :: "'p android_binder \<Rightarrow> 'p client \<Rightarrow> int \<Rightarrow> status \<times> 'p client" where
  "SetCallClockSync b c sync = with_interface c (\<lambda>i s. flag_status (Bp_setCallClockSync b i sync s))"

definition SetVideoCallClockSync :: "'p android_binder \<Rightarrow> 'p client \<Rightarrow> int \<Rightarrow> status \<times> 'p client" where
  "SetVideoCallClockSync b c sync =
     with_interface c (\<lambda>i s. flag_status (Bp_setVideoCallClockSync b i sync s))"

definition SetCallAudioPath :: "'p android_binder \<Rightarrow> 'p client \<Rightarrow> int \<Rightarrow> int \<Rightarrow> status \<times> 'p client" where
  "SetCallAudioPath b c path extraVolume =
     with_interface c (\<lambda>i s. flag_status (Bp_setCallAudioPath b i path extraVolume s))"

definition SetCallVolume :: "'p android_binder \<Rightarrow> 'p client \<Rightarrow> int \<Rightarrow> int \<Rightarrow> status \<times> 'p client" where
  "SetCallVolume b c device volume =
     with_interface c (\<lambda>i s. flag_status (Bp_setCallVolume b i device volume s))"

text \<open>The requests, and the functions that a client calls for them.\<close>

datatype client_request = Loopback_test int int | Dha_solution int int "byte list option"
  | Two_mic_control int int | Get_mute client_callback | Set_mute int | Call_record int
  | Call_clock_sync int | Video_call_clock_sync int | Call_audio_path int int | Call_volume int int
  | Oem_hook "byte list"

fun run_request ::
    "int \<Rightarrow> 'p android_binder \<Rightarrow> client_request \<Rightarrow> 'p client \<Rightarrow> status \<times> 'p client"
where
  "run_request hook b (Loopback_test loopback path) c = SetLoopbackTest b c loopback path"
| "run_request hook b (Dha_solution mode select extra) c = SetDhaSolution b c mode select extra"
| "run_request hook b (Two_mic_control device report) c = SetTwoMicControl b c device report"
| "run_request hook b (Get_mute callback) c = GetMute b c callback"
| "run_request hook b (Set_mute mute) c = SetMute b c mute"
| "run_request hook b (Call_record rec) c = SetCallRecord b c rec"
| "run_request hook b (Call_clock_sync sync) c = SetCallClockSync b c sync"
| "run_request hook b (Video_call_clock_sync sync) c = SetVideoCallClockSync b c sync"
| "run_request hook b (Call_audio_path path extraVolume) c = SetCallAudioPath b c path extraVolume"
| "run_request hook b (Call_volume device volume) c = SetCallVolume b c device volume"
| "run_request hook b (Oem_hook data) c = InvokeOemRequestHookRaw hook b c data"

section \<open>The contract of a client\<close>

text \<open>
  The service is declared in ICrossClientService.aidl: each request is a transaction with arguments,
  in the order of their declaration, behind the token of the interface.  An integer and a string are
  written as they are, an array behind its length, and a boolean in an array as 0 or 1.
\<close>

datatype argument = Int_arg int | String_arg "byte list" | Booleans_arg "bool list" | Bytes_arg "byte list"

fun aidl_call :: "client_request \<Rightarrow> transaction \<times> argument list" where
  "aidl_call (Loopback_test loopback path) = (TRANSACTION_setLoopbackTest, [Int_arg loopback, Int_arg path])"
| "aidl_call (Dha_solution mode select extra) =
     (TRANSACTION_setDhaSolution, [Int_arg mode, Int_arg select, String_arg (case extra of None \<Rightarrow> [] | Some e \<Rightarrow> e)])"
| "aidl_call (Two_mic_control device report) = (TRANSACTION_setTwoMicControl, [Int_arg device, Int_arg report])"
| "aidl_call (Get_mute callback) = (TRANSACTION_getMute, [Booleans_arg [False]])"
| "aidl_call (Set_mute mute) = (TRANSACTION_setMute, [Int_arg (if mute \<noteq> 0 then 1 else 0)])"
| "aidl_call (Call_record rec) = (TRANSACTION_setCallRecord, [Int_arg rec])"
| "aidl_call (Call_clock_sync sync) = (TRANSACTION_setCallClockSync, [Int_arg sync])"
| "aidl_call (Video_call_clock_sync sync) = (TRANSACTION_setVideoCallClockSync, [Int_arg sync])"
| "aidl_call (Call_audio_path path extraVolume) = (TRANSACTION_setCallAudioPath, [Int_arg path, Int_arg extraVolume])"
| "aidl_call (Call_volume device volume) = (TRANSACTION_setCallVolume, [Int_arg device, Int_arg volume])"
| "aidl_call (Oem_hook data) = (TRANSACTION_samsungOemRequest, [Bytes_arg data])"

fun put_argument :: "'p android_binder \<Rightarrow> argument \<Rightarrow> 'p \<Rightarrow> 'p" where
  "put_argument b (Int_arg i) p = b_writeInt32 b i p"
| "put_argument b (String_arg t) p = b_writeString16 b t p"
| "put_argument b (Booleans_arg vs) p =
     fold (\<lambda>v. b_writeInt32 b (if v then 1 else 0)) vs (b_writeInt32 b (int (length vs)) p)"
| "put_argument b (Bytes_arg d) p =
     b_write b d (b_writeInt32 b (sint (word_of_int (int (length d)) :: u32)) p)"

definition call_of :: "'p android_binder \<Rightarrow> nat \<Rightarrow> client_request \<Rightarrow> 'p binder_call" where
  "call_of b i q = (case aidl_call q of (t, arguments) \<Rightarrow>
     Transact i t (fold (put_argument b) arguments (b_token b interface_descriptor)))"

text \<open>
  What the service answered, and what it means: nothing behind an exception, else whether the request
  was done and, if it was, which callback runs with which data.  The answer to \<open>getMute\<close> must hold the
  array with its one element; an answer of Samsung's may hold data.
\<close>

definition answered :: "'p android_binder \<Rightarrow> 'p binder_call \<Rightarrow> 'p session \<Rightarrow> 'p option" where
  "answered b made s =
     (case b_call b (binder_calls s) made of
        Reply p \<Rightarrow> (case b_readExceptionCode b p of (e, body) \<Rightarrow> if e = 0 then Some body else None)
      | _ \<Rightarrow> None)"

fun outcome_of ::
    "'p android_binder \<Rightarrow> client_callback option \<Rightarrow> client_request \<Rightarrow> 'p \<Rightarrow> (client_callback \<times> byte list) list option"
where
  "outcome_of b hooked (Get_mute callback) body =
     (let (ok, rest) = b_readInt32 b body; (count, rest) = b_readInt32 b rest
      in if ok \<noteq> 0 \<and> count = 1 then Some [(callback, [1])] else None)"
| "outcome_of b hooked (Oem_hook data) body =
     (let (ok, rest) = b_readInt32 b body; (present, rest) = b_readInt32 b rest; (n, rest) = b_readInt32 b rest
      in if ok \<noteq> 0
         then Some [(the hooked, if present \<noteq> 0 then b_read b (unat (word_of_int n :: u32)) rest else [])]
         else None)"
| "outcome_of b hooked q body = (if fst (b_readInt32 b body) \<noteq> 0 then Some [] else None)"

fun needs_callback :: "client_request \<Rightarrow> bool" where
  "needs_callback (Oem_hook data) = True"
| "needs_callback q = False"

definition specified_request ::
    "int \<Rightarrow> 'p android_binder \<Rightarrow> client_request \<Rightarrow> 'p client \<Rightarrow> status \<times> 'p client"
where
  "specified_request hook b q c =
     (case c of None \<Rightarrow> (RIL_CLIENT_INVALID, None)
      | Some s \<Rightarrow> (case interface s of
          None \<Rightarrow> (RIL_CLIENT_REFUSED, Some s)
        | Some i \<Rightarrow>
            if needs_callback q \<and> callbacks s hook = None then (RIL_CLIENT_UNKNOWN, Some s)
            else let s' = s\<lparr>binder_calls := call_of b i q # binder_calls s\<rparr> in
              case Option.bind (answered b (call_of b i q) s) (outcome_of b (callbacks s hook) q) of
                None \<Rightarrow> (RIL_CLIENT_IO_ERROR, Some s')
              | Some runs \<Rightarrow> (RIL_CLIENT_SUCCESS, Some (s'\<lparr>reported := runs @ reported s\<rparr>))))"

lemma transact_answered:
  "transact b i t marshal s =
     (let made = Transact i t (marshal (b_token b interface_descriptor))
      in (answered b made s, s\<lparr>binder_calls := made # binder_calls s\<rparr>))"
  by (auto simp: transact_def answered_def binder_call_def Let_def split: binder_reply.split prod.split)

lemma transact_session:
  "\<exists>r p. transact b i t marshal s = (r, s\<lparr>binder_calls := Transact i t p # binder_calls s\<rparr>)"
  by (auto simp: transact_def binder_call_def Let_def split: binder_reply.split prod.split)

lemma transact_flag_session:
  "\<exists>r p. transact_flag b i t marshal s = (r, s\<lparr>binder_calls := Transact i t p # binder_calls s\<rparr>)"
  using transact_session [of b i t marshal s]
  by (auto simp: transact_flag_def split: option.split)

lemma Bp_getMute_session:
  "\<exists>r p. Bp_getMute b i s = (r, s\<lparr>binder_calls := Transact i TRANSACTION_getMute p # binder_calls s\<rparr>)"
  using transact_session [of b i TRANSACTION_getMute "b_writeInt32 b 0 \<circ> b_writeInt32 b 1" s]
  by (auto simp: Bp_getMute_def Let_def split: option.split prod.split)

text \<open>A service that does every request and answers that the microphone is not muted.\<close>

definition answering_binder :: "int list android_binder" where
  "answering_binder =
     \<lparr>b_token = (\<lambda>t. []), b_writeInt32 = (\<lambda>i p. p @ [i]),
      b_writeString16 = (\<lambda>t p. p), b_write = (\<lambda>d p. p),
      b_readExceptionCode = (\<lambda>p. (hd p, tl p)), b_readInt32 = (\<lambda>p. (hd p, tl p)),
      b_read = (\<lambda>n p. replicate n 7),
      b_call = (\<lambda>h c. case c of GetService t \<Rightarrow> Service (Some 1) | Ping i \<Rightarrow> Alive True
        | Transact i t p \<Rightarrow> Reply [0, 1, 1, 0])\<rparr>"

definition connected_session :: "int list session" where
  "connected_session =
     \<lparr>interface = Some 1, callbacks = (\<lambda>_. None), binder_calls = [], reported = []\<rparr>"

lemmas client_functions = SetLoopbackTest_def SetDhaSolution_def SetTwoMicControl_def GetMute_def SetMute_def
  SetCallRecord_def SetCallClockSync_def SetVideoCallClockSync_def SetCallAudioPath_def SetCallVolume_def
  InvokeOemRequestHookRaw_def

lemmas proxy_functions = Bp_setLoopbackTest_def Bp_setDhaSolution_def Bp_setTwoMicControl_def Bp_getMute_def
  Bp_setMute_def Bp_setCallRecord_def Bp_setCallClockSync_def Bp_setVideoCallClockSync_def
  Bp_setCallAudioPath_def Bp_setCallVolume_def Bp_samsungOemRequest_def

section \<open>Properties\<close>

text \<open>
  C21. Every request of a client keeps its contract.  A null client is invalid, one that is not connected
  is refused without a call, and Samsung's requests need a callback for the hook.  Otherwise exactly
  the transaction that the interface declares is made, with the declared arguments in their order; the
  status is success just when the service answered without an exception that it did the request (and
  \<open>getMute\<close> with an array of one), and an I/O error otherwise; a callback runs only on success, that of
  the hook with the data answered, that of \<open>getMute\<close> always with 1 (the success, not the mute state);
  and the connection and the registered callbacks stay as they are.
\<close>

theorem client_requests_contract: "run_request hook b q c = specified_request hook b q c"
proof (cases c)
  case None
  then show ?thesis
    by (cases q) (simp_all add: specified_request_def client_functions)
next
  case (Some s)
  show ?thesis
    by (cases q; cases "interface s"; cases "callbacks s hook")
      (auto simp: Some specified_request_def client_functions proxy_functions
        transact_flag_def transact_answered call_of_def flag_status_def run_callback_def Let_def bind_eq_None_conv
        split: option.split prod.split)
qed

text \<open>\<open>GetMute\<close> never tells whether the microphone is muted: when it succeeds, it runs the callback
  with 1, whatever the service answered.\<close>

theorem get_mute_reports_success:
  assumes "GetMute b (Some s) callback = (RIL_CLIENT_SUCCESS, Some s')"
  shows "reported s' = (callback, [1]) # reported s"
proof (cases "interface s")
  case None
  with assms show ?thesis by (simp add: GetMute_def client_statuses)
next
  case (Some i)
  obtain r p where "Bp_getMute b i s = (r, s\<lparr>binder_calls := Transact i TRANSACTION_getMute p # binder_calls s\<rparr>)"
    using Bp_getMute_session [of b i s] by blast
  with Some assms show ?thesis
    by (auto simp: GetMute_def client_statuses run_callback_def split: option.splits)
qed

text \<open>The hook runs the callback that was registered first since the last unregistration, with the
  reply of the service, and only when the service did the request; without one it makes no call.\<close>

theorem hook_runs_first_callback:
  assumes "interface s = Some i"
    and "RegisterRequestCompleteHandler (Some (s\<lparr>callbacks := (callbacks s)(hook := None)\<rparr>)) hook (Some f) = (u, c1)"
    and "RegisterRequestCompleteHandler c1 hook (Some g) = (v, c2)"
    and "InvokeOemRequestHookRaw hook b c2 data = (status, Some s')"
  shows "\<exists>p. binder_calls s' = Transact i TRANSACTION_samsungOemRequest p # binder_calls s \<and>
    (if status = RIL_CLIENT_SUCCESS then \<exists>reply. reported s' = (f, reply) # reported s
     else status = RIL_CLIENT_IO_ERROR \<and> reported s' = reported s)"
proof -
  have "c2 = Some (s\<lparr>callbacks := (callbacks s)(hook \<mapsto> f)\<rparr>)"
    using assms(2,3) by auto
  moreover have "\<exists>r p. Bp_samsungOemRequest b i data s =
      (r, s\<lparr>binder_calls := Transact i TRANSACTION_samsungOemRequest p # binder_calls s\<rparr>)" for s
    using transact_session [of b i TRANSACTION_samsungOemRequest
        "b_write b data \<circ> b_writeInt32 b (sint (word_of_int (int (length data)) :: u32))" s]
    by (auto simp: Bp_samsungOemRequest_def Let_def split: option.split prod.split)
  then obtain r p where "Bp_samsungOemRequest b i data (s\<lparr>callbacks := (callbacks s)(hook \<mapsto> f)\<rparr>) =
      (r, s\<lparr>callbacks := (callbacks s)(hook \<mapsto> f),
            binder_calls := Transact i TRANSACTION_samsungOemRequest p # binder_calls s\<rparr>)"
    by (metis session.select_convs(3) session.surjective session.update_convs(2))
  ultimately show ?thesis
    using assms(1,4)
    by (auto simp: InvokeOemRequestHookRaw_def client_statuses run_callback_def split: option.splits)
qed

lemma GetMute_unmuted:
  "GetMute answering_binder (Some connected_session) 5 = (RIL_CLIENT_SUCCESS, Some (connected_session\<lparr>
     binder_calls := [Transact 1 TRANSACTION_getMute [1, 0]], reported := [(5, [1])]\<rparr>))"
  by (simp add: GetMute_def connected_session_def answering_binder_def Bp_getMute_def transact_def
      binder_call_def run_callback_def)

lemma get_mute_reports_success_witness:
  "Bp_getMute answering_binder 1 connected_session = (Some False, connected_session\<lparr>
     binder_calls := [Transact 1 TRANSACTION_getMute [1, 0]]\<rparr>)
   \<and> (\<exists>s'. GetMute answering_binder (Some connected_session) 5 = (RIL_CLIENT_SUCCESS, Some s')
        \<and> reported s' = [(5, [1])])"
  using get_mute_reports_success [OF GetMute_unmuted] GetMute_unmuted
  by (simp add: connected_session_def answering_binder_def Bp_getMute_def transact_def binder_call_def)

lemma hook_runs_first_callback_witness:
  "\<exists>c1 c2 s' p. RegisterRequestCompleteHandler (Some connected_session) 59 (Some 5) = (RIL_CLIENT_SUCCESS, c1)
     \<and> RegisterRequestCompleteHandler c1 59 (Some 6) = (RIL_CLIENT_SUCCESS, c2)
     \<and> InvokeOemRequestHookRaw 59 answering_binder c2 [1, 2] = (RIL_CLIENT_SUCCESS, Some s')
     \<and> binder_calls s' = [Transact 1 TRANSACTION_samsungOemRequest p]
     \<and> (\<exists>reply. reported s' = [(5, reply)])"
proof -
  let ?s = "connected_session\<lparr>callbacks := (callbacks connected_session)(59 := None)\<rparr>"
  let ?t = "connected_session\<lparr>callbacks := [59 \<mapsto> 5]\<rparr>"
  have s: "?s = connected_session" by (simp add: connected_session_def)
  have r: "RegisterRequestCompleteHandler (Some ?s) 59 (Some 5) = (RIL_CLIENT_SUCCESS, Some ?t)"
    "RegisterRequestCompleteHandler (Some ?t) 59 (Some 6) = (RIL_CLIENT_SUCCESS, Some ?t)"
    by (simp_all add: connected_session_def)
  obtain s' where i: "InvokeOemRequestHookRaw 59 answering_binder (Some ?t) [1, 2] = (RIL_CLIENT_SUCCESS, Some s')"
    by (simp add: InvokeOemRequestHookRaw_def connected_session_def answering_binder_def
        Bp_samsungOemRequest_def transact_def binder_call_def)
  have "interface connected_session = Some 1" by (simp add: connected_session_def)
  from hook_runs_first_callback [OF this r i] obtain p reply where
    "binder_calls s' = [Transact 1 TRANSACTION_samsungOemRequest p]" "reported s' = [(5, reply)]"
    by (auto simp: connected_session_def client_statuses)
  with r i s show ?thesis by auto
qed

end
