(* ===== verification/OEM_Service.thy ===== *)
theory OEM_Service
  imports RIL_Oem
begin

text \<open>
  The requests that the OEM service makes of the RIL: how OEMRequestBuilder.java (oemservice) writes
  them and \<open>handleOemHookRaw\<close> of ril/oem.cpp takes them apart.  Both use \<open>Parcel\<close>, which is a
  parameter with the laws of \<open>parcel_laws\<close>.  What a request means is what include/freeril/oem.h says;
  the builder keeps to it but for the loopback test, whose two parameters it writes the other way round.
\<close>

section \<open>Writing a request\<close>

text \<open>The class in Java also writes arrays of bytes; the RIL works on the part that C++ has.\<close>

record 'p service_parcel = "'p parcel_api" +
  parcel_writeByteArray :: "byte list \<Rightarrow> 'p \<Rightarrow> 'p"

abbreviation ril_parcel :: "'p service_parcel \<Rightarrow> 'p parcel_api" where
  "ril_parcel \<equiv> parcel_api.truncate"

lemma ril_parcel_simps [simp]:
  "parcel_setData (ril_parcel api) = parcel_setData api" "parcel_new (ril_parcel api) = parcel_new api"
  "parcel_readInt32 (ril_parcel api) = parcel_readInt32 api"
  "parcel_readString (ril_parcel api) = parcel_readString api"
  "parcel_error (ril_parcel api) = parcel_error api"
  "parcel_writeInt32 (ril_parcel api) = parcel_writeInt32 api"
  "parcel_writeString (ril_parcel api) = parcel_writeString api" "parcel_data (ril_parcel api) = parcel_data api"
  by (simp_all add: parcel_api.truncate_def)

datatype parcel_item = PInt int | PString "byte list" | PBytes "byte list"

fun parcel_write :: "'p service_parcel \<Rightarrow> parcel_item \<Rightarrow> 'p \<Rightarrow> 'p" where
  "parcel_write api (PInt i) = parcel_writeInt32 api i"
| "parcel_write api (PString t) = parcel_writeString api t"
| "parcel_write api (PBytes d) = parcel_writeByteArray api d"

definition written :: "'p service_parcel \<Rightarrow> parcel_item list \<Rightarrow> byte list" where
  "written api items = parcel_data api (fold (parcel_write api) items (parcel_new api))"

datatype service_request = Attach bool | SetLoopbackTest int int | SetDhaSolution int int "byte list"
  | SetTwoMicControl int int | GetMute | SetMute int | SetCallRecord int | SetCallClockSync int
  | SetVideoCallClockSync int | SetCallAudioPath int int | SetCallVolume int int
  | SamsungOemRequest "byte list"
  | EnterServiceMode int int | ExitServiceMode int | SendServiceKeyCode int

fun request_items :: "service_request \<Rightarrow> parcel_item list" where
  "request_items (Attach attach) = [PInt 1, PInt (if attach then 1 else 0)]"
| "request_items (SetLoopbackTest loopback path) = [PInt 2, PInt loopback, PInt path]"
| "request_items (SetDhaSolution mode select extra) = [PInt 3, PInt mode, PInt select, PString extra]"
| "request_items (SetTwoMicControl device report) = [PInt 4, PInt device, PInt report]"
| "request_items GetMute = [PInt 5]"
| "request_items (SetMute mute) = [PInt 6, PInt mute]"
| "request_items (SetCallRecord rec) = [PInt 7, PInt rec]"
| "request_items (SetCallClockSync sync) = [PInt 8, PInt sync]"
| "request_items (SetVideoCallClockSync sync) = [PInt 9, PInt sync]"
| "request_items (SetCallAudioPath path extraVolume) = [PInt 10, PInt path, PInt extraVolume]"
| "request_items (SetCallVolume device volume) = [PInt 11, PInt device, PInt volume]"
| "request_items (SamsungOemRequest data) = [PInt 12, PBytes data]"
| "request_items (EnterServiceMode modeType subType) = [PInt 13, PInt modeType, PInt subType]"
| "request_items (ExitServiceMode modeType) = [PInt 14, PInt modeType]"
| "request_items (SendServiceKeyCode keyCode) = [PInt 15, PInt keyCode]"

definition build :: "'p service_parcel \<Rightarrow> service_request \<Rightarrow> byte list" where
  "build api q = written api (PInt 0x65657246 # PInt 0x214c4952 # request_items q)"

definition parseGetMute :: "'p service_parcel \<Rightarrow> byte list \<Rightarrow> bool" where
  "parseGetMute api reply = (fst (parcel_readInt32 api (parcel_setData api reply)) \<noteq> 0)"

section \<open>The laws of parcels\<close>

fun item_fits :: "parcel_item \<Rightarrow> bool" where
  "item_fits (PInt i) = (- (2 ^ 31) \<le> i \<and> i < 2 ^ 31)"
| "item_fits (PString t) = (0 \<notin> set t \<and> length t < 2 ^ 31)"
| "item_fits (PBytes d) = (length d < 2 ^ 31)"

text \<open>
  Reading \<open>items\<close> in order from a parcel gives them, without an error; nothing is said from an array
  of bytes on, which the RIL does not read.
\<close>

primrec reads :: "'p service_parcel \<Rightarrow> parcel_item list \<Rightarrow> 'p \<Rightarrow> bool" where
  "reads api [] p = (\<not> parcel_error api p)"
| "reads api (item # items) p =
     (case item of
        PInt i \<Rightarrow> (case parcel_readInt32 api p of (j, q) \<Rightarrow> j = i \<and> reads api items q)
      | PString t \<Rightarrow> (case parcel_readString api p of (u, q) \<Rightarrow> u = t \<and> reads api items q)
      | PBytes d \<Rightarrow> True)"

definition parcel_laws :: "'p service_parcel \<Rightarrow> bool" where
  "parcel_laws api \<longleftrightarrow>
     (\<forall>i items. written api (PInt i # items) = le32 (word_of_int i) @ written api items) \<and>
     (\<forall>items. list_all item_fits items \<longrightarrow> reads api items (parcel_setData api (written api items)))"

lemma written_PInt:
  "parcel_laws api \<Longrightarrow> written api (PInt i # items) = le32 (word_of_int i) @ written api items"
  by (simp add: parcel_laws_def)

lemma written_reads:
  "parcel_laws api \<Longrightarrow> list_all item_fits items \<Longrightarrow> reads api items (parcel_setData api (written api items))"
  by (simp add: parcel_laws_def)

text \<open>Parcels in memory: integers in four bytes, strings behind their length.\<close>

fun item_bytes :: "parcel_item \<Rightarrow> byte list" where
  "item_bytes (PInt i) = le32 (word_of_int i)"
| "item_bytes (PString t) = le32 (of_nat (length t)) @ t"
| "item_bytes (PBytes d) = le32 (of_nat (length d)) @ d"

definition packed_parcels :: "byte list service_parcel" where
  "packed_parcels =
     \<lparr>parcel_setData = (\<lambda>d. d), parcel_new = [],
      parcel_readInt32 = (\<lambda>d. (sint (de32 d), drop 4 d)),
      parcel_readString = (\<lambda>d. (take (unat (de32 d)) (drop 4 d), drop (4 + unat (de32 d)) d)),
      parcel_error = (\<lambda>d. False), parcel_writeInt32 = (\<lambda>i d. d @ item_bytes (PInt i)),
      parcel_writeString = (\<lambda>t d. d @ item_bytes (PString t)), parcel_data = (\<lambda>d. d),
      parcel_writeByteArray = (\<lambda>t d. d @ item_bytes (PBytes t))\<rparr>"

lemma fold_packed: "fold (parcel_write packed_parcels) items p = p @ concat (map item_bytes items)"
proof (induction items arbitrary: p)
  case (Cons item items)
  then show ?case by (cases item) (simp_all add: packed_parcels_def)
qed simp

lemma written_packed: "written packed_parcels items = concat (map item_bytes items)"
  by (simp add: written_def fold_packed) (simp add: packed_parcels_def)

lemma reads_packed:
  "list_all item_fits items \<Longrightarrow> reads packed_parcels items (concat (map item_bytes items))"
proof (induction items)
  case (Cons item items)
  then have IH: "reads packed_parcels items (concat (map item_bytes items))" by simp
  show ?case
  proof (cases item)
    case (PInt i)
    have "sint (word_of_int i :: u32) = i"
      using Cons.prems PInt by (simp add: int_word_sint)
    with PInt IH show ?thesis by (simp add: packed_parcels_def)
  next
    case (PString t)
    have "unat (of_nat (length t) :: u32) = length t"
      using Cons.prems PString by (simp add: unat_of_nat)
    with PString IH show ?thesis by (simp add: packed_parcels_def)
  qed simp
qed (simp add: packed_parcels_def)

lemma packed_laws: "parcel_laws packed_parcels"
proof -
  have "parcel_setData packed_parcels d = d" for d by (simp add: packed_parcels_def)
  then show ?thesis by (simp add: parcel_laws_def written_packed reads_packed)
qed

section \<open>What the RIL does with a request\<close>

text \<open>
  What oem.h says of each request, with the parameters under the names they have there; Samsung's own
  requests are not supported.
\<close>

fun service_command :: "'p service_parcel \<Rightarrow> service_request \<Rightarrow> request \<Rightarrow> ril \<Rightarrow> process" where
  "service_command api (Attach attach) r s = oem_done r (oem_handleAttachService attach) s"
| "service_command api (SetLoopbackTest loopback path) r s =
     oem_handleSetLoopbackTest path loopback s (oem_done r)"
| "service_command api (SetDhaSolution mode select extra) r s =
     oem_handleSetDhaSolution mode select extra s (oem_done r)"
| "service_command api (SetTwoMicControl device report) r s =
     oem_handleSetTwoMicControl device report s (oem_done r)"
| "service_command api GetMute r s =
     oem_handleGetMute s (\<lambda>muted s. case muted of
         None \<Rightarrow> Finished (completed r RIL_E_GENERIC_FAILURE s)
       | Some muted \<Rightarrow>
           (let data = written api [PInt (if muted then 1 else 0)]
            in Finished (Request_complete r RIL_E_SUCCESS (Raw_response data) (length data) s)))"
| "service_command api (SetMute mute) r s = oem_handleSetMute (mute \<noteq> 0) s (oem_done r)"
| "service_command api (SetCallRecord rec) r s = oem_handleSetCallRecord rec s (oem_done r)"
| "service_command api (SetCallClockSync sync) r s = oem_handleSetCallClockSync sync s (oem_done r)"
| "service_command api (SetVideoCallClockSync sync) r s =
     oem_handleSetVideoCallClockSync sync s (oem_done r)"
| "service_command api (SetCallAudioPath path extraVolume) r s =
     oem_handleSetCallAudioPath path extraVolume s (oem_done r)"
| "service_command api (SetCallVolume device volume) r s =
     oem_handleSetCallVolume device volume s (oem_done r)"
| "service_command api (SamsungOemRequest data) r s = Finished (completed r RIL_E_GENERIC_FAILURE s)"
| "service_command api (EnterServiceMode modeType subType) r s =
     oem_handleEnterServiceMode modeType subType s (oem_done r)"
| "service_command api (ExitServiceMode modeType) r s = oem_handleExitServiceMode modeType s (oem_done r)"
| "service_command api (SendServiceKeyCode keyCode) r s =
     oem_handleSendServiceKeyCode keyCode s (oem_done r)"

text \<open>
  What the RIL takes a request of the builder to be.  \<open>buildSetLoopbackTest\<close> writes the loopback before
  the path, where oem.h has the path before the loopback.
\<close>

fun received :: "service_request \<Rightarrow> service_request" where
  "received (SetLoopbackTest loopback path) = SetLoopbackTest path loopback"
| "received q = q"

definition attaches :: "service_request \<Rightarrow> bool" where
  "attaches q = (case q of Attach a \<Rightarrow> True | _ \<Rightarrow> False)"

definition radio_refuses :: "ril \<Rightarrow> bool" where
  "radio_refuses s = (m_radioState s = RADIO_STATE_UNAVAILABLE \<or> m_radioState s = RADIO_STATE_OFF)"

lemma header_of_written:
  assumes "parcel_laws api"
  shows "oem_header_of (written api (PInt a # PInt b # PInt c # items)) =
      \<lparr>signature_low = word_of_int a, signature_high = word_of_int b, oem_code = word_of_int c\<rparr>"
    "drop oem_header_size (written api (PInt a # PInt b # PInt c # items)) = written api items"
    "oem_header_size \<le> length (written api (PInt a # PInt b # PInt c # items))"
  by (simp_all add: written_PInt [OF assms] oem_header_of_def oem_header_size_def)

lemma c_str_no_nul: "0 \<notin> set t \<Longrightarrow> c_str t = t"
  by (auto simp: c_str_def takeWhile_eq_all_conv)

lemma oem_request_codes [simp]:
  "oem_request_of 1 = OEM_REQUEST_ATTACH_SERVICE" "oem_request_of 2 = OEM_REQUEST_SET_LOOPBACK_TEST"
  "oem_request_of 3 = OEM_REQUEST_SET_DHA_SOLUTION" "oem_request_of 4 = OEM_REQUEST_SET_TWO_MIC_CONTROL"
  "oem_request_of 5 = OEM_REQUEST_GET_MUTE" "oem_request_of 6 = OEM_REQUEST_SET_MUTE"
  "oem_request_of 7 = OEM_REQUEST_SET_CALL_RECORD" "oem_request_of 8 = OEM_REQUEST_SET_CALL_CLOCK_SYNC"
  "oem_request_of 9 = OEM_REQUEST_SET_VIDEO_CALL_CLOCK_SYNC"
  "oem_request_of 10 = OEM_REQUEST_SET_CALL_AUDIO_PATH" "oem_request_of 11 = OEM_REQUEST_SET_CALL_VOLUME"
  "oem_request_of 12 = OEM_REQUEST_SAMSUNG_OEM_REQUEST"
  "oem_request_of 13 = OEM_REQUEST_ENTER_SERVICE_MODE" "oem_request_of 14 = OEM_REQUEST_EXIT_SERVICE_MODE"
  "oem_request_of 15 = OEM_REQUEST_SEND_SERVICE_KEY_CODE"
  by code_simp+

lemma hook_of_built:
  assumes laws: "parcel_laws api" and items: "request_items q = PInt c # params"
    and code: "oem_request_of (word_of_int c) = OEM_REQUEST_ATTACH_SERVICE \<or> \<not> radio_refuses s"
  shows "handleOemHookRaw (ril_parcel api) (r\<lparr>r_data := Raw_data (build api q)\<rparr>) s =
    oem_dispatch (ril_parcel api) (oem_request_of (word_of_int c)) (parcel_setData api (written api params))
      (r\<lparr>r_data := Raw_data (build api q)\<rparr>) s"
proof -
  have b: "build api q = written api (PInt 0x65657246 # PInt 0x214c4952 # PInt c # params)"
    by (simp add: build_def items)
  show ?thesis
    using code header_of_written [OF laws, where a = "0x65657246" and b = "0x214c4952" and c = c and items = params]
    by (auto simp: handleOemHookRaw_def raw_arg_def with_arg_def b OEM_SIGNATURE_LOW_def
        OEM_SIGNATURE_HIGH_def radio_refuses_def)
qed

lemma oem_int_reads:
  "reads api [PInt a] p \<Longrightarrow> oem_int (ril_parcel api) p r s command = command a s (oem_done r)"
  by (simp add: oem_int_def split: prod.splits)

lemma oem_ints_reads:
  "reads api [PInt a, PInt b] p \<Longrightarrow> oem_ints (ril_parcel api) p r s command = command a b s (oem_done r)"
  by (simp add: oem_ints_def case_prod_beta)

lemma oem_dha_reads:
  "reads api [PInt mode, PInt select, PString extra] p \<Longrightarrow> 0 \<notin> set extra \<Longrightarrow>
   oem_dispatch (ril_parcel api) OEM_REQUEST_SET_DHA_SOLUTION p r s =
     oem_handleSetDhaSolution mode select extra s (oem_done r)"
  by (simp add: case_prod_beta c_str_no_nul)

lemma oem_dispatch_get_mute:
  "oem_dispatch (ril_parcel api) OEM_REQUEST_GET_MUTE p r s = service_command api GetMute r s"
  by (simp add: written_def cong: option.case_cong)

text \<open>
  C20. Every request that the OEM service builds reaches the command that oem.h has for it, with the
  parameters that were put in, unless the radio is off; attaching does so even then.  Its integers are
  those of Java, and its strings hold no NUL; parcels give back what was written into them.  There is
  one exception: a loopback test is run with its two parameters swapped, since the builder writes them in
  the opposite order.  Samsung's own requests are answered with a failure, whatever they hold.
\<close>

theorem service_requests_understood:
  assumes laws: "parcel_laws api"
    and fits: "list_all item_fits (request_items q)"
    and on: "attaches q \<or> \<not> radio_refuses s"
  shows "handleOemHookRaw (ril_parcel api) (r\<lparr>r_data := Raw_data (build api q)\<rparr>) s =
    service_command api (received q) (r\<lparr>r_data := Raw_data (build api q)\<rparr>) s"
proof -
  obtain c params where items: "request_items q = PInt c # params"
    by (cases q) auto
  have reads: "reads api params (parcel_setData api (written api params))"
    using written_reads [OF laws] fits items by simp
  have code: "oem_request_of (word_of_int c) = OEM_REQUEST_ATTACH_SERVICE \<or> \<not> radio_refuses s"
    using on items by (cases q) (auto simp: attaches_def)
  show ?thesis
    unfolding hook_of_built [OF laws items code]
    using items reads fits
    by (cases q)
      (auto simp: oem_int_reads oem_ints_reads oem_dha_reads oem_dispatch_get_mute
        oem_handleSamsungOemRequest_def Let_def
        simp del: reads.simps service_command.simps(5) oem_dispatch.simps(3,5))
qed

text \<open>The query for the mute state asks the modem, and the service reads the modem's answer back from
  the data that completes the request.\<close>

theorem mute_query_answered:
  assumes "parcel_laws api" "\<not> radio_refuses s"
  shows "\<exists>f. handleOemHookRaw (ril_parcel api) (r\<lparr>r_data := Raw_data (build api GetMute)\<rparr>) s =
      Executing (outgoing group_SND ''GET_MIC_MUTE'' []) s f \<and>
    (\<forall>reply m s'. message_cast group_SND ''GET_MIC_MUTE_REPLY'' reply = Some m \<longrightarrow>
       (\<exists>data. f reply s' = Finished (Request_complete (r\<lparr>r_data := Raw_data (build api GetMute)\<rparr>)
            RIL_E_SUCCESS (Raw_response data) (length data) s') \<and>
          parseGetMute api data = (member_u8 (w_object m) ''mute'' \<noteq> 0)))"
proof -
  have p: "parseGetMute api (written api [PInt (if muted then 1 else 0)]) = muted" for muted
    using written_reads [OF assms(1), of "[PInt (if muted then 1 else 0)]"]
    by (auto simp: parseGetMute_def split: prod.splits if_splits)
  have "handleOemHookRaw (ril_parcel api) (r\<lparr>r_data := Raw_data (build api GetMute)\<rparr>) s =
      service_command api GetMute (r\<lparr>r_data := Raw_data (build api GetMute)\<rparr>) s"
    using hook_of_built [OF assms(1), of GetMute 5 "[]" s r] assms(2)
    by (simp del: service_command.simps oem_dispatch.simps add: oem_dispatch_get_mute)
  then show ?thesis
    using p [of True] p [of False]
    by (simp add: oem_handleGetMute_def Let_def) blast
qed

lemma service_requests_understood_witness:
  "(\<exists>r. handleOemHookRaw (ril_parcel packed_parcels) r (initial_ril\<lparr>m_radioState := RADIO_STATE_SIM_READY\<rparr>) =
      oem_handleSetCallVolume 1 2 (initial_ril\<lparr>m_radioState := RADIO_STATE_SIM_READY\<rparr>) (oem_done r)) \<and>
   (\<exists>r. handleOemHookRaw (ril_parcel packed_parcels) r (initial_ril\<lparr>m_radioState := RADIO_STATE_SIM_READY\<rparr>) =
      oem_handleSetLoopbackTest 1 2 (initial_ril\<lparr>m_radioState := RADIO_STATE_SIM_READY\<rparr>) (oem_done r))"
proof -
  let ?s = "initial_ril\<lparr>m_radioState := RADIO_STATE_SIM_READY\<rparr>"
  let ?r = "\<lparr>r_code = 59, r_data = Null_data, r_data_size = 0, r_token = 1\<rparr>"
  have "\<not> radio_refuses ?s" by (simp add: radio_refuses_def)
  then show ?thesis
    using service_requests_understood [OF packed_laws, where q = "SetCallVolume 1 2" and s = ?s and r = ?r]
      service_requests_understood [OF packed_laws, where q = "SetLoopbackTest 1 2" and s = ?s and r = ?r]
    by auto
qed

lemma mute_query_answered_witness:
  "\<exists>r f. handleOemHookRaw (ril_parcel packed_parcels) r (initial_ril\<lparr>m_radioState := RADIO_STATE_SIM_READY\<rparr>) =
    Executing (outgoing group_SND ''GET_MIC_MUTE'' []) (initial_ril\<lparr>m_radioState := RADIO_STATE_SIM_READY\<rparr>) f"
proof -
  have "\<not> radio_refuses (initial_ril\<lparr>m_radioState := RADIO_STATE_SIM_READY\<rparr>)" by (simp add: radio_refuses_def)
  from mute_query_answered [OF packed_laws this,
      of "\<lparr>r_code = 59, r_data = Null_data, r_data_size = 0, r_token = 1\<rparr>"]
  show ?thesis by blast
qed

end
