(* ===== verification/Threads.thy ===== *)
theory Threads
  imports Worker_Thread RIL_System
begin

text \<open>
  The wrappers of the thread library (libsamsung-ipc/Mutex.cpp, Semaphore.cpp, WorkerThread.cpp)
  over a model of the POSIX calls that they make: a recursive mutex, a counting semaphore and a
  joinable thread.  The pthread calls return an error number; the wrappers look for \<open>-1\<close>.
\<close>

section \<open>The POSIX objects\<close>

definition EPERM :: int where "EPERM = 1"
definition EAGAIN :: int where "EAGAIN = 11"
definition EBUSY :: int where "EBUSY = 16"

lemmas error_numbers = EPERM_def EAGAIN_def EBUSY_def

text \<open>
  A recursive mutex: the thread that owns it and how often.  It can be locked \<open>limit\<close> times.
\<close>

record mutex =
  mx_owner :: "nat option"
  mx_count :: nat

definition free_mutex :: mutex where
  "free_mutex = \<lparr>mx_owner = None, mx_count = 0\<rparr>"

text \<open>Locking it again; the others take this from \<open>pthread_mutex_lock\<close>, which waits: \<open>None\<close>.\<close>

definition relock :: "nat \<Rightarrow> nat \<Rightarrow> mutex \<Rightarrow> int \<times> mutex" where
  "relock limit t m =
     (if mx_count m < limit then (0, \<lparr>mx_owner = Some t, mx_count = Suc (mx_count m)\<rparr>)
      else (EAGAIN, m))"

definition pthread_mutex_lock :: "nat \<Rightarrow> nat \<Rightarrow> mutex \<Rightarrow> (int \<times> mutex) option" where
  "pthread_mutex_lock limit t m =
     (if mx_owner m \<in> {None, Some t} then Some (relock limit t m) else None)"

definition pthread_mutex_trylock :: "nat \<Rightarrow> nat \<Rightarrow> mutex \<Rightarrow> int \<times> mutex" where
  "pthread_mutex_trylock limit t m =
     (if mx_owner m \<in> {None, Some t} then relock limit t m else (EBUSY, m))"

definition pthread_mutex_unlock :: "nat \<Rightarrow> mutex \<Rightarrow> int \<times> mutex" where
  "pthread_mutex_unlock t m =
     (if mx_owner m \<noteq> Some t then (EPERM, m)
      else if mx_count m \<le> 1 then (0, free_mutex)
      else (0, m\<lparr>mx_count := mx_count m - 1\<rparr>))"

definition pthread_mutex_destroy :: "mutex \<Rightarrow> int" where
  "pthread_mutex_destroy m = (if mx_owner m = None then 0 else EBUSY)"

section \<open>Mutex\<close>

definition unless_minus_one :: "int \<Rightarrow> 'a \<Rightarrow> 'a outcome" where
  "unless_minus_one ret x = (if ret = -1 then Inl Panic else Inr x)"

text \<open>\<open>ret\<close> is the answer of \<open>pthread_mutex_init\<close>.\<close>

definition Mutex :: "int \<Rightarrow> mutex outcome" where
  "Mutex ret = unless_minus_one ret free_mutex"

definition Mutex_destroy :: "mutex \<Rightarrow> unit outcome" where
  "Mutex_destroy m = unless_minus_one (pthread_mutex_destroy m) ()"

definition Mutex_lock :: "nat \<Rightarrow> nat \<Rightarrow> mutex \<Rightarrow> mutex outcome option" where
  "Mutex_lock limit t m =
     map_option (\<lambda>(ret, m). unless_minus_one ret m) (pthread_mutex_lock limit t m)"

definition Mutex_tryLock :: "int \<Rightarrow> nat \<Rightarrow> nat \<Rightarrow> mutex \<Rightarrow> (bool \<times> mutex) outcome" where
  "Mutex_tryLock errno limit t m =
     (let (ret, m) = pthread_mutex_trylock limit t m in
      if ret = -1 \<and> errno = EBUSY then Inr (False, m)
      else if ret = -1 then Inl Panic
      else Inr (True, m))"

definition Mutex_unlock :: "nat \<Rightarrow> mutex \<Rightarrow> mutex outcome" where
  "Mutex_unlock t m = (let (ret, m) = pthread_mutex_unlock t m in unless_minus_one ret m)"

lemmas mutex_defs = relock_def pthread_mutex_lock_def pthread_mutex_trylock_def
  pthread_mutex_unlock_def pthread_mutex_destroy_def unless_minus_one_def Mutex_def
  Mutex_destroy_def Mutex_lock_def Mutex_tryLock_def Mutex_unlock_def free_mutex_def error_numbers

section \<open>Semaphore\<close>

text \<open>
  \<open>sem_wait\<close> waits at zero and fails when a signal interrupts it; \<open>sem_post\<close> fails beyond
  \<open>SEM_VALUE_MAX\<close>.
\<close>

definition Semaphore :: "int \<Rightarrow> nat outcome" where
  "Semaphore ret = unless_minus_one ret 0"

definition Semaphore_give :: "nat \<Rightarrow> nat \<Rightarrow> nat outcome" where
  "Semaphore_give value_max n = unless_minus_one (if n < value_max then 0 else -1) (Suc n)"

definition Semaphore_take :: "bool \<Rightarrow> nat \<Rightarrow> nat outcome option" where
  "Semaphore_take interrupted n =
     (if interrupted then Some (unless_minus_one (-1) n)
      else case n of 0 \<Rightarrow> None | Suc k \<Rightarrow> Some (unless_minus_one 0 k))"

lemmas semaphore_defs = Semaphore_def Semaphore_give_def Semaphore_take_def unless_minus_one_def

section \<open>WorkerThread\<close>

text \<open>
  \<open>m_thread\<close> is zero before \<open>start\<close> and after \<open>wait\<close>.  \<open>pthread_create\<close> answers \<open>ret\<close> and leaves
  \<open>thread_id\<close> in the variable; \<open>result\<close> is what \<open>run\<close> returned, if it did, and \<open>ret\<close> the answer of
  \<open>pthread_join\<close>.
\<close>

definition WorkerThread :: nat where "WorkerThread = 0"

definition WorkerThread_start :: "int \<Rightarrow> nat \<Rightarrow> nat \<Rightarrow> nat outcome" where
  "WorkerThread_start ret thread_id m_thread =
     (if m_thread \<noteq> 0 then Inl Panic else unless_minus_one ret thread_id)"

definition WorkerThread_wait :: "int \<Rightarrow> 'r option \<Rightarrow> nat \<Rightarrow> ('r \<times> nat) outcome option" where
  "WorkerThread_wait ret result m_thread =
     (if m_thread = 0 then Some (Inl Panic)
      else map_option (\<lambda>r. unless_minus_one ret (r, 0)) result)"

definition WorkerThread_destroy :: "nat \<Rightarrow> unit outcome" where
  "WorkerThread_destroy m_thread = (if m_thread \<noteq> 0 then Inl Panic else Inr ())"

lemmas thread_defs = WorkerThread_def WorkerThread_start_def WorkerThread_wait_def
  WorkerThread_destroy_def unless_minus_one_def

section \<open>Sections under a mutex\<close>

text \<open>
  A mutex and how deep each thread believes itself to be in it, over the calls of the threads.
  \<open>tries\<close> allows \<open>tryLock\<close>: a thread that is told it has the mutex believes it.
\<close>

inductive mutex_step ::
    "nat \<Rightarrow> bool \<Rightarrow> mutex \<times> (nat \<Rightarrow> nat) \<Rightarrow> mutex \<times> (nat \<Rightarrow> nat) \<Rightarrow> bool"
  for limit tries
where
  locked: "Mutex_lock limit t m = Some (Inr m') \<Longrightarrow> held t < limit \<Longrightarrow>
    mutex_step limit tries (m, held) (m', held(t := Suc (held t)))"
| tried: "tries \<Longrightarrow> Mutex_tryLock errno limit t m = Inr (True, m') \<Longrightarrow> held t < limit \<Longrightarrow>
    mutex_step limit tries (m, held) (m', held(t := Suc (held t)))"
| unlocked: "0 < held t \<Longrightarrow> Mutex_unlock t m = Inr m' \<Longrightarrow>
    mutex_step limit tries (m, held) (m', held(t := held t - 1))"

inductive_cases mutex_stepE: "mutex_step limit tries (m, held) s'"

definition mutex_runs :: "nat \<Rightarrow> bool \<Rightarrow> mutex \<times> (nat \<Rightarrow> nat) \<Rightarrow> bool" where
  "mutex_runs limit tries = (mutex_step limit tries)\<^sup>*\<^sup>* (free_mutex, \<lambda>_. 0)"

text \<open>What the mutex knows of the threads.\<close>

definition mutex_inv :: "mutex \<times> (nat \<Rightarrow> nat) \<Rightarrow> bool" where
  "mutex_inv s \<longleftrightarrow> (case s of (m, held) \<Rightarrow>
     (case mx_owner m of
        None \<Rightarrow> held = (\<lambda>_. 0) \<and> mx_count m = 0
      | Some t \<Rightarrow> 0 < held t \<and> held = (\<lambda>_. 0)(t := mx_count m)))"

lemma mutex_inv_step:
  assumes "mutex_inv s" "mutex_step limit False s s'"
  shows "mutex_inv s'"
  using assms(2,1)
proof (cases rule: mutex_step.cases)
  case (locked t m m' held)
  with assms(1) show ?thesis
    by (cases "mx_owner m") (auto simp: mutex_inv_def mutex_defs fun_eq_iff split: if_splits)
next
  case (unlocked held t m m')
  with assms(1) show ?thesis
    by (cases "mx_owner m") (auto simp: mutex_inv_def mutex_defs fun_eq_iff split: if_splits)
qed simp

lemma mutex_inv_runs: "mutex_runs limit False s \<Longrightarrow> mutex_inv s"
  unfolding mutex_runs_def
proof (induction rule: rtranclp_induct)
  case base
  show ?case by (simp add: mutex_inv_def free_mutex_def)
qed (rule mutex_inv_step)

section \<open>The life of a thread object\<close>

datatype 'r thread_op = Start int nat | Wait int 'r

fun thread_run :: "'r thread_op list \<Rightarrow> nat \<Rightarrow> nat outcome" where
  "thread_run [] m_thread = Inr m_thread"
| "thread_run (Start ret thread_id # ops) m_thread =
     andThen (WorkerThread_start ret thread_id m_thread) (thread_run ops)"
| "thread_run (Wait ret result # ops) m_thread =
     (case WorkerThread_wait ret (Some result) m_thread of
        None \<Rightarrow> Inl Panic
      | Some r \<Rightarrow> andThen r (\<lambda>(result, m_thread). thread_run ops m_thread))"

text \<open>A thread is started and waited for in turn.\<close>

fun paired :: "'r thread_op list \<Rightarrow> bool" where
  "paired [] = True"
| "paired (Start ret thread_id # Wait ret' result # ops) = paired ops"
| "paired ops = False"

definition answers :: "'r thread_op \<Rightarrow> bool" where
  "answers p = (case p of Start ret thread_id \<Rightarrow> ret = 0 \<and> thread_id \<noteq> 0 | Wait ret result \<Rightarrow> ret = 0)"

text \<open>When the calls succeed, the object can be used and destroyed exactly in this discipline.\<close>

lemma thread_discipline:
  assumes "\<forall>p \<in> set ops. answers p"
  shows "andThen (thread_run ops WorkerThread) WorkerThread_destroy = Inr () \<longleftrightarrow> paired ops"
  using assms
  by (induction ops rule: paired.induct)
    (auto simp: answers_def thread_defs andThen_eq_Inr split: thread_op.splits)

section \<open>The semaphore of \<open>RIL::execute\<close>\<close>

text \<open>
  The steps of the whole system use the semaphore only through \<open>give\<close> and \<open>take\<close>, as long as its
  value stays below the maximum and no signal interrupts \<open>take\<close>.
\<close>

lemma ril_step_semaphore:
  assumes "ril_step abi p api serial c c'" "y_semaphore c < value_max"
  shows "y_semaphore c' = y_semaphore c
    \<or> Semaphore_give value_max (y_semaphore c) = Inr (y_semaphore c')
    \<or> Semaphore_take False (y_semaphore c) = Some (Inr (y_semaphore c'))"
  using assms by (cases rule: ril_step.cases) (auto simp: semaphore_defs dest: leave_threads)

section \<open>Properties\<close>

text \<open>Threads that only lock and unlock a mutex, at most as deep as it can be locked, exclude each
  other: no two of them are in a section at the same time.\<close>

theorem lock_excludes:
  assumes "mutex_runs limit False (m, held)" "0 < held t" "0 < held u"
  shows "t = u"
  using mutex_inv_runs [OF assms(1)] assms(2,3)
  by (auto simp: mutex_inv_def split: option.splits if_splits)

text \<open>\<open>tryLock\<close> tells every thread that it has the mutex, also while another thread has it: it looks for
  \<open>-1\<close> and \<open>errno\<close> where the call returns its error number.\<close>

theorem trylock_intrudes:
  assumes "mx_owner m = Some u" "u \<noteq> t"
  shows "Mutex_tryLock errno limit t m = Inr (True, m)"
  using assms by (simp add: mutex_defs)

lemma lock_excludes_witness:
  "mutex_runs 2 False (\<lparr>mx_owner = Some 7, mx_count = 1\<rparr>, (\<lambda>_. 0)(7 := 1))
    \<and> {u. 0 < ((\<lambda>_. 0 :: nat)(7 := 1)) u} = {7}"
proof -
  have "mutex_step 2 False (free_mutex, \<lambda>_. 0) (\<lparr>mx_owner = Some 7, mx_count = 1\<rparr>, (\<lambda>_. 0)(7 := Suc 0))"
    by (rule locked) (simp_all add: mutex_defs)
  then have run: "mutex_runs 2 False (\<lparr>mx_owner = Some 7, mx_count = 1\<rparr>, (\<lambda>_. 0)(7 := 1))"
    by (simp add: mutex_runs_def r_into_rtranclp)
  with lock_excludes [OF run, where u = 7] show ?thesis by (auto split: if_splits)
qed

text \<open>With \<open>tryLock\<close> two threads reach a section together.\<close>

lemma trylock_intrudes_witness:
  "\<exists>m held. mutex_runs 2 True (m, held) \<and> 0 < held 7 \<and> 0 < held (8 :: nat)"
proof -
  let ?m = "\<lparr>mx_owner = Some 7, mx_count = 1\<rparr>"
  have "mutex_step 2 True (free_mutex, \<lambda>_. 0) (?m, (\<lambda>_. 0)(7 := Suc 0))"
    by (rule locked) (simp_all add: mutex_defs)
  moreover have "Mutex_tryLock 0 2 8 ?m = Inr (True, ?m)"
    by (rule trylock_intrudes [where u = 7]) simp_all
  from tried [where held = "(\<lambda>_. 0)(7 := Suc 0)", OF TrueI this]
  have "mutex_step 2 True (?m, (\<lambda>_. 0)(7 := Suc 0)) (?m, (\<lambda>_. 0)(7 := Suc 0, 8 := Suc 0))"
    by simp
  ultimately have "mutex_runs 2 True (?m, (\<lambda>_. 0)(7 := Suc 0, 8 := Suc 0))"
    unfolding mutex_runs_def by (rule converse_rtranclp_into_rtranclp [OF _ r_into_rtranclp])
  then show ?thesis by (intro exI) auto
qed

end
