(* ===== verification/Host_Tools.thy ===== *)
theory Host_Tools
  imports Modem_Boot Worker_Thread RIL_Network
begin

text \<open>
  What the programs show to a person: the hex dump of libsamsung-ipc/Utilities.cpp, and the dump tool
  tools/dumpmodem/main.cpp with its progress bar.  ril/timeval.c, which measures how long a
  synchronous request took, is here as well.
\<close>

section \<open>Hex dump\<close>

definition dump_digit :: "nat \<Rightarrow> byte" where
  "dump_digit d = (if d < 10 then of_nat (48 + d) else of_nat (55 + d))"

text \<open>\<open>%0wX\<close> of a number of at most \<open>w\<close> digits.\<close>

fun hex :: "nat \<Rightarrow> nat \<Rightarrow> byte list" where
  "hex 0 n = []"
| "hex (Suc w) n = hex w (n div 16) @ [dump_digit (n mod 16)]"

text \<open>\<open>isprint\<close> in the C locale; \<open>char\<close> is unsigned on the target.\<close>

definition shown :: "byte \<Rightarrow> byte" where
  "shown b = (if 32 \<le> b \<and> b \<le> 126 then b else 46)"

definition dump_gap :: "nat \<Rightarrow> byte list" where
  "dump_gap i = (if i = 8 then [32] else [])"

definition dump_cell :: "byte list \<Rightarrow> nat \<Rightarrow> byte list" where
  "dump_cell bs i =
     dump_gap i @ (if i < length bs then hex 2 (unat (bs ! i)) @ [32] else [32, 32, 32])"

text \<open>What is written into \<open>line\<close> for a row, without the final zero.\<close>

definition dump_line :: "nat \<Rightarrow> byte list \<Rightarrow> byte list" where
  "dump_line row bs =
     hex 8 row @ [32, 32] @ concat (map (dump_cell bs) [0..<16]) @ [32, 124] @ map shown bs @ [124]"

function dump_rows :: "byte list \<Rightarrow> nat \<Rightarrow> byte list list" where
  "dump_rows data row =
     (if row < length data then dump_line row (take 16 (drop row data)) # dump_rows data (row + 16)
      else [])"
  by auto
termination by (relation "measure (\<lambda>(data, row). length data - row)") auto

declare dump_rows.simps [simp del]

text \<open>Writing beyond the 90 bytes of \<open>line\<close> would be undefined.\<close>

definition dump :: "byte list \<Rightarrow> byte list list outcome" where
  "dump data =
     (let rows = dump_rows data 0 in
      if \<forall>row \<in> set rows. length row + 1 \<le> 90 then Inr rows else Inl Undefined)"

section \<open>Reading a dump back\<close>

definition unhex :: "byte \<Rightarrow> nat" where
  "unhex c = (if c < 58 then unat c - 48 else unat c - 55)"

definition read_cell :: "byte list \<Rightarrow> nat \<Rightarrow> byte" where
  "read_cell row i =
     (let at = 10 + 3 * i + (if i < 8 then 0 else 1) in of_nat (16 * unhex (row ! at) + unhex (row ! (at + 1))))"

definition read_row :: "byte list \<Rightarrow> byte list" where
  "read_row row = map (read_cell row) [0..<length row - 62]"

lemma unhex_dump_digit: "d < 16 \<Longrightarrow> unhex (dump_digit d) = d"
proof -
  assume d: "d < 16"
  have "unat (of_nat (48 + d) :: byte) = 48 + d" "unat (of_nat (55 + d) :: byte) = 55 + d"
    using d by (simp_all only: unat_of_nat) (simp_all add: take_bit_nat_eq_self)
  with d show ?thesis
    by (auto simp: unhex_def dump_digit_def word_less_nat_alt simp del: of_nat_add)
qed

lemma length_hex [simp]: "length (hex w n) = w"
  by (induction w arbitrary: n) auto

lemma hex_2: "hex 2 n = [dump_digit (n div 16 mod 16), dump_digit (n mod 16)]"
  by (simp add: numeral_2_eq_2)

lemma hex_byte:
  "of_nat (16 * unhex (dump_digit (unat b div 16 mod 16)) + unhex (dump_digit (unat b mod 16))) = (b :: byte)"
proof -
  have "unat b < 256" using unsigned_less [of b] by simp
  then have "unat b div 16 mod 16 = unat b div 16" by (simp add: less_mult_imp_div_less)
  then show ?thesis
    by (simp add: unhex_dump_digit less_mult_imp_div_less)
qed

lemma length_dump_cell: "length (dump_cell bs i) = (if i = 8 then 4 else 3)"
  by (simp add: dump_cell_def dump_gap_def hex_2)

lemma length_dump_line: "length (dump_line row bs) = 62 + length bs"
  by (simp add: dump_line_def length_concat length_dump_cell comp_def upt_rec [of _ 16])

lemma cells_split:
  "i < 16 \<Longrightarrow> concat (map (dump_cell bs) [0..<16]) =
     concat (map (dump_cell bs) [0..<i]) @ dump_cell bs i @ concat (map (dump_cell bs) [Suc i..<16])"
  using upt_add_eq_append [of 0 i "16 - i"] upt_conv_Cons [of i 16] by simp

lemma length_cells:
  "length (concat (map (dump_cell bs) [0..<i])) = 3 * i + (if i \<le> 8 then 0 else 1)"
  by (induction i) (auto simp: length_dump_cell)

text \<open>The two digits of a byte stand in its column.\<close>

lemma dump_cell_at:
  assumes "i < length bs" "length bs \<le> 16" "j < 2"
  shows "dump_line row bs ! (10 + (3 * i + (if i < 8 then 0 else 1)) + j) = hex 2 (unat (bs ! i)) ! j"
proof -
  let ?left = "hex 8 row @ [32, 32] @ concat (map (dump_cell bs) [0..<i])"
  let ?right = "concat (map (dump_cell bs) [Suc i..<16]) @ [32, 124] @ map shown bs @ [124]"
  have "dump_line row bs = ?left @ (dump_cell bs i @ ?right)"
    unfolding dump_line_def using assms by (subst cells_split [of i]) (linarith, simp only: append_assoc)
  moreover have "10 + (3 * i + (if i < 8 then 0 else 1)) + j = length ?left + (length (dump_gap i) + j)"
    unfolding length_append length_cells by (simp add: dump_gap_def)
  moreover have "(dump_cell bs i @ xs) ! (length (dump_gap i) + j) = hex 2 (unat (bs ! i)) ! j" for xs
    using assms by (simp add: dump_cell_def nth_append)
  ultimately show ?thesis
    by (simp only: nth_append_length_plus)
qed

lemma read_dump_cell:
  assumes "i < length bs" "length bs \<le> 16"
  shows "read_cell (dump_line row bs) i = bs ! i"
  using dump_cell_at [OF assms, of 0 row] dump_cell_at [OF assms, of 1 row]
  by (simp add: read_cell_def Let_def hex_2 hex_byte [simplified] add.assoc)

lemma read_dump_line: "length bs \<le> 16 \<Longrightarrow> read_row (dump_line row bs) = bs"
  by (rule nth_equalityI) (auto simp: read_row_def length_dump_line read_dump_cell)

lemma dump_rows_read: "concat (map read_row (dump_rows data row)) = drop row data"
proof (induction data row rule: dump_rows.induct)
  case (1 data row)
  show ?case
  proof (cases "row < length data")
    case True
    with 1 show ?thesis
      by (simp add: dump_rows.simps [of data row] read_dump_line)
        (metis append_take_drop_id drop_drop add.commute)
  qed (simp add: dump_rows.simps [of data row])
qed

lemma dump_rows_short: "r \<in> set (dump_rows data row) \<Longrightarrow> length r \<le> 78"
  by (induction data row rule: dump_rows.induct)
    (subst (asm) (2) dump_rows.simps, auto simp: length_dump_line split: if_splits)


section \<open>Progress bar\<close>

text \<open>The width of the bar, 0 when nothing is shown, and the progress that was drawn last.\<close>

record progress_bar =
  bar_max :: u32
  bar_prev :: u32

text \<open>\<open>columns\<close> is the width of the terminal, if standard output is one and tells it.\<close>

definition ConsoleProgressCallback :: "u16 option \<Rightarrow> progress_bar" where
  "ConsoleProgressCallback columns =
     \<lparr>bar_max = (case columns of None \<Rightarrow> 0 | Some n \<Rightarrow> if n \<le> 6 then 80 - 6 else ucast n - 6), bar_prev = - 1\<rparr>"

definition format_d :: "int \<Rightarrow> byte list" where
  "format_d i = (if i < 0 then 45 # format_u (nat (- i)) else format_u (nat i))"

definition pad_left :: "nat \<Rightarrow> byte list \<Rightarrow> byte list" where
  "pad_left w s = replicate (w - length s) 32 @ s"

definition bar_drawn :: "u32 \<Rightarrow> u32 \<Rightarrow> u32 \<Rightarrow> byte list" where
  "bar_drawn width done_columns percent =
     [13, 124] @ replicate (unat done_columns) 61 @ replicate (unat width - unat done_columns) 32 @
     [124] @ pad_left 3 (format_d (sint percent)) @ [37]"

text \<open>\<open>size_t\<close> and \<open>unsigned int\<close> have 32 bits; dividing by zero is undefined.\<close>

definition progress :: "u32 \<Rightarrow> u32 \<Rightarrow> progress_bar \<Rightarrow> (byte list \<times> progress_bar) outcome" where
  "progress amount whole c =
     (if bar_max c = 0 then Inr ([], c)
      else if whole = 0 then Inl Undefined
      else let columns = amount * bar_max c div whole; percent = amount * 100 div whole in
        if columns = bar_prev c then Inr ([], c)
        else Inr (bar_drawn (bar_max c) columns percent, c\<lparr>bar_prev := columns\<rparr>))"

text \<open>The destructor blanks the line.\<close>

definition bar_erased :: "progress_bar \<Rightarrow> byte list" where
  "bar_erased c =
     (if bar_max c = 0 then [] else [13] @ replicate (unat (bar_max c + 6)) 32 @ [13])"

lemma unat_scaled:
  fixes amount k whole :: u32
  assumes "unat amount * unat k < 2 ^ 32"
  shows "unat (amount * k div whole) = unat amount * unat k div unat whole"
  using assms by (simp add: unat_div_distrib unat_word_ariths)

lemma format_u_small:
  assumes "n \<le> 100"
  shows "length (format_u n) \<in> {1, 2, 3}"
proof -
  consider "n < 10" | "10 \<le> n" "n div 10 < 10" | "n = 100" using assms by linarith
  then show ?thesis
    by cases (simp_all add: format_u.simps [of n] format_u.simps [of "n div 10"]
        format_u.simps [of 100] format_u.simps [of 10] format_u.simps [of "Suc 0"])
qed

lemma bar_fits:
  assumes "unat columns \<le> unat width" "unat percent \<le> 100"
  shows "length (bar_drawn width columns percent) = unat width + 7"
proof -
  have "uint percent = int (unat percent)" by simp
  with assms(2) have "0 \<le> uint percent" "uint percent < 2147483648" by linarith+
  then have "sint percent = uint percent"
    unfolding sint_uint by (intro signed_take_bit_int_eq_self) (simp_all add: order_trans [of _ 0])
  then have "sint percent = int (unat percent)" by simp
  then have "length (pad_left 3 (format_d (sint percent))) = 3"
    using format_u_small [OF assms(2)] by (auto simp: pad_left_def format_d_def)
  with assms(1) show ?thesis by (simp add: bar_drawn_def)
qed

section \<open>The dump tool\<close>

datatype tool_effect = Usage | Stream_open string | Failure_message | Stream_close | Dumped string

text \<open>What \<open>getopt\<close> answers: \<open>-o\<close> with its argument, or an error.\<close>

datatype tool_option = Output string | Bad_option

fun output_of :: "tool_option list \<Rightarrow> string \<Rightarrow> string option" where
  "output_of [] name = Some name"
| "output_of (Output name # rest) old = output_of rest name"
| "output_of (Bad_option # rest) old = None"

text \<open>
  The body of \<open>main\<close>: its exit status and what it did.  \<open>opened\<close> tells whether the stream was opened.
  On leaving, \<open>main\<close> destroys the modem object, on which \<open>initialize\<close> was never called.
\<close>

definition dumpmodem ::
    "tool_option list \<Rightarrow> bool \<Rightarrow> link \<Rightarrow> 'f fs_ops \<Rightarrow> 'f \<Rightarrow> (nat \<times> tool_effect list) outcome option"
where
  "dumpmodem options opened l ops f =
     (case output_of options ''dump.bin'' of
        None \<Rightarrow> Some (Inr (1, [Usage]))
      | Some name \<Rightarrow>
          if \<not> opened then Some (Inl Panic)
          else case modem_dump l ops True \<lparr>b_calls = [], b_fs = f\<rparr> of
              None \<Rightarrow> None
            | Some (Inl e) \<Rightarrow> Some (Inl e)
            | Some (Inr (dumped, st)) \<Rightarrow>
                if dumped then Some (Inr (1, [Stream_open name, Failure_message, Stream_close]))
                else Some (Inr (0, [Stream_open name, Stream_close, Dumped name])))"

section \<open>Time differences\<close>

record timeval =
  tv_sec :: int
  tv_usec :: int

text \<open>
  The difference, the second time as it is left, and the result.  Times of a clock do not leave the
  range of the fields; the divisions are of positive numbers.
\<close>

definition timeval_subtract :: "timeval \<Rightarrow> timeval \<Rightarrow> timeval \<times> timeval \<times> bool" where
  "timeval_subtract x y =
     (let y = (if tv_usec x < tv_usec y
               then let nsec = (tv_usec y - tv_usec x) div 1000000 + 1
                    in \<lparr>tv_sec = tv_sec y + nsec, tv_usec = tv_usec y - 1000000 * nsec\<rparr>
               else y);
          y = (if tv_usec x - tv_usec y > 1000000
               then let nsec = (tv_usec x - tv_usec y) div 1000000
                    in \<lparr>tv_sec = tv_sec y - nsec, tv_usec = tv_usec y + 1000000 * nsec\<rparr>
               else y)
      in (\<lparr>tv_sec = tv_sec x - tv_sec y, tv_usec = tv_usec x - tv_usec y\<rparr>, y, tv_sec x < tv_sec y))"

definition microseconds :: "timeval \<Rightarrow> int" where
  "microseconds t = 1000000 * tv_sec t + tv_usec t"


lemma microseconds_kept:
  "timeval_subtract x y = (r, y', negative) \<Longrightarrow>
     microseconds y' = microseconds y \<and> microseconds r = microseconds x - microseconds y"
  by (auto simp: timeval_subtract_def microseconds_def Let_def algebra_simps)

section \<open>Properties\<close>

text \<open>A hex dump never leaves its line buffer, and reading the columns of its rows gives back the bytes
  that were dumped.\<close>

theorem dump_reads_back:
  "dump data = Inr (dump_rows data 0) \<and> concat (map read_row (dump_rows data 0)) = data"
proof -
  have "length row + 1 \<le> 90" if "row \<in> set (dump_rows data 0)" for row
    using dump_rows_short [OF that] by simp
  then show ?thesis by (simp add: dump_def dump_rows_read)
qed

text \<open>A report of the progress within the whole draws a line that fills the terminal exactly, as long as
  the scaled amounts fit into 32 bits; nothing is undefined.\<close>

theorem progress_fits:
  assumes "0 < whole" "amount \<le> whole" "unat amount * unat (bar_max c) < 2 ^ 32"
    and "unat amount * 100 < 2 ^ 32"
  shows "\<exists>drawn c'. progress amount whole c = Inr (drawn, c') \<and> bar_max c' = bar_max c \<and>
    (drawn = [] \<or> length drawn = unat (bar_max c) + 7)"
proof -
  have "unat amount \<le> unat whole" "0 < unat whole"
    using assms(1,2) by (simp_all add: word_le_nat_alt word_less_nat_alt)
  then have le: "unat amount * k div unat whole \<le> k" for k
    by (metis div_le_mono mult_le_mono1 nonzero_mult_div_cancel_left not_gr_zero)
  have "unat (amount * bar_max c div whole) \<le> unat (bar_max c)"
    using unat_scaled [OF assms(3), of whole] le by simp
  moreover have "unat (amount * 100 div whole) \<le> 100"
    using unat_scaled [of amount 100 whole] assms(4) le [of 100] by simp
  ultimately show ?thesis
    using assms(1) by (auto simp: progress_def Let_def bar_fits)
qed

text \<open>The dump tool takes the answer of \<open>dump\<close> for a failure code: it reports a failure and exits with 1
  when the modem was dumped, and exits with 0 when it was not.\<close>

theorem dumpmodem_inverted:
  assumes "modem_dump l ops True \<lparr>b_calls = [], b_fs = f\<rparr> = Some (Inr (dumped, st))"
    and "output_of options ''dump.bin'' = Some name"
  shows "dumpmodem options True l ops f =
    Some (Inr (if dumped then (1, [Stream_open name, Failure_message, Stream_close])
               else (0, [Stream_open name, Stream_close, Dumped name])))"
  using assms by (simp add: dumpmodem_def)

text \<open>The difference of two times is exact, and between times with microseconds in their range the
  result is again such a time and the flag tells whether it is negative.\<close>

theorem time_difference:
  assumes "0 \<le> tv_usec x" "tv_usec x < 1000000" "0 \<le> tv_usec y" "tv_usec y < 1000000"
    and "timeval_subtract x y = (r, y', negative)"
  shows "microseconds r = microseconds x - microseconds y \<and> 0 \<le> tv_usec r \<and> tv_usec r < 1000000
    \<and> negative = (microseconds r < 0)"
proof -
  have "(tv_usec y - tv_usec x) div 1000000 = 0" if "tv_usec x < tv_usec y"
    using that assms(1-4) by (intro div_pos_pos_trivial) auto
  then have "0 \<le> tv_usec r" "tv_usec r < 1000000" "negative = (tv_sec r < 0)"
    using assms by (auto simp: timeval_subtract_def Let_def split: if_splits)
  with microseconds_kept [OF assms(5)] show ?thesis
    by (auto simp: microseconds_def)
qed

lemma progress_fits_witness:
  "\<exists>drawn c. progress 1600 3200 (ConsoleProgressCallback (Some 80)) = Inr (drawn, c) \<and> length drawn = 81"
proof -
  have width: "bar_max (ConsoleProgressCallback (Some 80)) = 74" by (simp add: ConsoleProgressCallback_def)
  obtain drawn c where "progress 1600 3200 (ConsoleProgressCallback (Some 80)) = Inr (drawn, c)"
    "drawn = [] \<or> length drawn = 81"
    using progress_fits [of 3200 1600 "ConsoleProgressCallback (Some 80)"] width by auto
  moreover from this have "drawn \<noteq> []"
    by (auto simp: progress_def ConsoleProgressCallback_def Let_def bar_drawn_def split: if_splits)
  ultimately show ?thesis by blast
qed

lemma dumpmodem_inverted_witness:
  "dumpmodem [Output ''ram''] True (good_link\<lparr>l_recv := \<lambda>h c. Some []\<rparr>) small_ops calm_state =
    Some (Inr (0, [Stream_open ''ram'', Stream_close, Dumped ''ram'']))"
proof -
  obtain st where st: "modem_dump (good_link\<lparr>l_recv := \<lambda>h c. Some []\<rparr>) small_ops True \<lparr>b_calls = [], b_fs = calm_state\<rparr>
      = Some (Inr (False, st))"
    by (simp add: modem_dump_def sendPSI_def load_firmware_def small_ops_def with_fs_def unless_failed_def
        note_step_def succeed_def continue_def send_step_def socket_send_def good_link_def expect_byte_def
        socket_recv_def fail_def)
  from dumpmodem_inverted [OF st, of "[Output ''ram'']" "''ram''"] show ?thesis by simp
qed

lemma time_difference_witness:
  "\<exists>r y'. timeval_subtract \<lparr>tv_sec = 2, tv_usec = 1\<rparr> \<lparr>tv_sec = 1, tv_usec = 500000\<rparr> = (r, y', False)
    \<and> microseconds r = 500001"
proof -
  obtain r y' n where s: "timeval_subtract \<lparr>tv_sec = 2, tv_usec = 1\<rparr> \<lparr>tv_sec = 1, tv_usec = 500000\<rparr> = (r, y', n)"
    by (cases "timeval_subtract \<lparr>tv_sec = 2, tv_usec = 1\<rparr> \<lparr>tv_sec = 1, tv_usec = 500000\<rparr>") auto
  from time_difference [OF _ _ _ _ this] s show ?thesis by (simp add: microseconds_def)
qed

end
