(* ===== verification/Logging.thy ===== *)
theory Logging
  imports Host_Tools
begin

text \<open>
  The logger of libsamsung-ipc: Log.h and Log.cpp with the set of sinks every message goes to,
  LogSink.cpp, the sink that writes to the standard output (StdoutLogSink.cpp) and the one that
  writes to Android's log (ril/AndroidLogSink.cpp).  A message is formatted by C's
  \<open>vasprintf\<close>; the conversions the program uses are modelled here, with the calls C leaves
  undefined (a missing argument, one of another type, a null string) as values.
\<close>

section \<open>Levels\<close>

datatype log_level = Debug | Info | Warning | Error

text \<open>The value of the enumerator; the levels are ordered by it.\<close>

definition level_value :: "log_level \<Rightarrow> nat" where
  "level_value l = (case l of Debug \<Rightarrow> 0 | Info \<Rightarrow> 1 | Warning \<Rightarrow> 2 | Error \<Rightarrow> 3)"

lemma level_value_inject [simp]: "level_value a = level_value b \<longleftrightarrow> a = b"
  by (cases a; cases b) (simp_all add: level_value_def)

instantiation log_level :: linorder
begin

definition less_eq_log_level :: "log_level \<Rightarrow> log_level \<Rightarrow> bool" where
  "less_eq_log_level a b \<longleftrightarrow> level_value a \<le> level_value b"

definition less_log_level :: "log_level \<Rightarrow> log_level \<Rightarrow> bool" where
  "less_log_level a b \<longleftrightarrow> level_value a < level_value b"

instance
  by standard (auto simp: less_eq_log_level_def less_log_level_def)

end

section \<open>Formats\<close>

datatype length_modifier = Plain | Short | Char

datatype conversion = Conv_d | Conv_u | Conv_X | Conv_c | Conv_s

text \<open>A conversion \<open>%0w..\<close>, or a byte that is copied (also for \<open>%%\<close>).\<close>

datatype directive = Copy byte | Convert bool nat length_modifier conversion

text \<open>
  What can be passed through the \<open>...\<close> of a call on the 32-bit target: what C promotes to
  \<open>int\<close> or \<open>unsigned\<close>, a 64-bit integer, a pointer to a string up to its NUL, and the null pointer.
\<close>

datatype log_arg = Int_arg u32 | Wide_arg "64 word" | String_arg "byte list" | Null_arg

definition is_digit :: "byte \<Rightarrow> bool" where
  "is_digit b \<longleftrightarrow> 48 \<le> b \<and> b \<le> 57"

definition parse_width :: "byte list \<Rightarrow> nat" where
  "parse_width s = foldl (\<lambda>n b. 10 * n + (unat b - 48)) 0 (takeWhile is_digit s)"

fun parse_length :: "byte list \<Rightarrow> length_modifier \<times> byte list" where
  "parse_length (a # s) =
     (if a = 104 then
        (case s of b # s' \<Rightarrow> (if b = 104 then (Char, s') else (Short, s)) | [] \<Rightarrow> (Short, s))
      else (Plain, a # s))"
| "parse_length [] = (Plain, [])"

definition parse_conversion :: "byte \<Rightarrow> conversion option" where
  "parse_conversion b =
     (if b = 100 then Some Conv_d else if b = 117 then Some Conv_u else if b = 88 then Some Conv_X
      else if b = 99 then Some Conv_c else if b = 115 then Some Conv_s else None)"

text \<open>
  What follows a \<open>%\<close>: a zero flag, a width, a length modifier and the conversion.  \<open>None\<close> stands
  for the formats beyond these, none of which the program has.
\<close>

definition parse_directive :: "byte list \<Rightarrow> (directive \<times> byte list) option" where
  "parse_directive s =
     (let zero = (s \<noteq> [] \<and> hd s = 48);
          r = (if zero then tl s else s);
          width = parse_width r;
          (lm, r) = parse_length (dropWhile is_digit r)
      in case r of
           [] \<Rightarrow> None
         | c # r \<Rightarrow>
             (if c = 37 then (if s = c # r then Some (Copy 37, r) else None)
              else map_option (\<lambda>conv. (Convert zero width lm conv, r)) (parse_conversion c)))"

lemma parse_length_shrinks: "parse_length s = (lm, r) \<Longrightarrow> length r \<le> length s"
  by (induction s rule: parse_length.induct) (auto split: if_splits list.splits)

lemma parse_directive_shrinks: "parse_directive s = Some (d, r) \<Longrightarrow> length r < length s"
proof -
  assume a: "parse_directive s = Some (d, r)"
  define s' where "s' = (if s \<noteq> [] \<and> hd s = 48 then tl s else s)"
  obtain lm t where t: "parse_length (dropWhile is_digit s') = (lm, t)" by fastforce
  from a t have "length r < length t"
    by (auto simp: parse_directive_def Let_def s'_def split: list.splits if_splits)
  also have "length t \<le> length s'"
    using parse_length_shrinks [OF t] length_dropWhile_le [of is_digit s'] by simp
  also have "length s' \<le> length s" by (simp add: s'_def)
  finally show ?thesis .
qed

function parse_format :: "byte list \<Rightarrow> directive list option" where
  "parse_format [] = Some []"
| "parse_format (b # s) =
     (if b = 37 then
        (case parse_directive s of None \<Rightarrow> None
         | Some (d, r) \<Rightarrow> map_option (Cons d) (parse_format r))
      else map_option (Cons (Copy b)) (parse_format s))"
  by pat_completeness auto
termination
  by (relation "measure length") (auto dest: parse_directive_shrinks)

section \<open>Formatting\<close>

fun format_X :: "nat \<Rightarrow> byte list" where
  "format_X n = (if n < 16 then [dump_digit n] else format_X (n div 16) @ [dump_digit (n mod 16)])"

declare format_X.simps [simp del]

definition pad :: "byte \<Rightarrow> nat \<Rightarrow> byte list \<Rightarrow> byte list" where
  "pad c width s = replicate (width - length s) c @ s"

text \<open>The argument converted to the type of the length modifier.\<close>

definition narrow :: "length_modifier \<Rightarrow> u32 \<Rightarrow> nat" where
  "narrow lm w = (case lm of Plain \<Rightarrow> unat w | Short \<Rightarrow> unat (ucast w :: u16) | Char \<Rightarrow> unat (ucast w :: byte))"

definition narrow_signed :: "length_modifier \<Rightarrow> u32 \<Rightarrow> int" where
  "narrow_signed lm w =
     (case lm of Plain \<Rightarrow> sint w | Short \<Rightarrow> sint (ucast w :: u16) | Char \<Rightarrow> sint (ucast w :: byte))"

text \<open>A number with its sign, filled with zeros behind the sign or with blanks before it.\<close>

definition pad_signed :: "bool \<Rightarrow> nat \<Rightarrow> int \<Rightarrow> byte list" where
  "pad_signed zero width i =
     (let minus = (if i < 0 then [45] else []); digits = format_u (nat \<bar>i\<bar>) in
      if zero then minus @ pad 48 (width - length minus) digits else pad 32 width (minus @ digits))"

definition convert_int :: "bool \<Rightarrow> nat \<Rightarrow> length_modifier \<Rightarrow> conversion \<Rightarrow> u32 \<Rightarrow> byte list" where
  "convert_int zero width lm conv w =
     (let fill = (if zero then 48 else 32) in
      case conv of
        Conv_d \<Rightarrow> pad_signed zero width (narrow_signed lm w)
      | Conv_u \<Rightarrow> pad fill width (format_u (narrow lm w))
      | Conv_X \<Rightarrow> pad fill width (format_X (narrow lm w))
      | _ \<Rightarrow> pad 32 width [ucast w])"

text \<open>
  An argument fits a conversion when C defines the result: an \<open>int\<close> for a number or a
  character, a string for \<open>%s\<close>; the zero flag and the length modifiers go with numbers only.
\<close>

fun fits :: "directive \<Rightarrow> log_arg \<Rightarrow> bool" where
  "fits (Convert zero width lm conv) (Int_arg w) \<longleftrightarrow>
     conv \<noteq> Conv_s \<and> (conv = Conv_c \<longrightarrow> \<not> zero \<and> lm = Plain)"
| "fits (Convert zero width lm conv) (String_arg s) \<longleftrightarrow> conv = Conv_s \<and> \<not> zero \<and> lm = Plain"
| "fits _ _ \<longleftrightarrow> False"

fun convert :: "directive \<Rightarrow> log_arg \<Rightarrow> byte list" where
  "convert (Convert zero width lm conv) (Int_arg w) = convert_int zero width lm conv w"
| "convert (Convert zero width lm conv) (String_arg s) = pad 32 width (c_str s)"
| "convert _ _ = []"

text \<open>The arguments beyond the last conversion are ignored.\<close>

fun format_text :: "directive list \<Rightarrow> log_arg list \<Rightarrow> byte list outcome" where
  "format_text [] args = Inr []"
| "format_text (Copy b # ds) args = andThen (format_text ds args) (\<lambda>s. Inr (b # s))"
| "format_text (Convert zero width lm conv # ds) [] = Inl Undefined"
| "format_text (Convert zero width lm conv # ds) (a # args) =
     (if fits (Convert zero width lm conv) a then
        andThen (format_text ds args) (\<lambda>s. Inr (convert (Convert zero width lm conv) a @ s))
      else Inl Undefined)"

text \<open>
  \<open>vasprintf\<close> gives the length of the text, and -1 when there is no memory for it: \<open>memory\<close>
  says for which lengths there is.  \<open>stdlog_generic\<close> makes a string of \<open>size\<close> bytes without
  looking at the result: of a null or indeterminate pointer and the length \<open>SIZE_MAX\<close> when it failed.
\<close>

definition vasprintf :: "(nat \<Rightarrow> bool) \<Rightarrow> byte list \<Rightarrow> log_arg list \<Rightarrow> byte list option outcome" where
  "vasprintf memory fmt args =
     (case parse_format fmt of
        None \<Rightarrow> Inl Undefined
      | Some ds \<Rightarrow> andThen (format_text ds args) (\<lambda>s. Inr (if memory (length s) then Some s else None)))"

section \<open>Sinks\<close>

datatype sink = Stdout_sink | Android_sink

text \<open>
  \<open>sink_list\<close> is \<open>m_sinkList\<close>, an ordered set of pointers and so sorted by address; \<open>objects\<close>
  the live sinks with their classes; \<open>stdout_text\<close> what has been written to the standard output
  and \<open>android_log\<close> what went to Android's log, both oldest first.
\<close>

record log_state =
  sink_list :: "u32 list"
  objects :: "u32 \<Rightarrow> sink option"
  stdout_text :: "byte list"
  android_log :: "(log_level \<times> byte list) list"

definition log_started :: log_state where
  "log_started = \<lparr>sink_list = [], objects = (\<lambda>_. None), stdout_text = [], android_log = []\<rparr>"

definition registerSink :: "u32 \<Rightarrow> log_state \<Rightarrow> log_state" where
  "registerSink sink st = st\<lparr>sink_list := insort_insert sink (sink_list st)\<rparr>"

text \<open>\<open>erase\<close> of the iterator that \<open>find\<close> gives: the end of the set when the sink is not in it.\<close>

definition unregisterSink :: "u32 \<Rightarrow> log_state \<Rightarrow> log_state outcome" where
  "unregisterSink sink st =
     (if sink \<in> set (sink_list st) then Inr (st\<lparr>sink_list := remove1 sink (sink_list st)\<rparr>)
      else Inl Undefined)"

text \<open>A sink is made at an address, where the base class registers it, and destroyed.\<close>

definition LogSink_new :: "sink \<Rightarrow> u32 \<Rightarrow> log_state \<Rightarrow> log_state" where
  "LogSink_new kind a st = (registerSink a st)\<lparr>objects := (objects st)(a \<mapsto> kind)\<rparr>"

definition LogSink_delete :: "u32 \<Rightarrow> log_state \<Rightarrow> log_state outcome" where
  "LogSink_delete a st =
     andThen (unregisterSink a st) (\<lambda>st. Inr (st\<lparr>objects := (objects st)(a := None)\<rparr>))"

definition level_prefix :: "log_level \<Rightarrow> byte list" where
  "level_prefix level =
     (case level of Debug \<Rightarrow> lit ''debug '' | Info \<Rightarrow> lit ''info '' | Warning \<Rightarrow> lit ''warning ''
      | Error \<Rightarrow> lit ''error '')"

definition StdoutLogSink_print :: "log_level \<Rightarrow> byte list \<Rightarrow> log_state \<Rightarrow> log_state" where
  "StdoutLogSink_print level msg st =
     st\<lparr>stdout_text := stdout_text st @ level_prefix level @ c_str msg @ [10]\<rparr>"

definition AndroidLogSink_print :: "log_level \<Rightarrow> byte list \<Rightarrow> log_state \<Rightarrow> log_state" where
  "AndroidLogSink_print level msg st = st\<lparr>android_log := android_log st @ [(level, c_str msg)]\<rparr>"

text \<open>The virtual \<open>print\<close>; undefined on a sink that is gone.\<close>

definition sink_print :: "log_level \<Rightarrow> byte list \<Rightarrow> u32 \<Rightarrow> log_state \<Rightarrow> log_state outcome" where
  "sink_print level msg a st =
     (case objects st a of
        None \<Rightarrow> Inl Undefined
      | Some Stdout_sink \<Rightarrow> Inr (StdoutLogSink_print level msg st)
      | Some Android_sink \<Rightarrow> Inr (AndroidLogSink_print level msg st))"

fun deliver_to :: "log_level \<Rightarrow> byte list \<Rightarrow> u32 list \<Rightarrow> log_state \<Rightarrow> log_state outcome" where
  "deliver_to level msg [] st = Inr st"
| "deliver_to level msg (a # as) st = andThen (sink_print level msg a st) (deliver_to level msg as)"

definition log_deliver :: "log_level \<Rightarrow> byte list \<Rightarrow> log_state \<Rightarrow> log_state outcome" where
  "log_deliver level msg st = deliver_to level msg (sink_list st) st"

definition stdlog_generic :: "(nat \<Rightarrow> bool) \<Rightarrow> log_level \<Rightarrow> byte list \<Rightarrow> log_arg list \<Rightarrow> log_state \<Rightarrow> log_state outcome" where
  "stdlog_generic memory level fmt args st =
     andThen (vasprintf memory fmt args) (\<lambda>r.
       case r of None \<Rightarrow> Inl Undefined | Some s \<Rightarrow> log_deliver level s st)"

definition Log_debug :: "(nat \<Rightarrow> bool) \<Rightarrow> byte list \<Rightarrow> log_arg list \<Rightarrow> log_state \<Rightarrow> log_state outcome" where
  "Log_debug memory fmt args st = stdlog_generic memory Debug fmt args st"

definition Log_info :: "(nat \<Rightarrow> bool) \<Rightarrow> byte list \<Rightarrow> log_arg list \<Rightarrow> log_state \<Rightarrow> log_state outcome" where
  "Log_info memory fmt args st = stdlog_generic memory Info fmt args st"

definition Log_warning :: "(nat \<Rightarrow> bool) \<Rightarrow> byte list \<Rightarrow> log_arg list \<Rightarrow> log_state \<Rightarrow> log_state outcome" where
  "Log_warning memory fmt args st = stdlog_generic memory Warning fmt args st"

definition Log_error :: "(nat \<Rightarrow> bool) \<Rightarrow> byte list \<Rightarrow> log_arg list \<Rightarrow> log_state \<Rightarrow> log_state outcome" where
  "Log_error memory fmt args st = stdlog_generic memory Error fmt args st"

text \<open>
  \<open>panic\<close> never returns: what is left is how it ended and what the sinks have been given,
  unless a message could not be delivered.
\<close>

definition Log_panic :: "(nat \<Rightarrow> bool) \<Rightarrow> byte list \<Rightarrow> log_arg list \<Rightarrow> log_state \<Rightarrow> fault \<times> log_state" where
  "Log_panic memory fmt args st =
     (case Log_error memory (lit ''Radio in panic:'') [] st of
        Inl f \<Rightarrow> (f, st)
      | Inr st \<Rightarrow>
          (case stdlog_generic memory Error fmt args st of Inl f \<Rightarrow> (f, st) | Inr st \<Rightarrow> (Panic, st)))"

definition Log_panicErrno :: "(nat \<Rightarrow> bool) \<Rightarrow> byte list \<Rightarrow> byte list \<Rightarrow> log_state \<Rightarrow> fault \<times> log_state" where
  "Log_panicErrno memory strerror what st =
     Log_panic memory (lit ''%s: %s'') [String_arg what, String_arg strerror] st"

section \<open>Typing of the formats\<close>

primrec is_convert :: "directive \<Rightarrow> bool" where
  "is_convert (Copy b) \<longleftrightarrow> False"
| "is_convert (Convert zero width lm conv) \<longleftrightarrow> True"

text \<open>A call is typed when there is a fitting argument for every conversion, in order.\<close>

definition typed :: "directive list \<Rightarrow> log_arg list \<Rightarrow> bool" where
  "typed ds args \<longleftrightarrow>
     (let cs = filter is_convert ds in list_all2 fits cs (take (length cs) args))"

definition typed_call :: "byte list \<Rightarrow> log_arg list \<Rightarrow> bool" where
  "typed_call fmt args \<longleftrightarrow> (case parse_format fmt of None \<Rightarrow> False | Some ds \<Rightarrow> typed ds args)"

lemma typed_simps [simp]:
  "typed [] args"
  "typed (Copy b # ds) args \<longleftrightarrow> typed ds args"
  "\<not> typed (Convert zero width lm conv # ds) []"
  "typed (Convert zero width lm conv # ds) (a # args) \<longleftrightarrow>
     fits (Convert zero width lm conv) a \<and> typed ds args"
  by (simp_all add: typed_def Let_def)

text \<open>The text of a typed call: the copied bytes and the converted arguments in order.\<close>

fun rendered :: "directive list \<Rightarrow> log_arg list \<Rightarrow> byte list" where
  "rendered [] args = []"
| "rendered (Copy b # ds) args = b # rendered ds args"
| "rendered (d # ds) (a # args) = convert d a @ rendered ds args"
| "rendered (d # ds) [] = rendered ds []"

lemma format_text_eq:
  "format_text ds args = (if typed ds args then Inr (rendered ds args) else Inl Undefined)"
  by (induction ds args rule: format_text.induct) simp_all

text \<open>A number printed with \<open>%0wX\<close> has its \<open>w\<close> digits when it fits in them.\<close>

lemma length_format_X: "n < 16 ^ Suc w \<Longrightarrow> length (format_X n) \<le> Suc w"
proof (induction w arbitrary: n)
  case 0
  then show ?case by (simp add: format_X.simps [of n])
next
  case (Suc w)
  then have "n div 16 < 16 ^ Suc w" by (simp add: div_less_iff_less_mult mult.commute)
  with Suc.IH show ?case by (subst format_X.simps) simp
qed

lemma hex_zero: "hex w 0 = replicate w 48"
  by (induction w) (simp_all add: dump_digit_def replicate_append_same)

lemma pad_format_X: "n < 16 ^ Suc w \<Longrightarrow> pad 48 (Suc w) (format_X n) = hex (Suc w) n"
proof (induction w arbitrary: n)
  case 0
  then show ?case by (simp add: format_X.simps [of n] pad_def)
next
  case (Suc w)
  then have n: "n div 16 < 16 ^ Suc w" by (simp add: div_less_iff_less_mult mult.commute)
  show ?case
  proof (cases "n < 16")
    case True
    then show ?thesis
      by (simp add: format_X.simps [of n] pad_def hex_zero replicate_append_same del: replicate_Suc
          flip: replicate_Suc append_assoc)
  next
    case False
    have "pad 48 (Suc (Suc w)) (format_X n) = pad 48 (Suc w) (format_X (n div 16)) @ [dump_digit (n mod 16)]"
      using False by (subst format_X.simps) (simp add: pad_def)
    then show ?thesis using Suc.IH [OF n] by simp
  qed
qed

lemma narrow_bounds:
  "narrow Char w < 16 ^ 2" "narrow Short w < 16 ^ 4" "narrow Plain w < 16 ^ 8"
  using unsigned_less [where 'a = nat, of "ucast w :: byte"]
    unsigned_less [where 'a = nat, of "ucast w :: u16"] unsigned_less [where 'a = nat, of w]
  by (simp_all add: narrow_def)

lemma widened [simp]:
  "ucast (ucast b :: u32) = (b :: byte)" "ucast (ucast h :: u32) = (h :: u16)"
  by (auto intro!: bit_word_eqI simp: bit_simps)

text \<open>So the sequence numbers, commands and status codes in the log keep their columns.\<close>

lemma convert_byte_hex:
  "convert (Convert True 2 Char Conv_X) (Int_arg (ucast b)) = hex 2 (unat (b :: byte))"
  "convert (Convert True 4 Short Conv_X) (Int_arg (ucast h)) = hex 4 (unat (h :: u16))"
proof -
  have "pad 48 (Suc 1) (format_X (unat b)) = hex (Suc 1) (unat b)"
    by (rule pad_format_X) (use unsigned_less [where 'a = nat, of b] in simp)
  moreover have "pad 48 (Suc 3) (format_X (unat h)) = hex (Suc 3) (unat h)"
    by (rule pad_format_X) (use unsigned_less [where 'a = nat, of h] in simp)
  ultimately show
    "convert (Convert True 2 Char Conv_X) (Int_arg (ucast b)) = hex 2 (unat (b :: byte))"
    "convert (Convert True 4 Short Conv_X) (Int_arg (ucast h)) = hex 4 (unat (h :: u16))"
    by (simp_all add: convert_int_def narrow_def numeral_eq_Suc widened del: hex.simps)
qed

section \<open>The set of sinks\<close>

text \<open>The registered sinks are the live ones.\<close>

definition log_wf :: "log_state \<Rightarrow> bool" where
  "log_wf st \<longleftrightarrow> sorted (sink_list st) \<and> distinct (sink_list st) \<and> set (sink_list st) = dom (objects st)"

definition lines_of :: "sink \<Rightarrow> log_state \<Rightarrow> nat" where
  "lines_of kind st = length (filter (\<lambda>a. objects st a = Some kind) (sink_list st))"

definition after_message :: "log_level \<Rightarrow> byte list \<Rightarrow> log_state \<Rightarrow> log_state" where
  "after_message level msg st =
     st\<lparr>stdout_text := stdout_text st @
          concat (replicate (lines_of Stdout_sink st) (level_prefix level @ c_str msg @ [10])),
        android_log := android_log st @ replicate (lines_of Android_sink st) (level, c_str msg)\<rparr>"

lemma deliver_to_eq:
  "set as \<subseteq> dom (objects st) \<Longrightarrow>
   deliver_to level msg as st = Inr (st\<lparr>
     stdout_text := stdout_text st @
       concat (replicate (length (filter (\<lambda>a. objects st a = Some Stdout_sink) as))
         (level_prefix level @ c_str msg @ [10])),
     android_log := android_log st @
       replicate (length (filter (\<lambda>a. objects st a = Some Android_sink) as)) (level, c_str msg)\<rparr>)"
proof (induction as arbitrary: st)
  case Nil
  show ?case by (cases st) simp
next
  case (Cons a as)
  then obtain kind where k: "objects st a = Some kind" by auto
  have "set as \<subseteq> dom (objects (StdoutLogSink_print level msg st))"
    "set as \<subseteq> dom (objects (AndroidLogSink_print level msg st))"
    using Cons.prems by (auto simp: StdoutLogSink_print_def AndroidLogSink_print_def)
  then show ?case
    using k Cons.IH [of "StdoutLogSink_print level msg st"] Cons.IH [of "AndroidLogSink_print level msg st"]
    by (cases kind) (simp_all add: sink_print_def StdoutLogSink_print_def AndroidLogSink_print_def)
qed

lemma log_deliver_eq: "log_wf st \<Longrightarrow> log_deliver level msg st = Inr (after_message level msg st)"
  by (simp add: log_deliver_def deliver_to_eq log_wf_def after_message_def lines_of_def)

lemma log_wf_after_message [simp]: "log_wf (after_message level msg st) = log_wf st"
  by (simp add: log_wf_def after_message_def)

lemma log_wf_started: "log_wf log_started"
  by (simp add: log_wf_def log_started_def)

lemma log_wf_new: "log_wf st \<Longrightarrow> log_wf (LogSink_new kind a st)"
  by (auto simp: log_wf_def LogSink_new_def registerSink_def sorted_insort_insert distinct_insort_insert
      set_insort_insert)

lemma log_wf_delete: "log_wf st \<Longrightarrow> LogSink_delete a st = Inr st' \<Longrightarrow> log_wf st'"
  by (auto simp: log_wf_def LogSink_delete_def unregisterSink_def sorted_remove1 andThen_eq_Inr
      split: if_splits)

lemma stdlog_generic_eq:
  "log_wf st \<Longrightarrow> typed_call fmt args \<Longrightarrow> (\<And>n. memory n) \<Longrightarrow>
   stdlog_generic memory level fmt args st =
     Inr (after_message level (rendered (the (parse_format fmt)) args) st)"
  by (auto simp: stdlog_generic_def vasprintf_def typed_call_def format_text_eq log_deliver_eq
      split: option.splits)

section \<open>Runs of the logger\<close>

inductive log_step :: "(nat \<Rightarrow> bool) \<Rightarrow> log_state \<Rightarrow> log_state \<Rightarrow> bool" for memory where
  Step_new: "objects st a = None \<Longrightarrow> log_step memory st (LogSink_new kind a st)"
| Step_delete: "LogSink_delete a st = Inr st' \<Longrightarrow> log_step memory st st'"
| Step_log: "stdlog_generic memory level fmt args st = Inr st' \<Longrightarrow> log_step memory st st'"

inductive_cases log_stepE: "log_step memory st st'"

lemma log_step_wf: "log_step memory st st' \<Longrightarrow> log_wf st \<Longrightarrow> log_wf st'"
  by (erule log_stepE)
    (auto simp: log_wf_new log_wf_delete stdlog_generic_def andThen_eq_Inr log_deliver_eq split: option.splits)

lemma log_reachable_wf: "(log_step memory)\<^sup>*\<^sup>* log_started st \<Longrightarrow> log_wf st"
  by (induction rule: rtranclp_induct) (auto intro: log_wf_started log_step_wf)

section \<open>The calls of the program\<close>

text \<open>
  What the program passes, by the C type of the expression: an integer of at most 32 bits, an
  \<open>off_t\<close> (\<open>st_size\<close>, whose width is the platform's: 32 or 64 bits), a string, and a \<open>char *\<close> that
  may be null.
\<close>

datatype arg_kind = Int_kind | Offset_kind | String_kind | Nullable_kind

fun has_kind :: "log_arg \<Rightarrow> arg_kind \<Rightarrow> bool" where
  "has_kind (Int_arg w) k \<longleftrightarrow> k = Int_kind \<or> k = Offset_kind"
| "has_kind (Wide_arg w) k \<longleftrightarrow> k = Offset_kind"
| "has_kind (String_arg s) k \<longleftrightarrow> k = String_kind \<or> k = Nullable_kind"
| "has_kind Null_arg k \<longleftrightarrow> k = Nullable_kind"

fun kind_fits :: "directive \<Rightarrow> arg_kind \<Rightarrow> bool" where
  "kind_fits (Convert zero width lm conv) Int_kind \<longleftrightarrow>
     conv \<noteq> Conv_s \<and> (conv = Conv_c \<longrightarrow> \<not> zero \<and> lm = Plain)"
| "kind_fits (Convert zero width lm conv) String_kind \<longleftrightarrow> conv = Conv_s \<and> \<not> zero \<and> lm = Plain"
| "kind_fits _ _ \<longleftrightarrow> False"

text \<open>A call whose argument list fits its format whatever the values of the arguments are.\<close>

definition well_formed :: "byte list \<Rightarrow> arg_kind list \<Rightarrow> bool" where
  "well_formed fmt ks \<longleftrightarrow>
     (case parse_format fmt of None \<Rightarrow> False
      | Some ds \<Rightarrow> (let cs = filter is_convert ds in list_all2 kind_fits cs (take (length cs) ks)))"

text \<open>Every call with a conversion: where it stands, its format and its arguments.\<close>

definition log_calls :: "(string \<times> nat \<times> byte list \<times> arg_kind list) list" where
  "log_calls =
   [(''IPCSocketHandler.cpp'', 70,
      lit ''RX mseq: %02hhX, aseq: %02hhX, response: %02hhX'',
      [Int_kind, Int_kind, Int_kind]),
    (''IPCSocketHandler.cpp'', 73, lit ''Message: %s'', [String_kind]),
    (''IPCSocketHandler.cpp'', 80,
      lit ''Message %s unexpectly sent with response type %d.'',
      [String_kind, Int_kind]),
    (''IPCSocketHandler.cpp'', 93, lit ''No message with sequence 0x%02hhX in air'', [Int_kind]),
    (''IPCSocketHandler.cpp'', 125, lit ''Unexpected response type 0x%02hhX'', [Int_kind]),
    (''IPCSocketHandler.cpp'', 137,
      lit ''%s: %hu bytes, mseq: %02hhX, aseq: %02hhX, cmd: %02hhX, %02hhX, resp: %02hhX'',
      [String_kind, Int_kind, Int_kind, Int_kind, Int_kind, Int_kind, Int_kind]),
    (''IPCSocketHandler.cpp'', 156,
      lit ''Message marshalling failed:'' @ [10] @ lit ''%s'',
      [String_kind]),
    (''IPCSocketHandler.cpp'', 178,
      lit ''TX mseq: %02hhX, aseq: %02hhX, response: %02hhX'',
      [Int_kind, Int_kind, Int_kind]),
    (''IPCSocketHandler.cpp'', 180, lit ''Message: %s'', [String_kind]),
    (''Utilities.cpp'', 67, lit ''%s'', [String_kind]),
    (''RFSSocketHandler.cpp'', 81, lit ''No handler for RFS message. Type: %hhu'', [Int_kind]),
    (''RFSSocketHandler.cpp'', 90, lit ''Unknown RFS message received. Type: %hhu'', [Int_kind]),
    (''RFSSocketHandler.cpp'', 100,
      lit ''RFS Message demarshalling failed. Type: %hhu'',
      [Int_kind]),
    (''RFSSocketHandler.cpp'', 108, lit ''Received request: %s'', [String_kind]),
    (''RFSSocketHandler.cpp'', 119, lit ''Response marshalling failed. Type: %hhu'', [Int_kind]),
    (''RFSSocketHandler.cpp'', 132, lit ''Sending response: %s'', [String_kind]),
    (''Log.cpp'', 74, lit ''%s: %s'', [String_kind, String_kind]),
    (''security.cpp'', 85, lit ''Card type: %u, ICC type: %u'', [Int_kind, Int_kind]),
    (''security.cpp'', 149,
      lit ''Unsupported SIM state %02X, substate %02hhX'',
      [Int_kind, Int_kind]),
    (''security.cpp'', 297,
      lit ''SIM_IO: 0x%02hhX, 0x%04hX, %s, 0x%02hhX, 0x%02hhX, 0x%02hhX, %s -> 0x%02hhX, 0x%02hhX, %s'',
      [Int_kind, Int_kind, Nullable_kind, Int_kind, Int_kind, Int_kind, Nullable_kind, Int_kind, Int_kind, Nullable_kind]),
    (''oem.cpp'', 301, lit ''Unsupported OEM request %u'', [Int_kind]),
    (''network.cpp'', 147,
      lit ''Database lookup for operator %s failed: %s'',
      [String_kind, String_kind]),
    (''network.cpp'', 206,
      lit ''Database lookup for operator %s failed: %s'',
      [String_kind, String_kind]),
    (''network.cpp'', 443, lit ''Registration of unknown service domain: %hhu'', [Int_kind]),
    (''RIL.cpp'', 64, lit ''Wrong Java-side RIL class selected: %s'', [String_kind]),
    (''RIL.cpp'', 70, lit ''Unable to open RIL database: %s'', [String_kind]),
    (''RIL.cpp'', 150,
      lit ''Synchronous execution of following message taken %u milliseconds.'',
      []),
    (''RIL.cpp'', 152, lit ''%s'', [String_kind]),
    (''call.cpp'', 100, lit ''Dialing %s, clir %d'', [String_kind, Int_kind]),
    (''call.cpp'', 140,
      lit ''Incoming call: type 0x%04hX, reserved 0x%02hX, lineId 0x%02hX'',
      [Int_kind, Int_kind, Int_kind]),
    (''call.cpp'', 250,
      lit ''Call state changed: type 0x%04hX, call id 0x%02hX, event 0x%02hX, release cause: 0x%02hhX, 0x%02hhX'',
      [Int_kind, Int_kind, Int_kind, Int_kind, Int_kind]),
    (''call.cpp'', 317, lit ''No call on line %d'', [Int_kind]),
    (''call.cpp'', 326, lit ''Separating connection %d'', [Int_kind]),
    (''call.cpp'', 347, lit ''DTMF: %s'', [String_kind]),
    (''call.cpp'', 393, lit ''No call on line %d'', [Int_kind]),
    (''call.cpp'', 405,
      lit ''Hangup through SsManageCall: command %d, call %d'',
      [Int_kind, Int_kind]),
    (''call.cpp'', 417, lit ''Start continuous DTMF: %c'', [Int_kind]),
    (''call.cpp'', 419, lit ''Stop continuous DTMF: %c'', [Int_kind]),
    (''RequestHandler.cpp'', 90, lit ''Unsupported request %d:'', [Int_kind]),
    (''RequestHandler.cpp'', 129, lit ''%s failed with status 0x%04X'', [String_kind, Int_kind]),
    (''RequestHandler.cpp'', 152,
      lit ''Got unexpected message in response to %s: %s'',
      [String_kind, String_kind]),
    (''ril.cpp'', 45, lit ''%s.'', [String_kind]),
    (''OemRequestHandler.cpp'', 120, lit ''Invalid audio path %d'', [Int_kind]),
    (''OemRequestHandler.cpp'', 137, lit ''Invalid device %d'', [Int_kind]),
    (''AndroidFileSystem.cpp'', 211, lit ''%s open failed: %s'', [String_kind, String_kind]),
    (''AndroidFileSystem.cpp'', 224,
      lit ''%s have unexpected size: %u bytes, expected %u bytes'',
      [String_kind, Offset_kind, Int_kind]),
    (''AndroidFileSystem.cpp'', 235, lit ''%s not found - assuming invalid'', [String_kind]),
    (''AndroidFileSystem.cpp'', 254, lit ''%s is corrupted'', [String_kind])]"

lemma has_kind_simps [simp]:
  "has_kind a Int_kind \<longleftrightarrow> (\<exists>w. a = Int_arg w)"
  "has_kind a Offset_kind \<longleftrightarrow> (\<exists>w. a = Int_arg w) \<or> (\<exists>w. a = Wide_arg w)"
  "has_kind a String_kind \<longleftrightarrow> (\<exists>s. a = String_arg s)"
  "has_kind a Nullable_kind \<longleftrightarrow> (\<exists>s. a = String_arg s) \<or> a = Null_arg"
  by (cases a; simp)+

lemma has_kind_fits: "is_convert d \<Longrightarrow> kind_fits d k \<longleftrightarrow> (\<forall>a. has_kind a k \<longrightarrow> fits d a)"
  by (cases d; cases k) auto

lemma kind_inhabited: "\<exists>a. has_kind a k"
  by (cases k) auto

lemma kinds_inhabited: "\<exists>args. list_all2 has_kind args ks"
proof (induction ks)
  case (Cons k ks)
  then obtain a as where "has_kind a k" "list_all2 has_kind as ks" using kind_inhabited by blast
  then have "list_all2 has_kind (a # as) (k # ks)" by simp
  then show ?case ..
qed simp

lemma kinds_fit:
  "list_all is_convert cs \<Longrightarrow>
   list_all2 kind_fits cs (take (length cs) ks) \<longleftrightarrow>
   (\<forall>args. list_all2 has_kind args ks \<longrightarrow> list_all2 fits cs (take (length cs) args))"
proof (induction cs arbitrary: ks)
  case (Cons c cs)
  show ?case
  proof (cases ks)
    case (Cons k ks')
    have "(\<forall>args. list_all2 has_kind args (k # ks') \<longrightarrow> list_all2 fits (c # cs) (take (Suc (length cs)) args))
      \<longleftrightarrow> (\<forall>a as. has_kind a k \<longrightarrow> list_all2 has_kind as ks' \<longrightarrow>
            fits c a \<and> list_all2 fits cs (take (length cs) as))"
      by (force simp: list_all2_Cons2)
    also have "\<dots> \<longleftrightarrow> kind_fits c k \<and> list_all2 kind_fits cs (take (length cs) ks')"
      using Cons.IH [of ks'] Cons.prems has_kind_fits [of c k] kind_inhabited [of k] kinds_inhabited [of ks']
      by (simp, blast)
    finally show ?thesis using Cons by simp
  qed auto
qed simp

lemma well_formed_iff:
  "well_formed fmt ks \<longleftrightarrow> (\<forall>args. list_all2 has_kind args ks \<longrightarrow> typed_call fmt args)"
proof (cases "parse_format fmt")
  case None
  then show ?thesis using kinds_inhabited by (auto simp: well_formed_def typed_call_def)
next
  case (Some ds)
  then show ?thesis
    by (simp add: well_formed_def typed_call_def typed_def Let_def kinds_fit list.pred_set)
qed

lemma log_calls_checked:
  "[(f, l). (f, l, fmt, ks) \<leftarrow> log_calls, \<not> well_formed fmt ks] =
     [(''security.cpp'', 297), (''RIL.cpp'', 150), (''AndroidFileSystem.cpp'', 224)]"
  by code_simp

lemma stdlog_generic_undefined:
  "log_wf st \<Longrightarrow> (\<And>n. memory n) \<Longrightarrow>
   stdlog_generic memory level fmt args st = Inl Undefined \<longleftrightarrow> \<not> typed_call fmt args"
  by (auto simp: stdlog_generic_def vasprintf_def typed_call_def format_text_eq log_deliver_eq
      split: option.splits)

lemma undefined_call_sites:
  "{(f, l). \<exists>fmt ks. (f, l, fmt, ks) \<in> set log_calls \<and> \<not> well_formed fmt ks} =
     {(''security.cpp'', 297), (''RIL.cpp'', 150), (''AndroidFileSystem.cpp'', 224)}"
proof -
  have "{(f, l). \<exists>fmt ks. (f, l, fmt, ks) \<in> set log_calls \<and> \<not> well_formed fmt ks} =
      set [(f, l). (f, l, fmt, ks) \<leftarrow> log_calls, \<not> well_formed fmt ks]"
    by force
  then show ?thesis unfolding log_calls_checked by simp
qed

section \<open>Properties\<close>

text \<open>
  C39. Whatever sinks have been made and destroyed before, a call of the logger with enough memory
  has a defined result for all arguments of its types, except at three of the program's places:
  security.cpp:297 prints the data of a SIM command and its answer, which may be null; RIL.cpp:150
  prints a duration that is not passed; AndroidFileSystem.cpp:224 prints an \<open>off_t\<close> with \<open>%u\<close>.
\<close>

theorem undefined_log_calls:
  assumes "(log_step memory)\<^sup>*\<^sup>* log_started st" and "\<And>n. memory n"
  shows "{(f, l). \<exists>fmt ks args. (f, l, fmt, ks) \<in> set log_calls \<and> list_all2 has_kind args ks \<and>
             stdlog_generic memory level fmt args st = Inl Undefined} =
           {(''security.cpp'', 297), (''RIL.cpp'', 150), (''AndroidFileSystem.cpp'', 224)}"
  unfolding stdlog_generic_undefined [OF log_reachable_wf [OF assms(1)] assms(2)]
    undefined_call_sites [symmetric] well_formed_iff
  by blast

theorem undefined_log_calls_witness:
  "{(f, l). \<exists>fmt ks args. (f, l, fmt, ks) \<in> set log_calls \<and> list_all2 has_kind args ks \<and>
      stdlog_generic (\<lambda>n. True) Debug fmt args log_started = Inl Undefined} =
    {(''security.cpp'', 297), (''RIL.cpp'', 150), (''AndroidFileSystem.cpp'', 224)}"
  by (rule undefined_log_calls) simp_all

text \<open>
  C40. A panic is reported before the program aborts: every live sink is given the line
  \<open>Radio in panic:\<close> and then the message itself, both as errors, in this order and once each.
\<close>

theorem panic_reports:
  assumes "(log_step memory)\<^sup>*\<^sup>* log_started st" and "\<And>n. memory n" and "typed_call fmt args"
  shows "Log_panic memory fmt args st =
    (Panic, after_message Error (rendered (the (parse_format fmt)) args)
      (after_message Error (lit ''Radio in panic:'') st))"
proof -
  have fmt: "typed_call (lit ''Radio in panic:'') []"
    "rendered (the (parse_format (lit ''Radio in panic:''))) [] = lit ''Radio in panic:''"
    by code_simp+
  from log_reachable_wf [OF assms(1)] show ?thesis
    by (simp add: Log_panic_def Log_error_def stdlog_generic_eq assms fmt)
qed

text \<open>A logger with one sink for Android's log and one for the standard output.\<close>

definition two_sinks :: log_state where
  "two_sinks = LogSink_new Stdout_sink 0x2000 (LogSink_new Android_sink 0x3000 log_started)"

lemma two_sinks_reachable: "(log_step memory)\<^sup>*\<^sup>* log_started two_sinks"
proof -
  have "log_step memory log_started (LogSink_new Android_sink 0x3000 log_started)"
    by (rule Step_new) (simp add: log_started_def)
  moreover have "log_step memory (LogSink_new Android_sink 0x3000 log_started) two_sinks"
    unfolding two_sinks_def
    by (rule Step_new) (simp add: log_started_def LogSink_new_def registerSink_def)
  ultimately show ?thesis by (meson rtranclp.intros)
qed

theorem panic_reports_witness:
  "Log_panicErrno (\<lambda>n. True) (lit ''No such device'') (lit ''open'') two_sinks =
     (Panic, two_sinks\<lparr>
        stdout_text := lit ''error Radio in panic:'' @ [10] @ lit ''error open: No such device'' @ [10],
        android_log := [(Error, lit ''Radio in panic:''), (Error, lit ''open: No such device'')]\<rparr>)"
proof -
  have fmt: "typed_call (lit ''%s: %s'') [String_arg (lit ''open''), String_arg (lit ''No such device'')]"
    "rendered (the (parse_format (lit ''%s: %s''))) [String_arg (lit ''open''), String_arg (lit ''No such device'')]
       = lit ''open: No such device''"
    by code_simp+
  have st: "after_message Error (lit ''open: No such device'') (after_message Error (lit ''Radio in panic:'') two_sinks)
     = two_sinks\<lparr>
        stdout_text := lit ''error Radio in panic:'' @ [10] @ lit ''error open: No such device'' @ [10],
        android_log := [(Error, lit ''Radio in panic:''), (Error, lit ''open: No such device'')]\<rparr>"
    by (simp add: after_message_def two_sinks_def LogSink_new_def registerSink_def log_started_def
        lines_of_def level_prefix_def lit_def c_str_def insort_insert_key_def)
  show ?thesis
    unfolding Log_panicErrno_def panic_reports [OF two_sinks_reachable TrueI fmt(1)] fmt(2) st ..
qed

end
