(* ===== verification/Native_File.thy ===== *)
theory Native_File
  imports Prelude "HOL-Library.Multiset"
begin

text \<open>
  The life of \<open>NativeFile\<close> objects (libandroidhal/NativeFile.cpp): they share a descriptor with a
  count of references, on a heap of \<open>NativeFileData\<close>.
\<close>

section \<open>Objects\<close>

record file_data =
  d_refs :: int
  d_fd :: int

text \<open>The heap, the objects with their pointers into it, and the descriptors closed.\<close>

record file_objects =
  n_heap :: "nat \<Rightarrow> file_data option"
  n_objects :: "nat \<Rightarrow> nat option"
  n_closed :: "int list"

definition NativeFileData :: "int \<Rightarrow> file_data" where
  "NativeFileData fd = \<lparr>d_refs = 1, d_fd = fd\<rparr>"

definition deref :: "nat \<Rightarrow> file_objects \<Rightarrow> file_objects outcome" where
  "deref a st =
     (case n_heap st a of
        None \<Rightarrow> Inl Undefined
      | Some d \<Rightarrow>
          if d_refs d - 1 = 0
          then Inr (st\<lparr>n_heap := (n_heap st)(a := None), n_closed := d_fd d # n_closed st\<rparr>)
          else Inr (st\<lparr>n_heap := (n_heap st)(a \<mapsto> d\<lparr>d_refs := d_refs d - 1\<rparr>)\<rparr>))"

definition ref :: "nat \<Rightarrow> file_objects \<Rightarrow> file_objects outcome" where
  "ref a st =
     (case n_heap st a of
        None \<Rightarrow> Inl Undefined
      | Some d \<Rightarrow> Inr (st\<lparr>n_heap := (n_heap st)(a \<mapsto> d\<lparr>d_refs := d_refs d + 1\<rparr>)\<rparr>))"

text \<open>A new object \<open>x\<close>; \<open>a\<close> is where \<open>new\<close> puts its data.\<close>

definition NativeFile :: "nat \<Rightarrow> nat \<Rightarrow> int \<Rightarrow> file_objects \<Rightarrow> file_objects" where
  "NativeFile x a fd st =
     st\<lparr>n_heap := (n_heap st)(a \<mapsto> NativeFileData fd), n_objects := (n_objects st)(x \<mapsto> a)\<rparr>"

definition NativeFile_copy :: "nat \<Rightarrow> nat \<Rightarrow> file_objects \<Rightarrow> file_objects outcome" where
  "NativeFile_copy x orig st =
     (case n_objects st orig of
        None \<Rightarrow> Inl Undefined
      | Some a \<Rightarrow> andThen (ref a st) (\<lambda>st. Inr (st\<lparr>n_objects := (n_objects st)(x \<mapsto> a)\<rparr>)))"

definition NativeFile_destroy :: "nat \<Rightarrow> file_objects \<Rightarrow> file_objects outcome" where
  "NativeFile_destroy x st =
     (case n_objects st x of
        None \<Rightarrow> Inl Undefined
      | Some a \<Rightarrow> andThen (deref a st) (\<lambda>st. Inr (st\<lparr>n_objects := (n_objects st)(x := None)\<rparr>)))"

text \<open>The class has no assignment, so the one of the language copies the pointer.\<close>

definition NativeFile_assign :: "nat \<Rightarrow> nat \<Rightarrow> file_objects \<Rightarrow> file_objects outcome" where
  "NativeFile_assign x orig st =
     (case n_objects st orig of
        None \<Rightarrow> Inl Undefined
      | Some a \<Rightarrow> Inr (st\<lparr>n_objects := (n_objects st)(x \<mapsto> a)\<rparr>))"

lemmas native_file_defs = NativeFileData_def deref_def ref_def NativeFile_def NativeFile_copy_def
  NativeFile_destroy_def NativeFile_assign_def

section \<open>Use of the objects\<close>

definition no_files :: file_objects where
  "no_files = \<lparr>n_heap = Map.empty, n_objects = Map.empty, n_closed = []\<rparr>"

text \<open>Objects are constructed, copied and destroyed; the descriptors opened are remembered.\<close>

inductive file_step :: "int list \<times> file_objects \<Rightarrow> int list \<times> file_objects \<Rightarrow> bool" where
  opened: "n_objects st x = None \<Longrightarrow> n_heap st a = None \<Longrightarrow>
    file_step (fds, st) (fd # fds, NativeFile x a fd st)"
| copied: "n_objects st x = None \<Longrightarrow> NativeFile_copy x orig st = Inr st' \<Longrightarrow>
    file_step (fds, st) (fds, st')"
| destroyed: "NativeFile_destroy x st = Inr st' \<Longrightarrow> file_step (fds, st) (fds, st')"

definition holders :: "(nat \<Rightarrow> nat option) \<Rightarrow> nat \<Rightarrow> nat set" where
  "holders objects a = {x. objects x = Some a}"

fun cell_ok :: "file_data option \<Rightarrow> nat set \<Rightarrow> bool" where
  "cell_ok None xs \<longleftrightarrow> xs = {}"
| "cell_ok (Some d) xs \<longleftrightarrow> xs \<noteq> {} \<and> d_refs d = int (card xs)"

definition counted :: "file_objects \<Rightarrow> bool" where
  "counted st \<longleftrightarrow> finite (dom (n_objects st)) \<and> finite (dom (n_heap st)) \<and>
     (\<forall>a. cell_ok (n_heap st a) (holders (n_objects st) a))"

definition open_descriptors :: "(nat \<Rightarrow> file_data option) \<Rightarrow> int multiset" where
  "open_descriptors heap = image_mset (\<lambda>a. d_fd (the (heap a))) (mset_set (dom heap))"

definition files_inv :: "int list \<times> file_objects \<Rightarrow> bool" where
  "files_inv s \<longleftrightarrow> counted (snd s) \<and> mset (fst s) = mset (n_closed (snd s)) + open_descriptors (n_heap (snd s))"

lemma finite_holders: "counted st \<Longrightarrow> finite (holders (n_objects st) a)"
  unfolding counted_def holders_def
  by (auto elim!: finite_subset [rotated] simp: dom_def)

lemma holders_updates [simp]:
  "holders (objects(x \<mapsto> b)) a = (if a = b then insert x (holders objects a) else holders objects a - {x})"
  "holders (objects(x := None)) a = holders objects a - {x}"
  by (auto simp: holders_def)

lemma open_descriptors_new:
  assumes "finite (dom heap)" "heap a = None"
  shows "open_descriptors (heap(a \<mapsto> d)) = add_mset (d_fd d) (open_descriptors heap)"
proof -
  have "a \<notin> dom heap" using assms(2) by auto
  moreover from this assms(1) have
    "image_mset (\<lambda>b. d_fd (the ((heap(a \<mapsto> d)) b))) (mset_set (dom heap)) = open_descriptors heap"
    unfolding open_descriptors_def by (intro image_mset_cong) auto
  ultimately show ?thesis using assms(1) by (simp add: open_descriptors_def)
qed

lemma open_descriptors_freed:
  assumes "finite (dom heap)" "heap a = Some d"
  shows "open_descriptors heap = add_mset (d_fd d) (open_descriptors (heap(a := None)))"
  using open_descriptors_new [of "heap(a := None)" a d] assms by (simp add: map_upd_triv)

lemma open_descriptors_kept:
  assumes "finite (dom heap)" "heap a = Some d" "d_fd d' = d_fd d"
  shows "open_descriptors (heap(a \<mapsto> d')) = open_descriptors heap"
  using open_descriptors_new [of "heap(a := None)" a d'] open_descriptors_freed [OF assms(1,2)] assms
  by simp

lemma countedD:
  assumes "counted st" "n_objects st x = Some a"
  obtains d where "n_heap st a = Some d" "d_refs d = int (card (holders (n_objects st) a))" "x \<in> holders (n_objects st) a"
proof -
  have x: "x \<in> holders (n_objects st) a" using assms(2) by (simp add: holders_def)
  have "cell_ok (n_heap st a) (holders (n_objects st) a)" using assms(1) by (simp add: counted_def)
  with x that show thesis by (cases "n_heap st a") auto
qed

lemma counted_opened:
  assumes "counted st" "n_objects st x = None" "n_heap st a = None"
  shows "counted (NativeFile x a fd st)"
proof -
  have "x \<notin> holders (n_objects st) b" for b using assms(2) by (simp add: holders_def)
  moreover have "holders (n_objects st) a = {}"
    using assms(1,3) unfolding counted_def by (metis cell_ok.simps(1))
  ultimately show ?thesis
    using assms(1) by (auto simp: counted_def native_file_defs)
qed

lemma counted_copied:
  assumes "counted st" "n_objects st x = None" "NativeFile_copy x orig st = Inr st'"
  shows "counted st' \<and> n_closed st' = n_closed st \<and> open_descriptors (n_heap st') = open_descriptors (n_heap st)"
proof -
  from assms(3) obtain a where a: "n_objects st orig = Some a"
    by (auto simp: NativeFile_copy_def split: option.splits)
  obtain d where d: "n_heap st a = Some d" "d_refs d = int (card (holders (n_objects st) a))"
    by (rule countedD [OF assms(1) a])
  have x: "x \<notin> holders (n_objects st) b" for b using assms(2) by (simp add: holders_def)
  have st': "st' = st\<lparr>n_heap := (n_heap st)(a \<mapsto> d\<lparr>d_refs := d_refs d + 1\<rparr>), n_objects := (n_objects st)(x \<mapsto> a)\<rparr>"
    using assms(3) a d by (simp add: NativeFile_copy_def ref_def)
  have "counted st'"
    using assms(1) d x finite_holders [OF assms(1), of a] by (auto simp: st' counted_def)
  moreover have "open_descriptors (n_heap st') = open_descriptors (n_heap st)"
    using d assms(1) by (simp add: st' counted_def open_descriptors_kept)
  ultimately show ?thesis by (simp add: st')
qed

lemma NativeFile_destroyed:
  assumes "counted st" "n_objects st x = Some a"
  obtains d st' where "n_heap st a = Some d" "NativeFile_destroy x st = Inr st'" "counted st'"
    "mset (n_closed st') + open_descriptors (n_heap st') = mset (n_closed st) + open_descriptors (n_heap st)"
    "n_closed st' = (if holders (n_objects st) a = {x} then d_fd d # n_closed st else n_closed st)"
proof -
  obtain d where d: "n_heap st a = Some d" "d_refs d = int (card (holders (n_objects st) a))" "x \<in> holders (n_objects st) a"
    by (rule countedD [OF assms])
  have fin: "finite (holders (n_objects st) a)" by (rule finite_holders [OF assms(1)])
  have others: "holders (n_objects st) b - {x} = holders (n_objects st) b" if "b \<noteq> a" for b
    using assms(2) that by (auto simp: holders_def)
  have ok: "cell_ok (n_heap st b) (holders (n_objects st) b)" and
    dom: "finite (dom (n_objects st))" "finite (dom (n_heap st))" for b
    using assms(1) by (simp_all add: counted_def)
  show thesis
  proof (cases "holders (n_objects st) a = {x}")
    case True
    let ?st = "st\<lparr>n_heap := (n_heap st)(a := None), n_closed := d_fd d # n_closed st, n_objects := (n_objects st)(x := None)\<rparr>"
    have "NativeFile_destroy x st = Inr ?st"
      using assms(2) d True by (simp add: NativeFile_destroy_def deref_def)
    moreover have "counted ?st"
      using ok dom True by (simp add: counted_def others)
    moreover have "mset (n_closed ?st) + open_descriptors (n_heap ?st) = mset (n_closed st) + open_descriptors (n_heap st)"
      using assms(1) d(1) open_descriptors_freed [of "n_heap st" a d] by (simp add: counted_def)
    ultimately show thesis using that [OF d(1)] True by simp
  next
    case False
    let ?st = "st\<lparr>n_heap := (n_heap st)(a \<mapsto> d\<lparr>d_refs := d_refs d - 1\<rparr>), n_objects := (n_objects st)(x := None)\<rparr>"
    have more: "holders (n_objects st) a - {x} \<noteq> {}" using d(3) False by auto
    have left: "d_refs d - 1 = int (card (holders (n_objects st) a - {x}))"
      using d(2) card.remove [OF fin d(3)] by linarith
    with more fin have "d_refs d - 1 \<noteq> 0" by (simp add: card_gt_0_iff)
    then have "NativeFile_destroy x st = Inr ?st"
      using assms(2) d(1) by (simp add: NativeFile_destroy_def deref_def)
    moreover have "counted ?st"
      using ok dom left more by (simp add: counted_def others)
    moreover have "open_descriptors (n_heap ?st) = open_descriptors (n_heap st)"
      using d(1) dom by (simp add: open_descriptors_kept)
    ultimately show thesis using that [OF d(1)] False by simp
  qed
qed

lemma files_inv_step:
  assumes "files_inv s" "file_step s s'"
  shows "files_inv s'"
  using assms(2,1)
proof (cases rule: file_step.cases)
  case (opened st x a fds fd)
  with assms(1) show ?thesis
    by (simp add: files_inv_def counted_opened)
      (simp add: NativeFile_def NativeFileData_def counted_def open_descriptors_new)
next
  case (copied st x orig st' fds)
  with assms(1) counted_copied [of st x orig st'] show ?thesis by (simp add: files_inv_def)
next
  case (destroyed x st st' fds)
  then obtain a where a: "n_objects st x = Some a"
    by (auto simp: NativeFile_destroy_def split: option.splits)
  have "counted st" using assms(1) destroyed by (simp add: files_inv_def)
  from NativeFile_destroyed [OF this a] obtain st1 where "NativeFile_destroy x st = Inr st1" "counted st1"
    "mset (n_closed st1) + open_descriptors (n_heap st1) = mset (n_closed st) + open_descriptors (n_heap st)"
    by metis
  with destroyed assms(1) show ?thesis by (simp add: files_inv_def)
qed

lemma files_inv_runs: "file_step\<^sup>*\<^sup>* ([], no_files) s \<Longrightarrow> files_inv s"
proof (induction rule: rtranclp_induct)
  case base
  show ?case by (simp add: files_inv_def no_files_def counted_def holders_def open_descriptors_def)
qed (rule files_inv_step)


section \<open>Properties\<close>

text \<open>
  C23. Objects that are constructed, copied and destroyed close every descriptor exactly once: what was
  opened is what was closed and what live data still hold; destroying an object is always defined,
  and a descriptor is closed exactly when the last object with it is destroyed.
\<close>

theorem descriptors_closed_once:
  assumes "file_step\<^sup>*\<^sup>* ([], no_files) (fds, st)" "n_objects st x = Some a"
  shows "mset fds = mset (n_closed st) + open_descriptors (n_heap st) \<and>
    (\<exists>d st'. n_heap st a = Some d \<and> NativeFile_destroy x st = Inr st' \<and>
      n_closed st' = (if holders (n_objects st) a = {x} then d_fd d # n_closed st else n_closed st))"
proof -
  have inv: "files_inv (fds, st)" by (rule files_inv_runs [OF assms(1)])
  then have "counted st" by (simp add: files_inv_def)
  from NativeFile_destroyed [OF this assms(2)] inv show ?thesis
    by (simp add: files_inv_def) metis
qed

text \<open>Assigning one object to another, which the language allows, leads to a use after free.\<close>

theorem assignment_breaks_counting:
  "let st = NativeFile 1 11 6 (NativeFile 0 10 5 no_files) in
   \<exists>st1 st2. NativeFile_assign 1 0 st = Inr st1 \<and> NativeFile_destroy 1 st1 = Inr st2 \<and>
     NativeFile_destroy 0 st2 = Inl Undefined"
  by (simp add: native_file_defs no_files_def)

theorem descriptors_closed_once_witness:
  "\<exists>st. NativeFile_destroy 0 (NativeFile 0 10 5 no_files) = Inr st \<and> n_closed st = [5]"
proof -
  let ?st = "NativeFile 0 10 5 no_files"
  have run: "file_step\<^sup>*\<^sup>* ([], no_files) ([5], ?st)"
    by (rule r_into_rtranclp, rule opened) (simp_all add: no_files_def)
  have "n_objects ?st 0 = Some 10" "holders (n_objects ?st) 10 = {0}" "n_heap ?st 10 = Some (NativeFileData 5)"
    by (auto simp: NativeFile_def no_files_def holders_def split: if_splits)
  with descriptors_closed_once [OF run, of 0 10] show ?thesis
    by (auto simp: NativeFileData_def NativeFile_def no_files_def)
qed

end
