(* ===== verification/RIL_Channel.thy ===== *)
theory RIL_Channel
  imports IPC_Socket_Handler RIL_System "HOL-Library.Multiset"
begin

text \<open>
  The RIL on its IPC channel: the system of threads of \<open>RIL_System\<close> with the request/response engine of
  \<open>IPC_Socket_Handler\<close> below it.  \<open>RIL_System\<close> lets any message in flight be completed at any time;
  here the engine decides, and the theorems show that it completes nothing else.  A message carries
  what \<open>subscribe\<close> was given: a completion function, or the data of a thread in \<open>RIL::execute\<close>.
\<close>

section \<open>Messages with their subscribers\<close>

datatype tag = Subscribed subscriber | Waiting nat | Received

type_synonym tagged = "wire_message \<times> tag"

definition tagged_ops :: "tagged message_ops" where
  "tagged_ops =
     \<lparr>create = (\<lambda>c s. map_option (\<lambda>m. (m, Received)) (create wire_ops c s)),
      readMessage = (\<lambda>(m, t) bytes. map_option (\<lambda>m. (m, t)) (readMessage wire_ops m bytes)),
      writeMessage = (\<lambda>(m, t). writeMessage wire_ops m),
      m_command = (\<lambda>(m, t). m_command wire_ops m),
      m_subcommand = (\<lambda>(m, t). m_subcommand wire_ops m),
      m_requestType = (\<lambda>(m, t). m_requestType wire_ops m),
      m_unsolicited = (\<lambda>(m, t). m_unsolicited wire_ops m)\<rparr>"

section \<open>State\<close>

text \<open>
  The data of the waiting threads are numbered in the order of the threads; \<open>ch_fresh\<close> is a number that
  was not used.  The pipe and the engine are as in \<open>Worker_Thread\<close>; \<open>ch_calls\<close> are the effects of the
  engine that the worker thread has still to go through.
\<close>

record channel_state =
  ch_system :: system
  ch_ids :: "nat list"
  ch_fresh :: nat
  ch_pipe :: "tagged list"
  ch_ipc :: "tagged ipc_handler"
  ch_calls :: "tagged ipc_effect list"

definition initial_channel :: channel_state where
  "initial_channel =
     \<lparr>ch_system = initial_system, ch_ids = [], ch_fresh = 0, ch_pipe = [], ch_ipc = IPCSocketHandler,
      ch_calls = []\<rparr>"

text \<open>
  A handler that leaves the lock has written its messages into the pipe, the one it waits for last:
  those by which the state \<open>c'\<close> is longer than \<open>c\<close>.
\<close>

definition subscribed_messages :: "(wire_message \<times> subscriber) list \<Rightarrow> tagged list" where
  "subscribed_messages ms = map (\<lambda>(m, who). (m, Subscribed who)) ms"

definition ril_left :: "system \<Rightarrow> system \<Rightarrow> channel_state \<Rightarrow> channel_state" where
  "ril_left c c' k =
     (let waiting = drop (length (y_threads c)) (y_threads c') in
      k\<lparr>ch_system := c',
        ch_ids := ch_ids k @ map (\<lambda>_. ch_fresh k) waiting,
        ch_fresh := Suc (ch_fresh k),
        ch_pipe := ch_pipe k @
          subscribed_messages (drop (length (ril.in_air (y_ril c))) (ril.in_air (y_ril c'))) @
          map (\<lambda>t. (t_message t, Waiting (ch_fresh k))) waiting\<rparr>)"

definition engine_done :: "tagged ipc_handler \<Rightarrow> channel_state \<Rightarrow> channel_state" where
  "engine_done st k = k\<lparr>ch_ipc := st\<lparr>m_effects := []\<rparr>, ch_calls := m_effects st\<rparr>"

section \<open>Steps\<close>

text \<open>
  The steps of the worker thread are those from \<open>submitted\<close> on; while it is inside
  \<open>onExecutionComplete\<close> its next one is to give the semaphore.
\<close>

inductive channel_step ::
    "ril_abi \<Rightarrow> platform \<Rightarrow> 'p parcel_api \<Rightarrow> bool \<Rightarrow> channel_state \<Rightarrow> channel_state \<Rightarrow> bool"
  for abi :: ril_abi and p :: platform and api :: "'p parcel_api" and serial :: bool
where
  asked:
    "(serial \<Longrightarrow> y_threads (ch_system k) = []) \<Longrightarrow>
     c = (ch_system k)\<lparr>y_received := r # y_received (ch_system k)\<rparr> \<Longrightarrow>
     leave r (handle_request abi p api r (y_ril (ch_system k))) c = Some c' \<Longrightarrow>
     channel_step abi p api serial k (ril_left c c' k)"
| resumed:
    "i < length (y_threads (ch_system k)) \<Longrightarrow> y_semaphore (ch_system k) = Suc n \<Longrightarrow>
     t_reply (y_threads (ch_system k) ! i) = Some reply \<Longrightarrow>
     c = (ch_system k)\<lparr>y_threads := remove_nth i (y_threads (ch_system k)), y_semaphore := n\<rparr> \<Longrightarrow>
     leave (t_request (y_threads (ch_system k) ! i))
       (t_continue (y_threads (ch_system k) ! i) reply (y_ril (ch_system k))) c = Some c' \<Longrightarrow>
     channel_step abi p api serial k (ril_left c c' (k\<lparr>ch_ids := remove_nth i (ch_ids k)\<rparr>))"
| submitted:
    "\<not> y_giving (ch_system k) \<Longrightarrow> ch_calls k = [] \<Longrightarrow> ch_pipe k = m # rest \<Longrightarrow> submit tagged_ops m (ch_ipc k) = Inr st \<Longrightarrow>
     channel_step abi p api serial k (engine_done st (k\<lparr>ch_pipe := rest\<rparr>))"
| arrived:
    "\<not> y_giving (ch_system k) \<Longrightarrow> ch_calls k = [] \<Longrightarrow> handleReassembledMessage tagged_ops packet (ch_ipc k) = Inr st \<Longrightarrow>
     channel_step abi p api serial k (engine_done st k)"
| called_completion:
    "\<not> y_giving (ch_system k) \<Longrightarrow> ch_calls k = Complete (m, Subscribed who) reply # es \<Longrightarrow>
     s = (y_ril (ch_system k))\<lparr>ril.in_air := remove1 (m, who) (ril.in_air (y_ril (ch_system k)))\<rparr> \<Longrightarrow>
     complete_message p who (map_option fst reply) s = Finished s' \<Longrightarrow>
     channel_step abi p api serial k
       (ril_left ((ch_system k)\<lparr>y_ril := s\<rparr>) ((ch_system k)\<lparr>y_ril := s'\<rparr>) (k\<lparr>ch_calls := es\<rparr>))"
| called_execution:
    "\<not> y_giving (ch_system k) \<Longrightarrow> ch_calls k = Complete (m, Waiting n) reply # es \<Longrightarrow> i < length (ch_ids k) \<Longrightarrow> ch_ids k ! i = n \<Longrightarrow>
     channel_step abi p api serial k
       (k\<lparr>ch_calls := es,
          ch_system := (ch_system k)
            \<lparr>y_threads := (y_threads (ch_system k))
               [i := (y_threads (ch_system k) ! i)\<lparr>t_reply := Some (map_option fst reply)\<rparr>],
             y_giving := True\<rparr>\<rparr>)"
| semaphore_given:
    "y_giving (ch_system k) \<Longrightarrow>
     channel_step abi p api serial k
       (k\<lparr>ch_system := (ch_system k)
            \<lparr>y_semaphore := Suc (y_semaphore (ch_system k)), y_giving := False\<rparr>\<rparr>)"
| called_delivery:
    "\<not> y_giving (ch_system k) \<Longrightarrow> ch_calls k = Deliver (m, t) # es \<Longrightarrow> deliver p api m (y_ril (ch_system k)) = Finished s \<Longrightarrow>
     channel_step abi p api serial k
       (ril_left (ch_system k) ((ch_system k)\<lparr>y_ril := s\<rparr>) (k\<lparr>ch_calls := es\<rparr>))"
| called_nothing:
    "\<not> y_giving (ch_system k) \<Longrightarrow> ch_calls k = e # es \<Longrightarrow> \<forall>m reply. e \<noteq> Complete m reply \<Longrightarrow> \<forall>m. e \<noteq> Deliver m \<Longrightarrow>
     channel_step abi p api serial k (k\<lparr>ch_calls := es\<rparr>)"

abbreviation reachable_channel ::
    "ril_abi \<Rightarrow> platform \<Rightarrow> 'p parcel_api \<Rightarrow> bool \<Rightarrow> channel_state \<Rightarrow> bool"
where
  "reachable_channel abi p api serial \<equiv> (channel_step abi p api serial)\<^sup>*\<^sup>* initial_channel"

section \<open>What the engine may still complete\<close>

definition completions :: "'m ipc_effect list \<Rightarrow> 'm multiset" where
  "completions fx = mset (concat (map (\<lambda>e. case e of Complete m reply \<Rightarrow> [m] | _ \<Rightarrow> []) fx))"

lemma completions_simps [simp]:
  "completions [] = {#}" "completions (fx @ gx) = completions fx + completions gx"
  "completions (e # fx) = (case e of Complete m reply \<Rightarrow> {#m#} | _ \<Rightarrow> {#}) + completions fx"
  by (simp_all add: completions_def split: ipc_effect.splits)

definition held_by_engine :: "'m ipc_handler \<Rightarrow> 'm multiset" where
  "held_by_engine st = mset (m_messageQueue st) + IPC_Socket_Handler.in_air (m_messagesInAir st) +
     completions (m_effects st)"

lemma held_emit [simp]: "held_by_engine (emit es st) = held_by_engine st + completions es"
  by (simp add: held_by_engine_def)

lemma held_submit:
  assumes inv: "pool_inv st" and sub: "submit ops m st = Inr st'"
  shows "held_by_engine st' \<subseteq># add_mset m (held_by_engine st)"
  using sub
proof (cases rule: submit_cases)
  case (sent v data)
  then have "m_messagesInAir st v = None" using inv by (auto simp: pool_inv_def)
  with sent show ?thesis by (simp add: held_by_engine_def in_air_insert)
qed (simp_all add: held_by_engine_def)

lemma held_packet:
  assumes inv: "pool_inv st" and step: "handleReassembledMessage ops packet st = Inr st'"
  shows "held_by_engine st' = held_by_engine st"
proof -
  have "held_by_engine st1 = held_by_engine st" if "handleResponse ops aseq m st = Inr st1" for aseq m st1
    using that
  proof (cases rule: handleResponse_cases)
    case (matched request v)
    then show ?thesis
      using in_air_remove [of "m_messagesInAir st" aseq request]
      by (simp add: held_by_engine_def)
  next
    case at_end
    then show ?thesis using inv by (auto simp: pool_inv_def split: if_splits)
  qed simp
  with step show ?thesis
    by (auto simp: handleReassembledMessage_def handleMessage_def split: option.splits if_splits)
qed


text \<open>What is on its way to a completion, and what the RIL expects to be completed.\<close>

definition under_way :: "channel_state \<Rightarrow> tagged multiset" where
  "under_way k = mset (ch_pipe k) + held_by_engine (ch_ipc k) + completions (ch_calls k)"

definition expecting :: "thread list \<Rightarrow> nat list \<Rightarrow> tagged list" where
  "expecting ts ids =
     map (\<lambda>(t, n). (t_message t, Waiting n)) (filter (\<lambda>(t, n). t_reply t = None) (zip ts ids))"

definition expected :: "channel_state \<Rightarrow> tagged multiset" where
  "expected k = mset (subscribed_messages (ril.in_air (y_ril (ch_system k)))) +
     mset (expecting (y_threads (ch_system k)) (ch_ids k))"

definition channel_inv :: "channel_state \<Rightarrow> bool" where
  "channel_inv k \<longleftrightarrow>
     length (ch_ids k) = length (y_threads (ch_system k)) \<and> distinct (ch_ids k) \<and>
     (\<forall>n \<in> set (ch_ids k). n < ch_fresh k) \<and>
     pool_inv (ch_ipc k) \<and> m_effects (ch_ipc k) = [] \<and>
     under_way k \<subseteq># expected k"

lemma subscribed_append: "subscribed_messages (xs @ ys) = subscribed_messages xs @ subscribed_messages ys"
  by (simp add: subscribed_messages_def)

lemma in_subscribed:
  "(m, t) \<in> set (subscribed_messages ms) \<longleftrightarrow> (\<exists>who. t = Subscribed who \<and> (m, who) \<in> set ms)"
  by (force simp: subscribed_messages_def)

lemma mset_subscribed_remove:
  "(m, who) \<in> set ms \<Longrightarrow> mset (subscribed_messages ms) =
     add_mset (m, Subscribed who) (mset (subscribed_messages (remove1 (m, who) ms)))"
proof -
  assume "(m, who) \<in> set ms"
  then have "mset ms = add_mset (m, who) (mset (remove1 (m, who) ms))" by simp
  then have "image_mset (\<lambda>(m, who). (m, Subscribed who)) (mset ms) =
      image_mset (\<lambda>(m, who). (m, Subscribed who)) (add_mset (m, who) (mset (remove1 (m, who) ms)))"
    by (rule arg_cong)
  then show ?thesis by (simp add: subscribed_messages_def)
qed

lemma in_expecting:
  "(m, t) \<in> set (expecting ts ids) \<longleftrightarrow>
     (\<exists>i. i < length ts \<and> i < length ids \<and> t = Waiting (ids ! i) \<and> t_reply (ts ! i) = None \<and> t_message (ts ! i) = m)"
  by (force simp: expecting_def set_zip)

lemma expecting_append:
  "length ids = length ts \<Longrightarrow> expecting (ts @ us) (ids @ ns) = expecting ts ids @ expecting us ns"
  by (simp add: expecting_def)

text \<open>A thread that has its reply is not expecting anything.\<close>

lemma expecting_remove:
  assumes "length ids = length ts" "i < length ts" "t_reply (ts ! i) \<noteq> None"
  shows "expecting (remove_nth i ts) (remove_nth i ids) = expecting ts ids"
proof -
  have "zip ts ids = take i (zip ts ids) @ (ts ! i, ids ! i) # drop (Suc i) (zip ts ids)"
    using assms by (metis id_take_nth_drop length_zip min.idem nth_zip)
  then have "filter (\<lambda>(t, n). t_reply t = None) (zip ts ids) =
      filter (\<lambda>(t, n). t_reply t = None) (take i (zip ts ids) @ drop (Suc i) (zip ts ids))"
    using assms(3) by (metis (mono_tags, lifting) case_prod_conv filter.simps(2) filter_append)
  then show ?thesis
    using assms(1) by (simp add: expecting_def remove_nth_def take_zip drop_zip)
qed

lemma expecting_replied:
  assumes "length ids = length ts" "i < length ts" "t_reply (ts ! i) = None"
  shows "mset (expecting ts ids) =
    add_mset (t_message (ts ! i), Waiting (ids ! i)) (mset (expecting (ts[i := (ts ! i)\<lparr>t_reply := Some r\<rparr>]) ids))"
proof -
  let ?zs = "zip ts ids"
  have split: "?zs = take i ?zs @ (ts ! i, ids ! i) # drop (Suc i) ?zs"
    using assms by (metis id_take_nth_drop length_zip min.idem nth_zip)
  have "zip (ts[i := (ts ! i)\<lparr>t_reply := Some r\<rparr>]) ids = ?zs[i := ((ts ! i)\<lparr>t_reply := Some r\<rparr>, ids ! i)]"
    by (metis list_update_id zip_update)
  also have "\<dots> = take i ?zs @ ((ts ! i)\<lparr>t_reply := Some r\<rparr>, ids ! i) # drop (Suc i) ?zs"
    using assms by (simp add: upd_conv_take_nth_drop)
  finally show ?thesis
    unfolding expecting_def using assms(3) by (subst split) simp
qed


section \<open>The invariant is kept\<close>

definition longer :: "system \<Rightarrow> system \<Rightarrow> bool" where
  "longer c c' \<longleftrightarrow>
     (\<exists>sent. ril.in_air (y_ril c') = ril.in_air (y_ril c) @ sent) \<and>
     (\<exists>new. y_threads c' = y_threads c @ new \<and> length new \<le> 1 \<and> (\<forall>t \<in> set new. t_reply t = None))"

lemma leave_longer:
  assumes "leave r q c = Some c'" "serves T q (y_ril c) \<or> q = Finished (y_ril c)"
  shows "longer c c'"
  using assms by (cases q) (auto simp: longer_def owes_def serves_Executing)

lemma owes_longer: "owes T (y_ril c) s \<Longrightarrow> longer c (c\<lparr>y_ril := s\<rparr>)"
  by (auto simp: longer_def owes_def)

text \<open>What a handler sends is on its way, and expected to be completed.\<close>

lemma left_grows:
  assumes "length (ch_ids k) = length (y_threads c)" and "longer c c'"
  obtains sent new where "new = [] \<or> (\<exists>t. new = [t])" "y_threads c' = y_threads c @ new"
    "under_way (ril_left c c' k) = under_way (k\<lparr>ch_system := c\<rparr>) + mset (subscribed_messages sent)
      + mset (map (\<lambda>t. (t_message t, Waiting (ch_fresh k))) new)"
    "expected (ril_left c c' k) = expected (k\<lparr>ch_system := c\<rparr>) + mset (subscribed_messages sent)
      + mset (map (\<lambda>t. (t_message t, Waiting (ch_fresh k))) new)"
proof -
  from assms(2) obtain sent new where air: "ril.in_air (y_ril c') = ril.in_air (y_ril c) @ sent"
    and new: "y_threads c' = y_threads c @ new" "length new \<le> 1" "\<forall>t \<in> set new. t_reply t = None"
    by (auto simp: longer_def)
  have one: "new = [] \<or> (\<exists>t. new = [t])" using new(2) by (cases new) auto
  have "mset (expecting new (map (\<lambda>_. n) new)) = mset (map (\<lambda>t. (t_message t, Waiting n)) new)" for n
    using one new(3) by (auto simp: expecting_def)
  then have "expected (ril_left c c' k) = expected (k\<lparr>ch_system := c\<rparr>) + mset (subscribed_messages sent)
      + mset (map (\<lambda>t. (t_message t, Waiting (ch_fresh k))) new)"
    using assms(1) by (simp add: expected_def ril_left_def Let_def air new(1) subscribed_append expecting_append)
  moreover have "under_way (ril_left c c' k) = under_way (k\<lparr>ch_system := c\<rparr>) + mset (subscribed_messages sent)
      + mset (map (\<lambda>t. (t_message t, Waiting (ch_fresh k))) new)"
    by (simp add: under_way_def ril_left_def Let_def air new(1))
  ultimately show thesis using that one new(1) by blast
qed

lemma inv_ril_left:
  assumes inv: "channel_inv (k\<lparr>ch_system := c\<rparr>)" and "longer c c'"
  shows "channel_inv (ril_left c c' k)"
proof -
  have len: "length (ch_ids k) = length (y_threads c)" using inv by (simp add: channel_inv_def)
  obtain sent new where one: "new = [] \<or> (\<exists>t. new = [t])" and new: "y_threads c' = y_threads c @ new"
    and grows: "under_way (ril_left c c' k) = under_way (k\<lparr>ch_system := c\<rparr>) + mset (subscribed_messages sent)
      + mset (map (\<lambda>t. (t_message t, Waiting (ch_fresh k))) new)"
    "expected (ril_left c c' k) = expected (k\<lparr>ch_system := c\<rparr>) + mset (subscribed_messages sent)
      + mset (map (\<lambda>t. (t_message t, Waiting (ch_fresh k))) new)"
    by (rule left_grows [OF len assms(2)])
  have "distinct (ch_ids (ril_left c c' k)) \<and> (\<forall>n \<in> set (ch_ids (ril_left c c' k)). n < ch_fresh (ril_left c c' k))
      \<and> length (ch_ids (ril_left c c' k)) = length (y_threads c')"
    using inv one new len by (auto simp: channel_inv_def ril_left_def Let_def)
  moreover have "under_way (ril_left c c' k) \<subseteq># expected (ril_left c c' k)"
    unfolding grows using inv by (simp add: channel_inv_def)
  ultimately show ?thesis
    using inv by (simp add: channel_inv_def) (simp add: ril_left_def Let_def)
qed

lemma inv_engine_done:
  assumes "channel_inv k" "pool_inv st" "held_by_engine st + mset pipe \<subseteq># under_way k"
  shows "channel_inv (engine_done st (k\<lparr>ch_pipe := pipe\<rparr>))"
proof -
  have "under_way (engine_done st (k\<lparr>ch_pipe := pipe\<rparr>)) = held_by_engine st + mset pipe"
    by (simp add: under_way_def engine_done_def held_by_engine_def)
  moreover have "pool_inv (st\<lparr>m_effects := []\<rparr>)" using assms(2) by (simp add: pool_inv_def)
  ultimately show ?thesis
    using assms(1,3) by (auto simp: channel_inv_def engine_done_def expected_def)
qed

text \<open>A completion that the worker thread is about to call was expected.\<close>

lemma expected_completion:
  assumes "channel_inv k" "ch_calls k = Complete x reply # es"
  shows "x \<in># expected k"
proof -
  have "x \<in># under_way k" using assms(2) by (simp add: under_way_def)
  with assms(1) show ?thesis by (auto simp: channel_inv_def dest: mset_subset_eqD)
qed

lemma expected_subscriber:
  assumes "channel_inv k" "ch_calls k = Complete (m, Subscribed who) reply # es"
  shows "(m, who) \<in> set (ril.in_air (y_ril (ch_system k)))"
  using expected_completion [OF assms] by (auto simp: expected_def in_subscribed in_expecting)

lemma expected_thread:
  assumes "channel_inv k" "ch_calls k = Complete (m, Waiting n) reply # es"
  obtains i where "i < length (y_threads (ch_system k))" "ch_ids k ! i = n"
    "t_reply (y_threads (ch_system k) ! i) = None" "t_message (y_threads (ch_system k) ! i) = m"
  using expected_completion [OF assms] that by (auto simp: expected_def in_subscribed in_expecting)

lemma expected_thread_at:
  assumes "channel_inv k" "ch_calls k = Complete (m, Waiting n) reply # es"
    and i: "i < length (ch_ids k)" "ch_ids k ! i = n"
  shows "i < length (y_threads (ch_system k)) \<and> t_reply (y_threads (ch_system k) ! i) = None
    \<and> t_message (y_threads (ch_system k) ! i) = m"
proof -
  obtain j where j: "j < length (y_threads (ch_system k))" "ch_ids k ! j = n"
    "t_reply (y_threads (ch_system k) ! j) = None" "t_message (y_threads (ch_system k) ! j) = m"
    by (rule expected_thread [OF assms(1,2)])
  moreover have "j = i"
    using assms(1) i j(1,2) nth_eq_iff_index_eq [of "ch_ids k" j i] by (simp add: channel_inv_def)
  ultimately show ?thesis by simp
qed

text \<open>A completion that is called is no longer on its way and no longer expected.\<close>

lemma completion_shrinks:
  assumes inv: "channel_inv k" and calls: "ch_calls k = Complete (m, Subscribed who) reply # es"
    and s: "s = (y_ril (ch_system k))\<lparr>ril.in_air := remove1 (m, who) (ril.in_air (y_ril (ch_system k)))\<rparr>"
  shows "under_way k = add_mset (m, Subscribed who)
      (under_way (k\<lparr>ch_calls := es, ch_system := (ch_system k)\<lparr>y_ril := s\<rparr>\<rparr>))"
    and "expected k = add_mset (m, Subscribed who)
      (expected (k\<lparr>ch_calls := es, ch_system := (ch_system k)\<lparr>y_ril := s\<rparr>\<rparr>))"
  using mset_subscribed_remove [OF expected_subscriber [OF inv calls]]
  by (simp_all add: under_way_def expected_def calls s)

lemma inv_called_completion:
  assumes inv: "channel_inv k" and calls: "ch_calls k = Complete (m, Subscribed who) reply # es"
    and s: "s = (y_ril (ch_system k))\<lparr>ril.in_air := remove1 (m, who) (ril.in_air (y_ril (ch_system k)))\<rparr>"
  shows "channel_inv (k\<lparr>ch_calls := es, ch_system := (ch_system k)\<lparr>y_ril := s\<rparr>\<rparr>)"
proof -
  let ?k = "k\<lparr>ch_calls := es, ch_system := (ch_system k)\<lparr>y_ril := s\<rparr>\<rparr>"
  from completion_shrinks [OF assms] have "under_way ?k \<subseteq># expected ?k" using inv by (simp add: channel_inv_def)
  with inv show ?thesis by (simp add: channel_inv_def)
qed

abbreviation replied :: "nat \<Rightarrow> wire_message option \<Rightarrow> tagged ipc_effect list \<Rightarrow> channel_state \<Rightarrow> channel_state" where
  "replied i r es k \<equiv> k\<lparr>ch_calls := es,
     ch_system := (ch_system k)
       \<lparr>y_threads := (y_threads (ch_system k))[i := (y_threads (ch_system k) ! i)\<lparr>t_reply := Some r\<rparr>],
        y_giving := True\<rparr>\<rparr>"

lemma execution_shrinks:
  assumes inv: "channel_inv k" and calls: "ch_calls k = Complete (m, Waiting n) reply # es"
    and i: "i < length (ch_ids k)" "ch_ids k ! i = n"
  shows "under_way k = add_mset (m, Waiting n) (under_way (replied i r es k))"
    and "expected k = add_mset (m, Waiting n) (expected (replied i r es k))"
proof -
  have t: "i < length (y_threads (ch_system k))" "t_reply (y_threads (ch_system k) ! i) = None"
    "t_message (y_threads (ch_system k) ! i) = m"
    using expected_thread_at [OF inv calls i] by auto
  have len: "length (ch_ids k) = length (y_threads (ch_system k))" using inv by (simp add: channel_inv_def)
  show "under_way k = add_mset (m, Waiting n) (under_way (replied i r es k))"
    by (simp add: under_way_def calls)
  show "expected k = add_mset (m, Waiting n) (expected (replied i r es k))"
    using expecting_replied [OF len t(1,2), of r] t(3) i(2) by (simp add: expected_def)
qed

lemma inv_called_execution:
  assumes inv: "channel_inv k" and calls: "ch_calls k = Complete (m, Waiting n) reply # es"
    and i: "i < length (ch_ids k)" "ch_ids k ! i = n"
  shows "channel_inv (replied i r es k)"
proof -
  from execution_shrinks [OF assms, of r] have "under_way (replied i r es k) \<subseteq># expected (replied i r es k)"
    using inv by (simp add: channel_inv_def)
  with inv show ?thesis by (simp add: channel_inv_def)
qed

lemma inv_fewer_calls:
  assumes "channel_inv k" "ch_calls k = e # es"
  shows "channel_inv (k\<lparr>ch_calls := es\<rparr>)"
proof -
  have "under_way (k\<lparr>ch_calls := es\<rparr>) \<subseteq># under_way k"
    using assms(2) by (simp add: under_way_def)
  moreover have "expected (k\<lparr>ch_calls := es\<rparr>) = expected k" by (simp add: expected_def)
  ultimately show ?thesis using assms(1) by (auto simp: channel_inv_def)
qed

lemma inv_resumed:
  assumes inv: "channel_inv k" and i: "i < length (y_threads (ch_system k))"
    "t_reply (y_threads (ch_system k) ! i) = Some reply"
  shows "channel_inv (k\<lparr>ch_ids := remove_nth i (ch_ids k), ch_system := (ch_system k)
      \<lparr>y_threads := remove_nth i (y_threads (ch_system k)), y_semaphore := n\<rparr>\<rparr>)" (is "channel_inv ?k")
proof -
  have len: "length (ch_ids k) = length (y_threads (ch_system k))" using inv by (simp add: channel_inv_def)
  have "under_way ?k = under_way k" by (simp add: under_way_def)
  moreover have "expected ?k = expected k"
    using expecting_remove [OF len i(1)] i(2) by (simp add: expected_def)
  moreover have "distinct (remove_nth i (ch_ids k))" "set (remove_nth i (ch_ids k)) \<subseteq> set (ch_ids k)"
    using inv remove_nth_facts(2) [of i "ch_ids k"] i(1) len
    by (auto simp: remove_nth_def channel_inv_def set_take_disj_set_drop_if_distinct)
  ultimately show ?thesis
    using inv i(1) by (auto simp: channel_inv_def remove_nth_facts(3))
qed


section \<open>Simulation\<close>

definition simulated ::
    "ril_abi \<Rightarrow> platform \<Rightarrow> 'p parcel_api \<Rightarrow> bool \<Rightarrow> channel_state \<Rightarrow> bool"
where
  "simulated abi p api serial k \<longleftrightarrow>
     channel_inv k \<and> reachable_system abi p api serial (ch_system k)"

lemma simulated_ril_step:
  assumes "simulated abi p api serial k" "ril_step abi p api serial (ch_system k) (ch_system k')"
    and "channel_inv k'"
  shows "simulated abi p api serial k'"
  using assms by (auto simp: simulated_def)

lemma ch_system_left [simp]: "ch_system (ril_left c c' k) = c'"
  by (simp add: ril_left_def Let_def)

lemma simulated_asked:
  assumes sim: "simulated abi p api serial k" and serial: "serial \<Longrightarrow> y_threads (ch_system k) = []"
    and c: "c = (ch_system k)\<lparr>y_received := r # y_received (ch_system k)\<rparr>"
    and left: "leave r (handle_request abi p api r (y_ril (ch_system k))) c = Some c'"
  shows "simulated abi p api serial (ril_left c c' k)"
proof (rule simulated_ril_step [OF sim])
  have "longer c c'"
    using leave_longer [OF left] forgotten_request [of r abi p api "y_ril (ch_system k)"]
    by (auto simp: c)
  moreover have "channel_inv (k\<lparr>ch_system := c\<rparr>)"
    using sim by (simp add: simulated_def channel_inv_def under_way_def expected_def c)
  ultimately show "channel_inv (ril_left c c' k)" by (intro inv_ril_left)
  show "ril_step abi p api serial (ch_system k) (ch_system (ril_left c c' k))"
    unfolding ch_system_left
    by (rule ril_step.request [OF _ left [unfolded c]]) (use serial in simp)
qed

lemma simulated_resumed:
  assumes sim: "simulated abi p api serial k" and i: "i < length (y_threads (ch_system k))"
    and sem: "y_semaphore (ch_system k) = Suc n"
    and reply: "t_reply (y_threads (ch_system k) ! i) = Some reply"
    and c: "c = (ch_system k)\<lparr>y_threads := remove_nth i (y_threads (ch_system k)), y_semaphore := n\<rparr>"
    and left: "leave (t_request (y_threads (ch_system k) ! i))
       (t_continue (y_threads (ch_system k) ! i) reply (y_ril (ch_system k))) c = Some c'"
  shows "simulated abi p api serial (ril_left c c' (k\<lparr>ch_ids := remove_nth i (ch_ids k)\<rparr>))"
proof (rule simulated_ril_step [OF sim])
  have "sound_system (ch_system k)"
    by (rule sound_reachable [of abi p api serial]) (use sim in \<open>simp add: simulated_def\<close>)
  then have "serves {#r_token (t_request (y_threads (ch_system k) ! i))#}
      (t_continue (y_threads (ch_system k) ! i) reply (y_ril c)) (y_ril c)"
    using i by (simp add: sound_system_def sound_thread_def)
  moreover have "y_ril c = y_ril (ch_system k)" by (simp add: c)
  ultimately have "longer c c'"
    using leave_longer [OF left, of "{#r_token (t_request (y_threads (ch_system k) ! i))#}"] by simp
  moreover have "channel_inv k" using sim by (simp add: simulated_def)
  ultimately show "channel_inv (ril_left c c' (k\<lparr>ch_ids := remove_nth i (ch_ids k)\<rparr>))"
    using inv_resumed [OF _ i reply, of n] c by (intro inv_ril_left) simp_all
  show "ril_step abi p api serial (ch_system k)
      (ch_system (ril_left c c' (k\<lparr>ch_ids := remove_nth i (ch_ids k)\<rparr>)))"
    unfolding ch_system_left by (rule ril_step.taken [OF i sem reply left [unfolded c]])
qed

lemma simulated_engine:
  assumes sim: "simulated abi p api serial k" and calls: "ch_calls k = []" and "pool_inv st"
    and "held_by_engine st + mset pipe \<subseteq># mset (ch_pipe k) + held_by_engine (ch_ipc k)"
  shows "simulated abi p api serial (engine_done st (k\<lparr>ch_pipe := pipe\<rparr>))"
  using sim assms(3,4) inv_engine_done [of k st pipe]
  by (simp add: simulated_def under_way_def calls) (simp add: engine_done_def)

lemma simulated_completion:
  assumes sim: "simulated abi p api serial k" and idle: "\<not> y_giving (ch_system k)" and calls: "ch_calls k = Complete (m, Subscribed who) reply # es"
    and s: "s = (y_ril (ch_system k))\<lparr>ril.in_air := remove1 (m, who) (ril.in_air (y_ril (ch_system k)))\<rparr>"
    and run: "complete_message p who (map_option fst reply) s = Finished s'"
  shows "simulated abi p api serial
    (ril_left ((ch_system k)\<lparr>y_ril := s\<rparr>) ((ch_system k)\<lparr>y_ril := s'\<rparr>) (k\<lparr>ch_calls := es\<rparr>))"
proof (rule simulated_ril_step [OF sim])
  have inv: "channel_inv k" using sim by (simp add: simulated_def)
  have "owes (tokens (pending_token who)) s s'"
    using completion_immediate(1) [of who p "map_option fst reply" s] run by simp
  then have "longer ((ch_system k)\<lparr>y_ril := s\<rparr>) ((ch_system k)\<lparr>y_ril := s'\<rparr>)"
    using owes_longer [of _ "(ch_system k)\<lparr>y_ril := s\<rparr>" s'] by simp
  with inv_called_completion [OF inv calls s] show "channel_inv
      (ril_left ((ch_system k)\<lparr>y_ril := s\<rparr>) ((ch_system k)\<lparr>y_ril := s'\<rparr>) (k\<lparr>ch_calls := es\<rparr>))"
    by (intro inv_ril_left) simp_all
  obtain before after where
    air: "ril.in_air (y_ril (ch_system k)) = before @ (m, who) # after" "(m, who) \<notin> set before"
    using split_list_first [OF expected_subscriber [OF inv calls]] by blast
  have "s = (y_ril (ch_system k))\<lparr>ril.in_air := before @ after\<rparr>"
    using air by (simp add: s remove1_append)
  from ril_step.completed [OF idle air(1) run [unfolded this]]
  show "ril_step abi p api serial (ch_system k) (ch_system
      (ril_left ((ch_system k)\<lparr>y_ril := s\<rparr>) ((ch_system k)\<lparr>y_ril := s'\<rparr>) (k\<lparr>ch_calls := es\<rparr>)))"
    by simp
qed

lemma simulated_execution:
  assumes sim: "simulated abi p api serial k" and idle: "\<not> y_giving (ch_system k)" and calls: "ch_calls k = Complete (m, Waiting n) reply # es"
    and i: "i < length (ch_ids k)" "ch_ids k ! i = n"
  shows "simulated abi p api serial (replied i r es k)" (is "simulated _ _ _ _ ?k")
proof (rule simulated_ril_step [OF sim])
  have inv: "channel_inv k" using sim by (simp add: simulated_def)
  show "channel_inv ?k" by (rule inv_called_execution [OF inv calls i])
  show "ril_step abi p api serial (ch_system k) (ch_system ?k)"
    using ril_step.onExecutionComplete [OF idle, of i] expected_thread_at [OF inv calls i] by simp
qed

lemma inv_given:
  "channel_inv (k\<lparr>ch_system := (ch_system k)\<lparr>y_semaphore := n, y_giving := g\<rparr>\<rparr>) = channel_inv k"
  by (simp add: channel_inv_def under_way_def expected_def)

lemma simulated_given:
  assumes sim: "simulated abi p api serial k" and giving: "y_giving (ch_system k)"
  shows "simulated abi p api serial (k\<lparr>ch_system := (ch_system k)
    \<lparr>y_semaphore := Suc (y_semaphore (ch_system k)), y_giving := False\<rparr>\<rparr>)"
  using sim ril_step.given [OF giving, of abi p api serial]
  by (intro simulated_ril_step [OF sim]) (simp_all add: simulated_def inv_given)

lemma simulated_delivery:
  assumes sim: "simulated abi p api serial k" and idle: "\<not> y_giving (ch_system k)" and calls: "ch_calls k = Deliver (m, t) # es"
    and run: "deliver p api m (y_ril (ch_system k)) = Finished s"
  shows "simulated abi p api serial (ril_left (ch_system k) ((ch_system k)\<lparr>y_ril := s\<rparr>) (k\<lparr>ch_calls := es\<rparr>))"
proof (rule simulated_ril_step [OF sim])
  have "owes {#} (y_ril (ch_system k)) s"
    using deliver_immediate(1) [of p api m "y_ril (ch_system k)"] run by simp
  moreover have "channel_inv (k\<lparr>ch_calls := es\<rparr>)"
    using inv_fewer_calls [OF _ calls] sim by (simp add: simulated_def)
  ultimately show "channel_inv (ril_left (ch_system k) ((ch_system k)\<lparr>y_ril := s\<rparr>) (k\<lparr>ch_calls := es\<rparr>))"
    by (intro inv_ril_left owes_longer) simp_all
  show "ril_step abi p api serial (ch_system k)
      (ch_system (ril_left (ch_system k) ((ch_system k)\<lparr>y_ril := s\<rparr>) (k\<lparr>ch_calls := es\<rparr>)))"
    unfolding ch_system_left by (rule ril_step.delivered [OF idle run])
qed

lemma simulated_step:
  assumes sim: "simulated abi p api serial k" and step: "channel_step abi p api serial k k'"
  shows "simulated abi p api serial k'"
  using step
proof cases
  case (asked c r c')
  show ?thesis unfolding asked(1) by (rule simulated_asked [OF sim asked(2-4)])
next
  case (resumed i n reply c c')
  show ?thesis unfolding resumed(1) by (rule simulated_resumed [OF sim resumed(2-6)])
next
  case (submitted m rest st)
  have inv: "pool_inv (ch_ipc k)" using sim by (simp add: simulated_def channel_inv_def)
  show ?thesis unfolding submitted(1)
  proof (rule simulated_engine [OF sim submitted(3) pool_inv_submit [OF inv submitted(5)]])
    have "held_by_engine st + mset rest \<subseteq># add_mset m (held_by_engine (ch_ipc k)) + mset rest"
      using held_submit [OF inv submitted(5)] by (rule subset_mset.add_right_mono)
    then show "held_by_engine st + mset rest \<subseteq># mset (ch_pipe k) + held_by_engine (ch_ipc k)"
      using submitted(4) by (simp add: ac_simps)
  qed
next
  case (arrived packet st)
  have inv: "pool_inv (ch_ipc k)" using sim by (simp add: simulated_def channel_inv_def)
  have st: "ipc_step tagged_ops (Packet packet) (ch_ipc k) = Inr st" using arrived(4) by simp
  have "simulated abi p api serial (engine_done st (k\<lparr>ch_pipe := ch_pipe k\<rparr>))"
  proof (rule simulated_engine [OF sim arrived(3) pool_inv_step [OF inv st]])
    show "held_by_engine st + mset (ch_pipe k) \<subseteq># mset (ch_pipe k) + held_by_engine (ch_ipc k)"
      using held_packet [OF inv arrived(4)] by (simp add: add.commute)
  qed
  then show ?thesis unfolding arrived(1) by simp
next
  case (called_completion m who reply es s s')
  show ?thesis unfolding called_completion(1) by (rule simulated_completion [OF sim called_completion(2-5)])
next
  case (called_execution m n reply es i)
  show ?thesis unfolding called_execution(1) by (rule simulated_execution [OF sim called_execution(2-5)])
next
  case semaphore_given
  show ?thesis unfolding semaphore_given(1) by (rule simulated_given [OF sim semaphore_given(2)])
next
  case (called_delivery m t es s)
  show ?thesis unfolding called_delivery(1) by (rule simulated_delivery [OF sim called_delivery(2-4)])
next
  case (called_nothing e es)
  then show ?thesis using sim inv_fewer_calls [of k e es] by (simp add: simulated_def)
qed

lemma simulated_initially: "simulated abi p api serial initial_channel"
proof -
  have "held_by_engine (IPCSocketHandler :: tagged ipc_handler) = {#}" "m_effects (IPCSocketHandler :: tagged ipc_handler) = []"
    by (simp_all add: held_by_engine_def IPCSocketHandler_def Let_def IPC_Socket_Handler.in_air_def del: upt.simps)
  then show ?thesis
    by (simp add: simulated_def channel_inv_def initial_channel_def pool_inv_init initial_system_def under_way_def)
qed

lemma simulated_reachable: "reachable_channel abi p api serial k \<Longrightarrow> simulated abi p api serial k"
  by (induction rule: rtranclp_induct) (auto intro: simulated_initially simulated_step)


section \<open>Nothing but requests is completed\<close>

lemma expected_sendable:
  assumes "simulated abi p api serial k" "(m, t) \<in># expected k"
  shows "marshals m \<and> (t = Subscribed Unsubscribed) = (\<not> expects_response m)"
proof -
  have "sound_system (ch_system k)"
    by (rule sound_reachable [of abi p api serial]) (use assms(1) in \<open>simp add: simulated_def\<close>)
  with assms(2) nth_mem show ?thesis
    by (fastforce simp: expected_def in_subscribed in_expecting sound_system_def sound_thread_def)
qed

lemma under_way_expected: "simulated abi p api serial k \<Longrightarrow> x \<in># under_way k \<Longrightarrow> x \<in># expected k"
  by (auto simp: simulated_def channel_inv_def dest: mset_subset_eqD)

lemma tagged_event: "m_requestType tagged_ops (m, t) = IPC_CMD_EVENT_code \<longleftrightarrow> \<not> expects_response m"
  by (cases "c_op (w_class m)") (simp_all add: tagged_ops_def wire_ops_def expects_response_def IPC_CMD_EVENT_code_def)

text \<open>What the engine holds under a number or has completed.\<close>

definition answered_by_engine :: "'m ipc_handler \<Rightarrow> 'm multiset" where
  "answered_by_engine st = IPC_Socket_Handler.in_air (m_messagesInAir st) + completions (m_effects st)"

lemma answered_submit:
  assumes inv: "pool_inv st" and sub: "submit ops m st = Inr st'" and data: "writeMessage ops m \<noteq> None"
  shows "answered_by_engine st' \<subseteq>#
    answered_by_engine st + (if m_requestType ops m = IPC_CMD_EVENT_code then {#} else {#m#})"
  using sub
proof (cases rule: submit_cases)
  case (sent v data)
  then have "m_messagesInAir st v = None" using inv by (auto simp: pool_inv_def)
  with sent show ?thesis by (simp add: answered_by_engine_def in_air_insert)
qed (use data in \<open>simp_all add: answered_by_engine_def\<close>)

lemma answered_packet:
  assumes inv: "pool_inv st" and step: "handleReassembledMessage ops packet st = Inr st'"
  shows "answered_by_engine st' = answered_by_engine st"
proof -
  have "answered_by_engine st1 = answered_by_engine st" if "handleResponse ops aseq m st = Inr st1" for aseq m st1
    using that
  proof (cases rule: handleResponse_cases)
    case (matched request v)
    then show ?thesis
      using in_air_remove [of "m_messagesInAir st" aseq request] by (simp add: answered_by_engine_def)
  next
    case at_end
    then show ?thesis using inv by (auto simp: pool_inv_def split: if_splits)
  qed (simp add: answered_by_engine_def)
  with step show ?thesis
    by (auto simp: handleReassembledMessage_def handleMessage_def answered_by_engine_def split: option.splits if_splits)
qed

definition requests_only :: "channel_state \<Rightarrow> bool" where
  "requests_only k \<longleftrightarrow>
     (\<forall>x \<in># answered_by_engine (ch_ipc k) + completions (ch_calls k). expects_response (fst x))"

lemma requests_only_left [simp]: "requests_only (ril_left c c' k) = requests_only k"
  by (simp add: requests_only_def ril_left_def Let_def)

lemma requests_only_system [simp]: "requests_only (k\<lparr>ch_system := c\<rparr>) = requests_only k"
  "requests_only (k\<lparr>ch_ids := ids\<rparr>) = requests_only k"
  by (simp_all add: requests_only_def)

lemma requests_only_fewer: "requests_only k \<Longrightarrow> ch_calls k = e # es \<Longrightarrow> requests_only (k\<lparr>ch_calls := es\<rparr>)"
  by (auto simp: requests_only_def)

lemma requests_only_engine:
  assumes "\<forall>x \<in># answered_by_engine st. expects_response (fst x)"
  shows "requests_only (engine_done st (k\<lparr>ch_pipe := pipe\<rparr>))"
  using assms by (auto simp: requests_only_def engine_done_def answered_by_engine_def)

lemma requests_only_step:
  assumes sim: "simulated abi p api serial k" and only: "requests_only k"
    and step: "channel_step abi p api serial k k'"
  shows "requests_only k'"
  using step
proof cases
  case (submitted m rest st)
  have "m \<in># expected k" using submitted(4) by (intro under_way_expected [OF sim]) (simp add: under_way_def)
  then have "writeMessage tagged_ops m \<noteq> None"
    using expected_sendable [OF sim, of "fst m" "snd m"] by (simp add: marshals_def tagged_ops_def split_beta)
  moreover have "pool_inv (ch_ipc k)" using sim by (simp add: simulated_def channel_inv_def)
  ultimately have "answered_by_engine st \<subseteq># answered_by_engine (ch_ipc k) +
      (if m_requestType tagged_ops m = IPC_CMD_EVENT_code then {#} else {#m#})"
    by (intro answered_submit [OF _ submitted(5)])
  then have "expects_response (fst x)" if "x \<in># answered_by_engine st" for x
    using mset_subset_eqD [OF _ that] only tagged_event [of "fst m" "snd m"]
    by (fastforce simp: requests_only_def split: if_splits)
  then show ?thesis unfolding submitted(1) by (intro requests_only_engine) blast
next
  case (arrived packet st)
  have "pool_inv (ch_ipc k)" using sim by (simp add: simulated_def channel_inv_def)
  from answered_packet [OF this arrived(4)] have "requests_only (engine_done st (k\<lparr>ch_pipe := ch_pipe k\<rparr>))"
    using only by (intro requests_only_engine) (simp add: requests_only_def)
  then show ?thesis unfolding arrived(1) by simp
next
  case (called_completion m who reply es s s')
  then show ?thesis using requests_only_fewer [OF only] by simp
next
  case (called_execution m n reply es i)
  then show ?thesis using requests_only_fewer [OF only] by simp
next
  case (called_delivery m t es s)
  then show ?thesis using requests_only_fewer [OF only] by simp
next
  case (called_nothing e es)
  then show ?thesis using requests_only_fewer [OF only] by simp
qed (use only in simp_all)

lemma requests_only_reachable: "reachable_channel abi p api serial k \<Longrightarrow> requests_only k"
proof (induction rule: rtranclp_induct)
  case base
  show ?case
    by (simp add: requests_only_def answered_by_engine_def initial_channel_def IPCSocketHandler_def Let_def
        IPC_Socket_Handler.in_air_def del: upt.simps)
next
  case (step k k')
  from requests_only_step [OF simulated_reachable [OF step.hyps(1)] step.IH step.hyps(2)] show ?case .
qed

section \<open>A query answered by the modem\<close>

text \<open>
  The modem reports a card that is ready, Android asks for the mute state, and the modem answers: up
  to the point where the worker thread calls the completion of the query.
\<close>

abbreviation mute_channel_step :: "channel_state \<Rightarrow> channel_state \<Rightarrow> bool" where
  "mute_channel_step \<equiv> channel_step ril_h quiet_platform byte_parcels True"

abbreviation fresh_engine :: "tagged ipc_handler" where "fresh_engine \<equiv> IPCSocketHandler"

definition card_ready_packet :: "byte list" where "card_ready_packet = [9, 0, 0, 0, 5, 1, 3, 0, 0]"

lemma no_effects_yet: "(emit es fresh_engine)\<lparr>m_effects := []\<rparr> = fresh_engine"
  by (simp add: emit_def IPCSocketHandler_def Let_def del: upt.simps)

lemma card_ready_arrives:
  "handleReassembledMessage tagged_ops card_ready_packet st =
     Inr (emit [Deliver (card_ready, Received), DeleteIncoming (card_ready, Received)] st)"
proof -
  have "case create tagged_ops 5 1 of None \<Rightarrow> False
      | Some m \<Rightarrow> readMessage tagged_ops m [0, 0] = Some (card_ready, Received)"
    "m_unsolicited tagged_ops (card_ready, Received)"
    "header_of card_ready_packet = \<lparr>h_length = 9, h_mseq = 0, h_aseq = 0, h_mainCommand = 5, h_subCommand = 1,
       h_responseType = 3\<rparr>"
    by code_simp+
  then show ?thesis
    by (auto simp: handleReassembledMessage_def handleMessage_def card_ready_packet_def ipc_header_size_def
        IPC_CMD_NOTI_def split: option.splits)
qed

definition ready_channel :: channel_state where
  "ready_channel = initial_channel\<lparr>ch_system := initial_system\<lparr>y_ril := ril_ready\<rparr>, ch_fresh := 1\<rparr>"

lemma ready_channel_reached: "mute_channel_step\<^sup>*\<^sup>* initial_channel ready_channel"
proof -
  let ?calls = "[Deliver (card_ready, Received), DeleteIncoming (card_ready, Received)] :: tagged ipc_effect list"
  let ?k1 = "initial_channel\<lparr>ch_calls := ?calls\<rparr>"
  let ?k2 = "ready_channel\<lparr>ch_calls := [DeleteIncoming (card_ready, Received)]\<rparr>"
  have "mute_channel_step initial_channel (engine_done (emit ?calls (ch_ipc initial_channel)) initial_channel)"
    by (rule arrived [OF _ _ card_ready_arrives]) (simp_all add: initial_channel_def initial_system_def)
  moreover have "engine_done (emit ?calls (ch_ipc initial_channel)) initial_channel = ?k1"
    using no_effects_yet [of ?calls]
    by (simp add: engine_done_def initial_channel_def) (simp add: IPCSocketHandler_def Let_def del: upt.simps)
  ultimately have step1: "mute_channel_step initial_channel ?k1" by simp
  have "deliver quiet_platform byte_parcels card_ready (y_ril (ch_system ?k1)) = Finished ril_ready"
    by (simp add: deliver_def unsolicited_handlers_def card_ready_def find_outgoing
        handle_SecGetPinStatusReply_def pin_status_received_def radio_state_of_def member_u8_def
        PinStatus_Ready_def ril_ready_def initial_system_def initial_channel_def)
  from called_delivery [OF _ _ this] have step2: "mute_channel_step ?k1 ?k2"
    by (simp add: ril_left_def Let_def ready_channel_def initial_channel_def initial_system_def
        subscribed_messages_def ril_ready_def setRadioState_def initial_ril_def unsolicited_def effect_def)
  have step3: "mute_channel_step ?k2 ready_channel"
    using called_nothing [of ?k2 "DeleteIncoming (card_ready, Received)" "[]"]
    by (simp add: ready_channel_def initial_channel_def initial_system_def)
  from step1 step2 step3 show ?thesis
    by (meson converse_rtranclp_into_rtranclp rtranclp.rtrancl_refl)
qed


definition mute_query :: tagged where "mute_query = (mic_mute_request, Waiting 1)"

definition asking_channel :: channel_state where
  "asking_channel = initial_channel\<lparr>ch_system := one_waiting, ch_ids := [1], ch_fresh := 2, ch_pipe := [mute_query]\<rparr>"

lemma one_waiting_idle [simp]: "\<not> y_giving one_waiting"
  by (simp add: one_waiting_def)

lemma waiting_message: "t_message (waiting_thread n) = mic_mute_request" "t_reply (waiting_thread n) = None"
  by (simp_all add: waiting_thread_def handleGetMute_def query_def mic_mute_request_def outgoing_def find_outgoing)

lemma mute_asked: "mute_channel_step ready_channel asking_channel"
proof -
  let ?c = "(ch_system ready_channel)\<lparr>y_received := mute_request 1 # y_received (ch_system ready_channel)\<rparr>"
  have "leave (mute_request 1)
      (handle_request ril_h quiet_platform byte_parcels (mute_request 1) (y_ril (ch_system ready_channel))) ?c =
      Some one_waiting"
    by (simp add: ready_channel_def mute_request_handled ril_ready_state mute_leaves initial_system_def one_waiting_def)
  from asked [OF _ refl this] have "mute_channel_step ready_channel (ril_left ?c one_waiting ready_channel)"
    by (simp add: ready_channel_def initial_system_def)
  moreover have "ril_left ?c one_waiting ready_channel = asking_channel"
    by (simp add: ril_left_def Let_def ready_channel_def one_waiting_def asking_channel_def initial_channel_def
        initial_system_def subscribed_messages_def waiting_message mute_query_def)
  ultimately show ?thesis by simp
qed

definition mute_answer :: "byte \<Rightarrow> byte list" where
  "mute_answer v = header_bytes (mic_mute_header v) @ [1]"

lemma mute_engine:
  obtains v st data where "submit tagged_ops mute_query fresh_engine = Inr (emit [SendData data] st)"
    "m_effects st = []" "handleReassembledMessage tagged_ops (mute_answer v) st =
      Inr (emit [Complete mute_query (Some (mic_mute_reply, Received)), DeleteRequest mute_query]
        (st\<lparr>m_freeSequenceNumbers := insort_insert v (m_freeSequenceNumbers st),
            m_messagesInAir := (m_messagesInAir st)(v := None)\<rparr>))"
proof -
  have ops: "writeMessage tagged_ops mute_query = Some []" "m_requestType tagged_ops mute_query \<noteq> IPC_CMD_EVENT_code"
    using mic_mute_request_data(1,2) by (simp_all add: tagged_ops_def mute_query_def)
  have "m_freeSequenceNumbers fresh_engine \<noteq> []"
    using initial_handler(1) [where 'a = tagged] by (metis list.size(3) zero_neq_numeral)
  from submit_progress [OF pool_inv_init this ops(1) _ ops(2)] obtain v where
    v: "v \<in> set (m_freeSequenceNumbers fresh_engine)" and sub: "submit tagged_ops mute_query fresh_engine =
      Inr (emit [SendData (header_bytes (make_header tagged_ops v mute_query []))] (allocated v mute_query fresh_engine))"
    by auto
  let ?st = "allocated v mute_query fresh_engine"
  have "pool_inv ?st" using pool_inv_submit [OF pool_inv_init sub] by simp
  moreover have "length (m_freeSequenceNumbers ?st) = 254"
    using v initial_handler(1) [where 'a = tagged] by (simp add: length_remove1)
  then have "m_freeSequenceNumbers ?st \<noteq> []" by auto
  ultimately obtain x where x: "m_allocationIterator ?st = At x" by (auto simp: pool_inv_def)
  have "create tagged_ops 9 2 = Some (mic_mute_reply\<lparr>w_object := []\<rparr>, Received)"
    "readMessage tagged_ops (mic_mute_reply\<lparr>w_object := []\<rparr>, Received) [1] = Some (mic_mute_reply, Received)"
    using mic_mute_reply_data by (simp_all add: tagged_ops_def)
  then have "handleReassembledMessage tagged_ops (mute_answer v) ?st = handleResponse tagged_ops v (mic_mute_reply, Received) ?st"
    unfolding mute_answer_def
    by (subst response_decoded [where r = "(mic_mute_reply, Received)"])
      (simp_all add: mic_mute_header_def IPC_CMD_RESP_def)
  also have "\<dots> = Inr (emit [Complete mute_query (Some (mic_mute_reply, Received)), DeleteRequest mute_query]
      (?st\<lparr>m_freeSequenceNumbers := insort_insert v (m_freeSequenceNumbers ?st),
           m_messagesInAir := (m_messagesInAir ?st)(v := None)\<rparr>))"
    using x by (simp add: handleResponse_def Let_def)
  finally have answer: "handleReassembledMessage tagged_ops (mute_answer v) ?st = \<dots>" .
  show thesis by (rule that [OF sub _ answer]) (simp add: initial_handler)
qed


lemma mute_completed:
  obtains k es where "mute_channel_step\<^sup>*\<^sup>* initial_channel k" "ch_system k = one_waiting" "ch_ids k = [1]"
    "ch_calls k = Complete mute_query (Some (mic_mute_reply, Received)) # es"
proof -
  obtain v st data where sub: "submit tagged_ops mute_query fresh_engine = Inr (emit [SendData data] st)"
    and st: "m_effects st = []" "handleReassembledMessage tagged_ops (mute_answer v) st =
      Inr (emit [Complete mute_query (Some (mic_mute_reply, Received)), DeleteRequest mute_query]
        (st\<lparr>m_freeSequenceNumbers := insort_insert v (m_freeSequenceNumbers st),
            m_messagesInAir := (m_messagesInAir st)(v := None)\<rparr>))"
    by (rule mute_engine)
  let ?k5 = "asking_channel\<lparr>ch_pipe := [], ch_ipc := st, ch_calls := [SendData data]\<rparr>"
  let ?k6 = "asking_channel\<lparr>ch_pipe := [], ch_ipc := st, ch_calls := []\<rparr>"
  have "mute_channel_step asking_channel (engine_done (emit [SendData data] st) (asking_channel\<lparr>ch_pipe := []\<rparr>))"
    by (rule submitted [where m = mute_query]) (simp_all add: asking_channel_def initial_channel_def sub)
  moreover have "st\<lparr>m_effects := []\<rparr> = st" using st(1) by (cases st) simp
  ultimately have step5: "mute_channel_step asking_channel ?k5"
    by (simp add: engine_done_def st(1) emit_def)
  have step6: "mute_channel_step ?k5 ?k6"
    using called_nothing [of ?k5 "SendData data" "[]"] by (simp add: asking_channel_def)
  have step7: "mute_channel_step ?k6 (engine_done
      (emit [Complete mute_query (Some (mic_mute_reply, Received)), DeleteRequest mute_query]
        (st\<lparr>m_freeSequenceNumbers := insort_insert v (m_freeSequenceNumbers st),
            m_messagesInAir := (m_messagesInAir st)(v := None)\<rparr>)) ?k6)" (is "mute_channel_step _ ?k7")
    by (rule arrived [where packet = "mute_answer v"]) (simp_all add: st(2) asking_channel_def)
  have "mute_channel_step\<^sup>*\<^sup>* initial_channel ?k7"
    using ready_channel_reached mute_asked step5 step6 step7 by (meson rtranclp.rtrancl_into_rtrancl)
  then show thesis
    by (rule that) (simp_all add: engine_done_def asking_channel_def st(1))
qed

section \<open>Properties\<close>

text \<open>C11. The RIL on its channel refines the system in which any message in flight may be completed: every
  run of handlers, pipe, engine and worker thread, whatever packets the modem sends, is a run of that
  system, so that its safety theorems hold here.\<close>

theorem channel_refines_system:
  assumes "reachable_channel abi p api serial k"
  shows "reachable_system abi p api serial (ch_system k)"
  using simulated_reachable [OF assms] by (simp add: simulated_def)

text \<open>C12. The worker thread never calls a completion without a target: when the engine completes a message,
  either its completion function was given by \<open>subscribe\<close> and is still owed, or it is the message of a
  thread that is still inside \<open>execute\<close> without a reply, to whose data the pointer points.  A message
  that nobody subscribed to is never completed, nor is an incoming one.\<close>

theorem completions_have_targets:
  assumes "reachable_channel abi p api serial k" "ch_calls k = Complete (m, t) reply # es"
  shows "case t of
      Subscribed who \<Rightarrow> who \<noteq> Unsubscribed \<and> (m, who) \<in> set (ril.in_air (y_ril (ch_system k)))
    | Waiting n \<Rightarrow> \<exists>i < length (y_threads (ch_system k)). ch_ids k ! i = n \<and>
        t_message (y_threads (ch_system k) ! i) = m \<and> t_reply (y_threads (ch_system k) ! i) = None
    | Received \<Rightarrow> False"
proof -
  have sim: "simulated abi p api serial k" by (rule simulated_reachable [OF assms(1)])
  then have inv: "channel_inv k" by (simp add: simulated_def)
  show ?thesis
  proof (cases t)
    case (Subscribed who)
    have "expects_response m"
      using requests_only_reachable [OF assms(1)] assms(2) by (simp add: requests_only_def)
    then have "who \<noteq> Unsubscribed"
      using expected_sendable [OF sim expected_completion [OF inv assms(2)]] Subscribed by simp
    then show ?thesis using expected_subscriber [OF inv] assms(2) Subscribed by simp
  next
    case (Waiting n)
    then show ?thesis using expected_thread [OF inv] assms(2) by simp metis
  next
    case Received
    then show ?thesis
      using expected_completion [OF inv assms(2)] by (auto simp: expected_def in_subscribed in_expecting)
  qed
qed


theorem channel_refines_system_witness:
  "\<exists>k. reachable_channel ril_h quiet_platform byte_parcels True k \<and> ch_system k = one_waiting \<and>
     reachable_system ril_h quiet_platform byte_parcels True one_waiting"
proof -
  obtain k es where k: "reachable_channel ril_h quiet_platform byte_parcels True k" "ch_system k = one_waiting"
    by (rule mute_completed)
  with channel_refines_system [OF k(1)] show ?thesis by auto
qed

theorem completions_have_targets_witness:
  "\<exists>k es. reachable_channel ril_h quiet_platform byte_parcels True k \<and>
     ch_calls k = Complete (mic_mute_request, Waiting 1) (Some (mic_mute_reply, Received)) # es \<and>
     t_message (y_threads (ch_system k) ! 0) = mic_mute_request \<and> t_reply (y_threads (ch_system k) ! 0) = None"
proof -
  obtain k es where k: "reachable_channel ril_h quiet_platform byte_parcels True k" "ch_system k = one_waiting"
    "ch_calls k = Complete (mic_mute_request, Waiting 1) (Some (mic_mute_reply, Received)) # es"
    by (rule mute_completed) (simp add: mute_query_def)
  from completions_have_targets [OF k(1,3)] k show ?thesis by (auto simp: one_waiting_def)
qed

end
