(* ===== verification/RIL_Exchange.thy ===== *)
theory RIL_Exchange
  imports RIL_Channel
begin

text \<open>
  What the RIL and its channel do for the modem's answers, end to end: nothing that somebody waits
  for is lost between the handlers, the pipe and the request/response engine, and a thread in
  \<open>execute\<close> continues with the message that the modem's response holds.
\<close>

section \<open>Nothing awaited is lost\<close>

text \<open>Only a message without a subscriber may vanish: an event is deleted once it is sent.\<close>

definition awaited :: "tagged \<Rightarrow> bool" where
  "awaited x \<longleftrightarrow> snd x \<noteq> Subscribed Unsubscribed"

definition nothing_lost :: "channel_state \<Rightarrow> bool" where
  "nothing_lost k \<longleftrightarrow> filter_mset awaited (under_way k) = filter_mset awaited (expected k)"

lemma kept_submit:
  assumes inv: "pool_inv st" and sub: "submit ops m st = Inr st'"
    and kind: "P m \<Longrightarrow> m_requestType ops m \<noteq> IPC_CMD_EVENT_code"
  shows "filter_mset P (held_by_engine st') = filter_mset P (add_mset m (held_by_engine st))"
  using sub
proof (cases rule: submit_cases)
  case (sent v data)
  then have "m_messagesInAir st v = None" using inv by (auto simp: pool_inv_def)
  with sent show ?thesis by (simp add: held_by_engine_def in_air_insert)
next
  case (event v data)
  then show ?thesis using kind by (auto simp: held_by_engine_def)
qed (simp_all add: held_by_engine_def)

lemma expected_kinds:
  assumes "simulated abi p api serial k" "x \<in># expected k" "awaited x"
  shows "m_requestType tagged_ops x \<noteq> IPC_CMD_EVENT_code"
proof -
  have sound: "sound_system (ch_system k)"
    by (rule sound_reachable [of abi p api serial]) (use assms(1) in \<open>simp add: simulated_def\<close>)
  obtain m t where x: "x = (m, t)" by fastforce
  have "expects_response m"
    using assms(2,3) sound nth_mem
    by (fastforce simp: x expected_def in_subscribed in_expecting awaited_def sound_system_def sound_thread_def)
  then show ?thesis
    by (cases "c_op (w_class m)") (simp_all add: x tagged_ops_def wire_ops_def expects_response_def IPC_CMD_EVENT_code_def)
qed

lemma under_way_kinds:
  "simulated abi p api serial k \<Longrightarrow> x \<in># under_way k \<Longrightarrow> awaited x \<Longrightarrow> m_requestType tagged_ops x \<noteq> IPC_CMD_EVENT_code"
  by (rule expected_kinds) (auto simp: simulated_def channel_inv_def dest: mset_subset_eqD)

text \<open>A message that appears on both sides or vanishes from both changes nothing.\<close>

lemma lost_both:
  assumes "under_way k' = under_way k + X" "expected k' = expected k + X"
  shows "nothing_lost k' \<longleftrightarrow> nothing_lost k"
  using assms by (simp add: nothing_lost_def)

lemma lost_shrinks:
  assumes "nothing_lost k" "under_way k = add_mset x (under_way k')" "expected k = add_mset x (expected k')"
  shows "nothing_lost k'"
  using assms by (auto simp: nothing_lost_def split: if_splits)

lemma lost_left:
  assumes "channel_inv (k\<lparr>ch_system := c\<rparr>)" "longer c c'"
  shows "nothing_lost (ril_left c c' k) \<longleftrightarrow> nothing_lost (k\<lparr>ch_system := c\<rparr>)"
proof -
  have len: "length (ch_ids k) = length (y_threads c)" using assms(1) by (simp add: channel_inv_def)
  show ?thesis by (rule left_grows [OF len assms(2)]) (simp add: lost_both ac_simps)
qed

lemma lost_engine:
  assumes "nothing_lost k" "ch_calls k = []"
    and "filter_mset awaited (held_by_engine st + mset pipe) =
      filter_mset awaited (mset (ch_pipe k) + held_by_engine (ch_ipc k))"
  shows "nothing_lost (engine_done st (k\<lparr>ch_pipe := pipe\<rparr>))"
proof -
  have "under_way (engine_done st (k\<lparr>ch_pipe := pipe\<rparr>)) = held_by_engine st + mset pipe"
    by (simp add: under_way_def engine_done_def held_by_engine_def)
  moreover have "expected (engine_done st (k\<lparr>ch_pipe := pipe\<rparr>)) = expected k"
    by (simp add: engine_done_def expected_def)
  ultimately show ?thesis using assms by (simp add: nothing_lost_def under_way_def)
qed

lemma longer_asked:
  assumes "leave r (handle_request abi p api r (y_ril c)) (c\<lparr>y_received := rs\<rparr>) = Some c'"
  shows "longer (c\<lparr>y_received := rs\<rparr>) c'"
  using leave_longer [OF assms] forgotten_request [of r abi p api "y_ril c"] by auto

lemma longer_resumed:
  assumes sim: "simulated abi p api serial k" and i: "i < length (y_threads (ch_system k))"
    and left: "leave (t_request (y_threads (ch_system k) ! i))
      (t_continue (y_threads (ch_system k) ! i) reply (y_ril (ch_system k)))
      ((ch_system k)\<lparr>y_threads := ts, y_semaphore := n\<rparr>) = Some c'"
  shows "longer ((ch_system k)\<lparr>y_threads := ts, y_semaphore := n\<rparr>) c'"
proof -
  have "sound_system (ch_system k)"
    by (rule sound_reachable [of abi p api serial]) (use sim in \<open>simp add: simulated_def\<close>)
  then have "serves {#r_token (t_request (y_threads (ch_system k) ! i))#}
      (t_continue (y_threads (ch_system k) ! i) reply (y_ril (ch_system k))) (y_ril (ch_system k))"
    using i by (simp add: sound_system_def sound_thread_def)
  then show ?thesis
    using leave_longer [OF left, of "{#r_token (t_request (y_threads (ch_system k) ! i))#}"] by simp
qed

lemma lost_resumed:
  assumes sim: "simulated abi p api serial k" and lost: "nothing_lost k"
    and i: "i < length (y_threads (ch_system k))" and reply: "t_reply (y_threads (ch_system k) ! i) = Some reply"
    and left: "leave (t_request (y_threads (ch_system k) ! i))
      (t_continue (y_threads (ch_system k) ! i) reply (y_ril (ch_system k)))
      ((ch_system k)\<lparr>y_threads := remove_nth i (y_threads (ch_system k)), y_semaphore := n\<rparr>) = Some c'"
  shows "nothing_lost (ril_left ((ch_system k)\<lparr>y_threads := remove_nth i (y_threads (ch_system k)), y_semaphore := n\<rparr>)
      c' (k\<lparr>ch_ids := remove_nth i (ch_ids k)\<rparr>))"
    (is "nothing_lost (ril_left ?c c' ?k)")
proof -
  have inv: "channel_inv k" using sim by (simp add: simulated_def)
  then have len: "length (ch_ids k) = length (y_threads (ch_system k))" by (simp add: channel_inv_def)
  have "expected (?k\<lparr>ch_system := ?c\<rparr>) = expected k"
    using expecting_remove [OF len i] reply by (simp add: expected_def)
  then have "nothing_lost (?k\<lparr>ch_system := ?c\<rparr>)" using lost by (simp add: nothing_lost_def under_way_def)
  moreover have "channel_inv (?k\<lparr>ch_system := ?c\<rparr>)" using inv_resumed [OF inv i reply, of n] by simp
  ultimately show ?thesis using lost_left longer_resumed [OF sim i left] by blast
qed

lemma lost_submitted:
  assumes sim: "simulated abi p api serial k" and lost: "nothing_lost k"
    and calls: "ch_calls k = []" and pipe: "ch_pipe k = m # rest"
    and sub: "submit tagged_ops m (ch_ipc k) = Inr st"
  shows "nothing_lost (engine_done st (k\<lparr>ch_pipe := rest\<rparr>))"
proof (rule lost_engine [OF lost calls])
  have "m \<in># under_way k" by (simp add: under_way_def pipe)
  then have "awaited m \<Longrightarrow> m_requestType tagged_ops m \<noteq> IPC_CMD_EVENT_code"
    by (rule under_way_kinds [OF sim])
  moreover have "pool_inv (ch_ipc k)" using sim by (simp add: simulated_def channel_inv_def)
  ultimately have "filter_mset awaited (held_by_engine st) = filter_mset awaited (add_mset m (held_by_engine (ch_ipc k)))"
    by (intro kept_submit [OF _ sub])
  then show "filter_mset awaited (held_by_engine st + mset rest) =
      filter_mset awaited (mset (ch_pipe k) + held_by_engine (ch_ipc k))"
    by (simp add: pipe ac_simps)
qed

lemma lost_completion:
  assumes sim: "simulated abi p api serial k" and lost: "nothing_lost k"
    and calls: "ch_calls k = Complete (m, Subscribed who) reply # es"
    and s: "s = (y_ril (ch_system k))\<lparr>ril.in_air := remove1 (m, who) (ril.in_air (y_ril (ch_system k)))\<rparr>"
    and run: "complete_message p who (map_option fst reply) s = Finished s'"
  shows "nothing_lost (ril_left ((ch_system k)\<lparr>y_ril := s\<rparr>) ((ch_system k)\<lparr>y_ril := s'\<rparr>) (k\<lparr>ch_calls := es\<rparr>))"
proof -
  have inv: "channel_inv k" using sim by (simp add: simulated_def)
  have "owes (tokens (pending_token who)) s s'"
    using completion_immediate(1) [of who p "map_option fst reply" s] run by simp
  then have longer: "longer ((ch_system k)\<lparr>y_ril := s\<rparr>) ((ch_system k)\<lparr>y_ril := s'\<rparr>)"
    using owes_longer [of _ "(ch_system k)\<lparr>y_ril := s\<rparr>" s'] by simp
  let ?k = "k\<lparr>ch_calls := es, ch_system := (ch_system k)\<lparr>y_ril := s\<rparr>\<rparr>"
  have "nothing_lost ?k"
    by (rule lost_shrinks [OF lost completion_shrinks [OF inv calls s]])
  then show ?thesis
    using lost_left [where k = "k\<lparr>ch_calls := es\<rparr>", OF _ longer] inv_called_completion [OF inv calls s]
    by (simp only: simp_thms channel_state.simps)
qed

lemma lost_execution:
  assumes sim: "simulated abi p api serial k" and lost: "nothing_lost k"
    and calls: "ch_calls k = Complete (m, Waiting n) reply # es"
    and i: "i < length (ch_ids k)" "ch_ids k ! i = n"
  shows "nothing_lost (replied i r es k)"
proof -
  have inv: "channel_inv k" using sim by (simp add: simulated_def)
  show ?thesis by (rule lost_shrinks [OF lost execution_shrinks [OF inv calls i]])
qed

lemma lost_delivery:
  assumes sim: "simulated abi p api serial k" and lost: "nothing_lost k"
    and calls: "ch_calls k = Deliver (m, t) # es"
    and run: "deliver p api m (y_ril (ch_system k)) = Finished s"
  shows "nothing_lost (ril_left (ch_system k) ((ch_system k)\<lparr>y_ril := s\<rparr>) (k\<lparr>ch_calls := es\<rparr>))"
proof -
  have "channel_inv (k\<lparr>ch_calls := es\<rparr>)"
    using inv_fewer_calls [OF _ calls] sim by (simp add: simulated_def)
  moreover have "owes {#} (y_ril (ch_system k)) s"
    using deliver_immediate(1) [of p api m "y_ril (ch_system k)"] run by simp
  moreover have "nothing_lost (k\<lparr>ch_calls := es\<rparr>)"
    using lost by (simp add: nothing_lost_def under_way_def expected_def calls)
  ultimately show ?thesis
    using lost_left [where k = "k\<lparr>ch_calls := es\<rparr>" and c = "ch_system k"] owes_longer by simp
qed

lemma nothing_lost_step:
  assumes sim: "simulated abi p api serial k" and lost: "nothing_lost k"
    and step: "channel_step abi p api serial k k'"
  shows "nothing_lost k'"
  using step
proof cases
  case (asked c r c')
  have "channel_inv (k\<lparr>ch_system := c\<rparr>)" "nothing_lost (k\<lparr>ch_system := c\<rparr>)"
    using sim lost by (simp_all add: simulated_def channel_inv_def nothing_lost_def under_way_def expected_def asked(3))
  moreover have "longer c c'" unfolding asked(3) by (rule longer_asked [OF asked(4) [unfolded asked(3)]])
  ultimately show ?thesis unfolding asked(1) using lost_left by blast
next
  case (resumed i n reply c c')
  show ?thesis unfolding resumed(1,5) by (rule lost_resumed [OF sim lost resumed(2,4) resumed(6) [unfolded resumed(5)]])
next
  case (submitted m rest st)
  show ?thesis unfolding submitted(1) by (rule lost_submitted [OF sim lost submitted(3-5)])
next
  case (arrived packet st)
  have "pool_inv (ch_ipc k)" using sim by (simp add: simulated_def channel_inv_def)
  from held_packet [OF this arrived(4)] have "nothing_lost (engine_done st (k\<lparr>ch_pipe := ch_pipe k\<rparr>))"
    by (intro lost_engine [OF lost arrived(3)]) (simp add: ac_simps)
  then show ?thesis unfolding arrived(1) by simp
next
  case (called_completion m who reply es s s')
  show ?thesis unfolding called_completion(1) by (rule lost_completion [OF sim lost called_completion(3-5)])
next
  case (called_execution m n reply es i)
  show ?thesis unfolding called_execution(1) by (rule lost_execution [OF sim lost called_execution(3-5)])
next
  case semaphore_given
  then show ?thesis
    using lost by (simp add: semaphore_given(1) nothing_lost_def under_way_def expected_def)
next
  case (called_delivery m t es s)
  show ?thesis unfolding called_delivery(1) by (rule lost_delivery [OF sim lost called_delivery(3,4)])
next
  case (called_nothing e es)
  then have "under_way (k\<lparr>ch_calls := es\<rparr>) = under_way k" "expected (k\<lparr>ch_calls := es\<rparr>) = expected k"
    by (auto simp: under_way_def expected_def split: ipc_effect.splits)
  then show ?thesis using lost by (simp add: called_nothing(1) nothing_lost_def)
qed

lemma nothing_lost_reachable: "reachable_channel abi p api serial k \<Longrightarrow> nothing_lost k"
proof (induction rule: rtranclp_induct)
  case base
  have "held_by_engine (IPCSocketHandler :: tagged ipc_handler) = {#}"
    by (simp add: held_by_engine_def IPCSocketHandler_def Let_def IPC_Socket_Handler.in_air_def del: upt.simps)
  then show ?case
    by (simp add: nothing_lost_def under_way_def expected_def initial_channel_def initial_system_def
        initial_ril_def subscribed_messages_def expecting_def)
next
  case (step k k')
  from nothing_lost_step [OF simulated_reachable [OF step.hyps(1)] step.IH step.hyps(2)] show ?case .
qed

lemma expected_under_way:
  assumes "nothing_lost k" "x \<in># expected k" "awaited x"
  shows "x \<in># under_way k"
proof -
  have "x \<in># filter_mset awaited (under_way k)"
    using assms unfolding nothing_lost_def by (simp only: set_mset_filter) simp
  then show ?thesis by simp
qed

lemma pending_token_in_air:
  assumes "tok \<in># pending_requests s"
  obtains m who where "(m, who) \<in> set (ril.in_air s)" "pending_token who = Some tok"
proof -
  obtain m who where "(m, who) \<in> set (ril.in_air s)" "tok \<in># tokens (pending_token who)"
    using assms by (auto simp: pending_requests_def)
  then show thesis using that by (cases "pending_token who") auto
qed

section \<open>A thread gets the answer to its message\<close>

text \<open>The response that names the number of a request in flight.\<close>

lemma allocated_answered:
  assumes inv: "pool_inv (allocated v x st)" and free: "m_freeSequenceNumbers (allocated v x st) \<noteq> []"
    and decoded: "create ops (h_mainCommand h) (h_subCommand h) = Some r0" "readMessage ops r0 body = Some r"
      "unat (h_length h) = 7 + length body" "h_responseType h = IPC_CMD_RESP" "h_aseq h = v"
  obtains st2 where "handleReassembledMessage ops (header_bytes h @ body) (allocated v x st) =
    Inr (emit [Complete x (Some r), DeleteRequest x] st2)" "m_effects st2 = m_effects st"
proof -
  obtain y where "m_allocationIterator (allocated v x st) = At y" using inv free by (auto simp: pool_inv_def)
  then show thesis
    by (intro that [of "(allocated v x st)\<lparr>m_freeSequenceNumbers := insort_insert v (m_freeSequenceNumbers (allocated v x st)),
        m_messagesInAir := (m_messagesInAir (allocated v x st))(v := None)\<rparr>"])
      (simp_all add: response_decoded [OF decoded(1-4)] handleResponse_def Let_def decoded(5))
qed

text \<open>The thread whose message is being completed, when calls come one at a time.\<close>

lemma single_waiting_thread:
  assumes sim: "simulated abi p api True k" and m: "(m, Waiting n) \<in># under_way k"
  obtains t where "y_threads (ch_system k) = [t]" "ch_ids k = [n]" "t_message t = m" "t_reply t = None"
    "y_semaphore (ch_system k) = 0" "\<not> y_giving (ch_system k)"
proof -
  have inv: "channel_inv k" using sim by (simp add: simulated_def)
  then have "(m, Waiting n) \<in># expected k" using m by (auto simp: channel_inv_def dest: mset_subset_eqD)
  then obtain i where i: "i < length (y_threads (ch_system k))" "ch_ids k ! i = n"
    "t_reply (y_threads (ch_system k) ! i) = None" "t_message (y_threads (ch_system k) ! i) = m"
    by (auto simp: expected_def in_subscribed in_expecting)
  have serial: "length (y_threads (ch_system k)) \<le> 1"
    "y_semaphore (ch_system k) + of_bool (y_giving (ch_system k)) = length (filter (\<lambda>t. t_reply t \<noteq> None) (y_threads (ch_system k)))"
    using serial_semaphore [of abi p api "ch_system k"] sim by (auto simp: simulated_def)
  with i(1) obtain t where t: "y_threads (ch_system k) = [t]" by (cases "y_threads (ch_system k)") auto
  moreover have "ch_ids k = [n]" using inv i t by (cases "ch_ids k") (auto simp: channel_inv_def)
  ultimately show thesis using i serial by (intro that [of t]) auto
qed

text \<open>From the completion that the engine calls to the thread that has left \<open>execute\<close>.\<close>

lemma answered_continues:
  assumes sim: "simulated abi p api True k" and calls: "ch_calls k = Complete (m, Waiting n) (Some (r, g)) # es"
    and t: "y_threads (ch_system k) = [t]" "ch_ids k = [n]" "y_semaphore (ch_system k) = 0" "\<not> y_giving (ch_system k)"
    and left: "leave (t_request t) (t_continue t (Some r) (y_ril (ch_system k)))
      ((ch_system k)\<lparr>y_threads := [], y_semaphore := 0\<rparr>) = Some c'"
  shows "\<exists>k'. (channel_step abi p api True)\<^sup>*\<^sup>* k k' \<and> ch_system k' = c'"
proof -
  let ?k = "replied 0 (Some r) es k"
  let ?g = "?k\<lparr>ch_system := (ch_system ?k)\<lparr>y_semaphore := 1, y_giving := False\<rparr>\<rparr>"
  have "channel_step abi p api True k ?k"
    using called_execution [OF t(4) calls, of 0 abi p api True] t(2) by simp
  moreover have "channel_step abi p api True ?k ?g"
    using semaphore_given [of ?k abi p api True] t(3) by simp
  moreover have "channel_step abi p api True ?g
      (ril_left ((ch_system k)\<lparr>y_threads := [], y_semaphore := 0\<rparr>) c' (?g\<lparr>ch_ids := remove_nth 0 (ch_ids ?g)\<rparr>))"
    by (rule resumed [where i = 0 and n = 0 and reply = "Some r"])
      (use t left in \<open>simp_all add: remove_nth_def\<close>)
  ultimately have "(channel_step abi p api True)\<^sup>*\<^sup>* k
      (ril_left ((ch_system k)\<lparr>y_threads := [], y_semaphore := 0\<rparr>) c' (?g\<lparr>ch_ids := remove_nth 0 (ch_ids ?g)\<rparr>))"
    by (rule converse_rtranclp_into_rtranclp [OF _ converse_rtranclp_into_rtranclp [OF _ r_into_rtranclp]])
  then show ?thesis by (intro exI conjI) (assumption, simp)
qed

text \<open>The message in the pipe is sent under a number that no request in flight has.\<close>

lemma waiting_message_sent:
  assumes sim: "simulated abi p api True k"
    and idle: "ch_calls k = []" "ch_pipe k = [(m, Waiting n)]"
    and free: "1 < length (m_freeSequenceNumbers (ch_ipc k))"
    and data: "writeMessage wire_ops m = Some data" "length data < 65529"
  obtains v st where "v \<notin> dom (m_messagesInAir (ch_ipc k))"
    "st = allocated v (m, Waiting n) (ch_ipc k)" "pool_inv st" "m_freeSequenceNumbers st \<noteq> []" "m_effects st = []"
    "channel_step abi p api True k (k\<lparr>ch_pipe := [], ch_ipc := st,
       ch_calls := [SendData (header_bytes (make_header wire_ops v m data) @ data)]\<rparr>)" "\<not> y_giving (ch_system k)"
proof -
  have "(m, Waiting n) \<in># under_way k" by (simp add: under_way_def idle)
  then have quiet: "\<not> y_giving (ch_system k)" by (rule single_waiting_thread [OF sim]) simp
  have inv: "channel_inv k" using sim by (simp add: simulated_def)
  then have pool: "pool_inv (ch_ipc k)" "m_effects (ch_ipc k) = []" by (simp_all add: channel_inv_def)
  have kind: "m_requestType tagged_ops (m, Waiting n) \<noteq> IPC_CMD_EVENT_code"
    by (rule under_way_kinds [OF sim]) (simp_all add: under_way_def idle awaited_def)
  have "writeMessage tagged_ops (m, Waiting n) = Some data" "m_freeSequenceNumbers (ch_ipc k) \<noteq> []"
    using data(1) free by (auto simp: tagged_ops_def)
  from submit_progress [OF pool(1) this(2,1) data(2) kind] obtain v where v: "v \<in> set (m_freeSequenceNumbers (ch_ipc k))"
    "v \<notin> dom (m_messagesInAir (ch_ipc k))" and sub: "submit tagged_ops (m, Waiting n) (ch_ipc k) =
      Inr (emit [SendData (header_bytes (make_header tagged_ops v (m, Waiting n) data) @ data)]
        (allocated v (m, Waiting n) (ch_ipc k)))" (is "_ = Inr (emit [SendData ?packet] ?st)") by blast
  have packet: "make_header tagged_ops v (m, Waiting n) data = make_header wire_ops v m data"
    by (simp add: make_header_def tagged_ops_def)
  have st: "?st\<lparr>m_effects := []\<rparr> = ?st" using pool(2) by (cases "ch_ipc k") (simp add: allocated_def)
  have "channel_step abi p api True k (engine_done (emit [SendData ?packet] ?st) (k\<lparr>ch_pipe := []\<rparr>))"
    by (rule submitted [OF quiet idle sub])
  then have "channel_step abi p api True k (k\<lparr>ch_pipe := [], ch_ipc := ?st,
       ch_calls := [SendData (header_bytes (make_header wire_ops v m data) @ data)]\<rparr>)"
    using st pool(2) by (simp add: engine_done_def emit_def packet)
  moreover have "pool_inv ?st" using pool_inv_submit [OF pool(1) sub] by simp
  moreover have "m_freeSequenceNumbers ?st \<noteq> []"
    using free v(1) length_remove1 [of v "m_freeSequenceNumbers (ch_ipc k)"] by (auto dest: arg_cong [where f = length])
  ultimately show thesis using v(2) pool(2) quiet by (intro that [of v ?st]) simp_all
qed

lemma waiting_thread_answered:
  assumes sim: "simulated abi p api True k"
    and idle: "ch_calls k = []" "ch_pipe k = [(m, Waiting n)]" and t: "y_threads (ch_system k) = [t]"
    and free: "1 < length (m_freeSequenceNumbers (ch_ipc k))"
    and data: "writeMessage wire_ops m = Some data" "length data < 65529"
  obtains v k1 where "v \<notin> dom (m_messagesInAir (ch_ipc k))" "channel_step abi p api True k k1"
    "ch_calls k1 = [SendData (header_bytes (make_header wire_ops v m data) @ data)]"
    "\<And>h body r0 r c'. \<lbrakk>h_aseq h = v; h_responseType h = IPC_CMD_RESP; unat (h_length h) = 7 + length body;
        create wire_ops (h_mainCommand h) (h_subCommand h) = Some r0; readMessage wire_ops r0 body = Some r;
        leave (t_request t) (t_continue t (Some r) (y_ril (ch_system k)))
          ((ch_system k)\<lparr>y_threads := [], y_semaphore := 0\<rparr>) = Some c'\<rbrakk> \<Longrightarrow>
      \<exists>k2 k3. (channel_step abi p api True)\<^sup>*\<^sup>* k1 k2 \<and> ch_calls k2 = [] \<and>
        (\<exists>st. handleReassembledMessage tagged_ops (header_bytes h @ body) (ch_ipc k2) = Inr st \<and> channel_step abi p api True k2 (engine_done st k2) \<and>
           (channel_step abi p api True)\<^sup>*\<^sup>* (engine_done st k2) k3) \<and> ch_system k3 = c'"
proof -
  obtain v st where v: "v \<notin> dom (m_messagesInAir (ch_ipc k))" and st: "st = allocated v (m, Waiting n) (ch_ipc k)"
    "pool_inv st" "m_freeSequenceNumbers st \<noteq> []" "m_effects st = []"
    and sent: "channel_step abi p api True k (k\<lparr>ch_pipe := [], ch_ipc := st,
       ch_calls := [SendData (header_bytes (make_header wire_ops v m data) @ data)]\<rparr>)" (is "channel_step _ _ _ _ k ?k1")
    and quiet: "\<not> y_giving (ch_system k)"
    by (rule waiting_message_sent [OF sim idle free data])
  let ?k2 = "k\<lparr>ch_pipe := [], ch_ipc := st, ch_calls := []\<rparr>"
  have "channel_step abi p api True ?k1 ?k2"
    using called_nothing [of ?k1 "SendData (header_bytes (make_header wire_ops v m data) @ data)" "[]"] quiet by simp
  then have k2: "(channel_step abi p api True)\<^sup>*\<^sup>* ?k1 ?k2" ..
  have sim2: "simulated abi p api True ?k2"
    using simulated_step [OF simulated_step [OF sim sent] \<open>channel_step abi p api True ?k1 ?k2\<close>] .
  have "\<exists>st2 k3. handleReassembledMessage tagged_ops (header_bytes h @ body) st = Inr st2 \<and>
      channel_step abi p api True ?k2 (engine_done st2 ?k2) \<and>
      (channel_step abi p api True)\<^sup>*\<^sup>* (engine_done st2 ?k2) k3 \<and> ch_system k3 = c'"
    if h: "h_aseq h = v" "h_responseType h = IPC_CMD_RESP" "unat (h_length h) = 7 + length body"
      and r: "create wire_ops (h_mainCommand h) (h_subCommand h) = Some r0" "readMessage wire_ops r0 body = Some r"
      and left: "leave (t_request t) (t_continue t (Some r) (y_ril (ch_system k)))
        ((ch_system k)\<lparr>y_threads := [], y_semaphore := 0\<rparr>) = Some c'" for h body r0 r c'
  proof -
    have tagged: "create tagged_ops (h_mainCommand h) (h_subCommand h) = Some (r0, Received)"
      "readMessage tagged_ops (r0, Received) body = Some (r, Received)" using r by (simp_all add: tagged_ops_def)
    obtain st2 where answer: "handleReassembledMessage tagged_ops (header_bytes h @ body) st =
        Inr (emit [Complete (m, Waiting n) (Some (r, Received)), DeleteRequest (m, Waiting n)] st2)" (is "_ = Inr ?st3")
      and fx: "m_effects st2 = m_effects (ch_ipc k)"
      by (rule allocated_answered [OF st(2,3) [unfolded st(1)] tagged h(3,2,1)]) (simp add: st(1))
    have fx: "m_effects st2 = []" using fx st(4) by (simp add: st(1))
    have step: "channel_step abi p api True ?k2 (engine_done ?st3 ?k2)"
      by (rule arrived [where packet = "header_bytes h @ body"]) (simp_all add: answer quiet)
    have sim3: "simulated abi p api True (engine_done ?st3 ?k2)" by (rule simulated_step [OF sim2 step])
    have calls: "ch_calls (engine_done ?st3 ?k2) =
        Complete (m, Waiting n) (Some (r, Received)) # [DeleteRequest (m, Waiting n)]"
      by (simp add: engine_done_def fx)
    then have "(m, Waiting n) \<in># under_way (engine_done ?st3 ?k2)" by (simp add: under_way_def)
    then obtain t' where t': "y_threads (ch_system (engine_done ?st3 ?k2)) = [t']" "ch_ids (engine_done ?st3 ?k2) = [n]"
      "y_semaphore (ch_system (engine_done ?st3 ?k2)) = 0" "\<not> y_giving (ch_system (engine_done ?st3 ?k2))" by (rule single_waiting_thread [OF sim3])
    then have "t' = t" using t by (simp add: engine_done_def)
    with left have "leave (t_request t') (t_continue t' (Some r) (y_ril (ch_system (engine_done ?st3 ?k2))))
        ((ch_system (engine_done ?st3 ?k2))\<lparr>y_threads := [], y_semaphore := 0\<rparr>) = Some c'"
      by (simp add: engine_done_def)
    from answered_continues [OF sim3 calls t' this] answer step show ?thesis by blast
  qed
  then show thesis
    using v sent k2 by (intro that [of v ?k1]) (simp, simp, simp, rule exI [of _ ?k2], simp, blast)
qed

section \<open>Properties\<close>

text \<open>The requests that the RIL takes responsibility for: all but the writes that it forgets.\<close>

definition remembered_requests :: "system \<Rightarrow> nat multiset" where
  "remembered_requests c = image_mset r_token (filter_mset (\<lambda>r. \<not> forgotten r) (mset (y_received c)))"

lemma unanswered_owed:
  assumes sound: "sound_system c"
    and unanswered: "count (completed_requests (y_ril c)) tok < count (remembered_requests c) tok"
  shows "tok \<in># pending_requests (y_ril c) + waiting_requests c"
proof -
  obtain lost where lost: "lost \<subseteq># forgettable c"
    "obligations (y_ril c) + waiting_requests c + image_mset r_token lost = received_requests c"
    using sound by (auto simp: sound_system_def accounts_def)
  have "received_requests c = remembered_requests c + image_mset r_token (forgettable c)"
    using multiset_partition [of "mset (y_received c)" forgotten]
    by (simp add: received_requests_def remembered_requests_def forgettable_def add.commute
        flip: image_mset_union)
  then have "count (received_requests c) tok = count (remembered_requests c) tok + count (image_mset r_token (forgettable c)) tok"
    by simp
  moreover have "count (image_mset r_token lost) tok \<le> count (image_mset r_token (forgettable c)) tok"
    by (rule mset_subset_eq_count [OF image_mset_subseteq_mono [OF lost(1)]])
  moreover have "count (completed_requests (y_ril c)) tok + count (pending_requests (y_ril c)) tok +
      count (waiting_requests c) tok + count (image_mset r_token lost) tok = count (received_requests c) tok"
    using arg_cong [OF lost(2), of "\<lambda>M. count M tok"] by (simp add: obligations_def)
  ultimately have "count (pending_requests (y_ril c)) tok + count (waiting_requests c) tok \<noteq> 0"
    using unanswered by linarith
  then have "0 < count (pending_requests (y_ril c) + waiting_requests c) tok" by (simp only: count_union neq0_conv)
  then show ?thesis by (simp only: count_greater_zero_iff)
qed

text \<open>
  C13. A request that Android made and that has not been completed is never stuck inside the RIL, unless
  it is a write to the file of fixed dialling numbers, whose request the code forgets: either a message
  that will complete it is in the pipe, in the queue of the engine, in flight under a sequence number
  or about to be completed; or its thread is in \<open>execute\<close> and has its reply, or the message it waits
  for is in one of these places.
\<close>

theorem unanswered_request_under_way:
  assumes reach: "reachable_channel abi p api serial k"
    and unanswered: "count (completed_requests (y_ril (ch_system k))) tok < count (remembered_requests (ch_system k)) tok"
  shows "(\<exists>m who. pending_token who = Some tok \<and> (m, Subscribed who) \<in># under_way k) \<or>
    (\<exists>i < length (y_threads (ch_system k)). r_token (t_request (y_threads (ch_system k) ! i)) = tok \<and>
       (t_reply (y_threads (ch_system k) ! i) \<noteq> None \<or>
        (t_message (y_threads (ch_system k) ! i), Waiting (ch_ids k ! i)) \<in># under_way k))"
proof -
  let ?c = "ch_system k"
  have sim: "simulated abi p api serial k" by (rule simulated_reachable [OF reach])
  then have len: "length (ch_ids k) = length (y_threads ?c)" by (simp add: simulated_def channel_inv_def)
  have "sound_system ?c" by (rule sound_reachable [of abi p api serial]) (use sim in \<open>simp add: simulated_def\<close>)
  then have "tok \<in># pending_requests (y_ril ?c) + waiting_requests ?c" by (rule unanswered_owed [OF _ unanswered])
  then consider (pending) "tok \<in># pending_requests (y_ril ?c)" | (waiting) "tok \<in># waiting_requests ?c" by auto
  then show ?thesis
  proof cases
    case pending
    then obtain m who where m: "(m, who) \<in> set (ril.in_air (y_ril ?c))" "pending_token who = Some tok"
      by (rule pending_token_in_air)
    then have "(m, Subscribed who) \<in># expected k" by (simp add: expected_def in_subscribed)
    moreover have "awaited (m, Subscribed who)" using m(2) by (auto simp: awaited_def)
    ultimately show ?thesis using m(2) expected_under_way [OF nothing_lost_reachable [OF reach]] by blast
  next
    case waiting
    then obtain i where i: "i < length (y_threads ?c)" "r_token (t_request (y_threads ?c ! i)) = tok"
      by (auto simp: waiting_requests_def in_set_conv_nth)
    have "(t_message (y_threads ?c ! i), Waiting (ch_ids k ! i)) \<in># under_way k" if "t_reply (y_threads ?c ! i) = None"
    proof (rule expected_under_way [OF nothing_lost_reachable [OF reach]])
      have "(t_message (y_threads ?c ! i), Waiting (ch_ids k ! i)) \<in> set (expecting (y_threads ?c) (ch_ids k))"
        using that i(1) len by (auto simp: in_expecting)
      then show "(t_message (y_threads ?c ! i), Waiting (ch_ids k ! i)) \<in># expected k" by (simp add: expected_def)
    qed (simp add: awaited_def)
    with i show ?thesis by blast
  qed
qed

text \<open>
  C14. A thread in \<open>execute\<close> gets the modem's answer to its own message: while a second sequence number
  is free, its message goes out under a number that no other request in flight has, and a response
  with that number, whatever class it has, is the reply with which the handler continues.
\<close>

theorem execute_gets_response:
  assumes "reachable_channel abi p api True k" and "ch_calls k = []" "ch_pipe k = [(m, Waiting n)]"
    and "y_threads (ch_system k) = [t]" and "1 < length (m_freeSequenceNumbers (ch_ipc k))"
    and "writeMessage wire_ops m = Some data" "length data < 65529"
  shows "\<exists>v k1. v \<notin> dom (m_messagesInAir (ch_ipc k)) \<and> channel_step abi p api True k k1 \<and>
    ch_calls k1 = [SendData (header_bytes (make_header wire_ops v m data) @ data)] \<and>
    (\<forall>h body r0 r c'. h_aseq h = v \<and> h_responseType h = IPC_CMD_RESP \<and> unat (h_length h) = 7 + length body \<and>
       create wire_ops (h_mainCommand h) (h_subCommand h) = Some r0 \<and> readMessage wire_ops r0 body = Some r \<and>
       leave (t_request t) (t_continue t (Some r) (y_ril (ch_system k)))
         ((ch_system k)\<lparr>y_threads := [], y_semaphore := 0\<rparr>) = Some c' \<longrightarrow>
       (\<exists>k2 k3. (channel_step abi p api True)\<^sup>*\<^sup>* k1 k2 \<and> ch_calls k2 = [] \<and>
          (\<exists>st. handleReassembledMessage tagged_ops (header_bytes h @ body) (ch_ipc k2) = Inr st \<and> channel_step abi p api True k2 (engine_done st k2) \<and>
             (channel_step abi p api True)\<^sup>*\<^sup>* (engine_done st k2) k3) \<and> ch_system k3 = c'))"
  by (rule waiting_thread_answered [OF simulated_reachable [OF assms(1)] assms(2-)]) blast

lemma asking_channel_reached: "reachable_channel ril_h quiet_platform byte_parcels True asking_channel"
  using ready_channel_reached mute_asked by (rule rtranclp.rtrancl_into_rtrancl)

theorem unanswered_request_under_way_witness: "mute_query \<in># under_way asking_channel"
proof -
  have sys: "ch_system asking_channel = one_waiting" "ch_ids asking_channel = [1]"
    "under_way asking_channel = {#mute_query#}"
    by (simp_all add: asking_channel_def under_way_def initial_channel_def held_by_engine_def
        IPCSocketHandler_def Let_def IPC_Socket_Handler.in_air_def del: upt.simps)
  have "count (completed_requests (y_ril (ch_system asking_channel))) 1 <
      count (remembered_requests (ch_system asking_channel)) 1"
    by (simp add: sys one_waiting_def remembered_requests_def mute_request_def completed_requests_def ril_ready_def
        setRadioState_def unsolicited_def effect_def initial_ril_def forgotten_def)
  from unanswered_request_under_way [OF asking_channel_reached this] show ?thesis
    by (auto simp: sys one_waiting_def waiting_message mute_query_def)
qed

text \<open>The mute state that Android asked for, with the byte of the modem's response.\<close>

definition mute_known :: system where
  "mute_known = one_waiting\<lparr>y_threads := [],
     y_ril := Request_complete (mute_request 1) RIL_E_SUCCESS (Ints_response [1]) sizeof_int ril_ready\<rparr>"

lemma mute_reply_continues:
  "leave (t_request (waiting_thread 1)) (t_continue (waiting_thread 1) (Some mic_mute_reply) (y_ril one_waiting))
     (one_waiting\<lparr>y_threads := [], y_semaphore := 0\<rparr>) = Some mute_known"
proof -
  have "message_cast group_SND ''GET_MIC_MUTE_REPLY'' (Some mic_mute_reply) = Some mic_mute_reply" by code_simp
  then show ?thesis
    by (simp add: waiting_thread_def handleGetMute_def query_def one_waiting_def mute_known_def finish_def
        mic_mute_reply_def member_u8_def)
qed

theorem execute_gets_response_witness:
  "\<exists>v k1 k3. channel_step ril_h quiet_platform byte_parcels True asking_channel k1 \<and>
     ch_calls k1 = [SendData [7, 0, v, 0, 9, 2, 2]] \<and>
     (channel_step ril_h quiet_platform byte_parcels True)\<^sup>*\<^sup>* k1 k3 \<and> ch_system k3 = mute_known"
proof -
  have k: "ch_calls asking_channel = []" "ch_pipe asking_channel = [(mic_mute_request, Waiting 1)]"
    "y_threads (ch_system asking_channel) = [waiting_thread 1]" "ch_system asking_channel = one_waiting"
    "1 < length (m_freeSequenceNumbers (ch_ipc asking_channel))"
    by (simp_all add: asking_channel_def initial_channel_def mute_query_def one_waiting_def initial_handler)
  from execute_gets_response [OF asking_channel_reached k(1-3,5) mic_mute_request_data(1)] obtain v k1 where
    k1: "channel_step ril_h quiet_platform byte_parcels True asking_channel k1"
      "ch_calls k1 = [SendData (header_bytes (make_header wire_ops v mic_mute_request []) @ [])]"
    and answers: "\<And>h body r0 r c'. h_aseq h = v \<and> h_responseType h = IPC_CMD_RESP \<and>
      unat (h_length h) = 7 + length body \<and> create wire_ops (h_mainCommand h) (h_subCommand h) = Some r0 \<and>
      readMessage wire_ops r0 body = Some r \<and> leave (t_request (waiting_thread 1))
        (t_continue (waiting_thread 1) (Some r) (y_ril (ch_system asking_channel)))
        ((ch_system asking_channel)\<lparr>y_threads := [], y_semaphore := 0\<rparr>) = Some c' \<Longrightarrow>
      \<exists>k2 k3. (channel_step ril_h quiet_platform byte_parcels True)\<^sup>*\<^sup>* k1 k2 \<and> ch_calls k2 = [] \<and>
        (\<exists>st. handleReassembledMessage tagged_ops (header_bytes h @ body) (ch_ipc k2) = Inr st \<and> channel_step ril_h quiet_platform byte_parcels True k2 (engine_done st k2) \<and>
          (channel_step ril_h quiet_platform byte_parcels True)\<^sup>*\<^sup>* (engine_done st k2) k3) \<and> ch_system k3 = c'"
    by auto
  have "h_aseq (mic_mute_header v) = v \<and> h_responseType (mic_mute_header v) = IPC_CMD_RESP \<and>
      unat (h_length (mic_mute_header v)) = 7 + length [1 :: byte] \<and>
      create wire_ops (h_mainCommand (mic_mute_header v)) (h_subCommand (mic_mute_header v)) =
        Some (mic_mute_reply\<lparr>w_object := []\<rparr>) \<and>
      readMessage wire_ops (mic_mute_reply\<lparr>w_object := []\<rparr>) [1] = Some mic_mute_reply"
    using mic_mute_reply_data by (simp add: mic_mute_header_def IPC_CMD_RESP_def)
  with answers [of "mic_mute_header v" "[1]"] mute_reply_continues obtain k2 k3 st where
    k3: "(channel_step ril_h quiet_platform byte_parcels True)\<^sup>*\<^sup>* k1 k2" "ch_calls k2 = []"
      "channel_step ril_h quiet_platform byte_parcels True k2 (engine_done st k2)"
      "(channel_step ril_h quiet_platform byte_parcels True)\<^sup>*\<^sup>* (engine_done st k2) k3" "ch_system k3 = mute_known"
    unfolding k(4) by blast
  then have "(channel_step ril_h quiet_platform byte_parcels True)\<^sup>*\<^sup>* k1 k3" by simp
  with k1 k3(5) show ?thesis
    by (simp add: mic_mute_request_data(3) header_bytes_def le16_def) blast
qed

end
