(* ===== verification/RIL_Exhaustion.thy ===== *)
theory RIL_Exhaustion
  imports RIL_Exchange
begin

text \<open>
  The end of the sequence numbers, seen from Android: 255 requests of the RIL that the modem has not
  answered use them all up.  The allocation iterator then points to the number that was erased last,
  so that the first answer to any of them compares an invalid iterator, and whatever is submitted
  meanwhile is only queued.
\<close>

section \<open>The way there\<close>

text \<open>Searches for networks that the modem does not answer, each with its own token.\<close>

definition search_request :: "nat \<Rightarrow> request" where
  "search_request t = \<lparr>r_code = 48, r_data = Null_data, r_data_size = 0, r_token = t\<rparr>"

definition plmn_list_query :: wire_message where
  "plmn_list_query = outgoing group_NET ''GET_PLMN_LIST'' []"

lemma plmn_list_query_data:
  "writeMessage wire_ops plmn_list_query = Some []" "expects_response plmn_list_query"
  by (simp_all add: plmn_list_query_def expects_response_def outgoing_def find_outgoing wire_ops_def message_def
      marshal_def DataStream_appending)

text \<open>After \<open>n\<close> searches: no thread waits, nothing is under way above the engine, \<open>255 - n\<close> numbers are free.\<close>

definition searched :: "nat \<Rightarrow> channel_state \<Rightarrow> bool" where
  "searched n k \<longleftrightarrow> mute_channel_step\<^sup>*\<^sup>* initial_channel k \<and>
     m_radioState (y_ril (ch_system k)) = RADIO_STATE_SIM_READY \<and> y_threads (ch_system k) = [] \<and>
     \<not> y_giving (ch_system k) \<and>
     ch_pipe k = [] \<and> ch_calls k = [] \<and> length (m_freeSequenceNumbers (ch_ipc k)) = 255 - n \<and>
     ril.in_air (y_ril (ch_system k)) =
       map (\<lambda>t. (plmn_list_query, QueryAvailableNetworksComplete (search_request t))) [0..<n]"

lemma search_handled:
  assumes "m_radioState s = RADIO_STATE_SIM_READY"
  shows "handle_request ril_h quiet_platform byte_parcels (search_request t) s =
    Finished (RIL_submit plmn_list_query (QueryAvailableNetworksComplete (search_request t)) s)"
  using dispatched [OF ril_numbers_ril_h, of quiet_platform byte_parcels RIL_REQUEST_QUERY_AVAILABLE_NETWORKS] assms
  by (simp add: handle_request_def gated_def search_request_def handleQueryAvailableNetworks_def plmn_list_query_def)

lemma search_asked:
  assumes "searched n k"
  defines "x \<equiv> (plmn_list_query, QueryAvailableNetworksComplete (search_request n))"
  obtains k1 where "mute_channel_step k k1" "ch_pipe k1 = [(plmn_list_query, Subscribed (snd x))]" "ch_calls k1 = []"
    "ch_ipc k1 = ch_ipc k" "m_radioState (y_ril (ch_system k1)) = RADIO_STATE_SIM_READY" "y_threads (ch_system k1) = []"
    "ril.in_air (y_ril (ch_system k1)) = ril.in_air (y_ril (ch_system k)) @ [x]" "\<not> y_giving (ch_system k1)"
proof -
  let ?c = "(ch_system k)\<lparr>y_received := search_request n # y_received (ch_system k)\<rparr>"
  let ?c' = "?c\<lparr>y_ril := RIL_submit plmn_list_query (snd x) (y_ril (ch_system k))\<rparr>"
  have "leave (search_request n)
      (handle_request ril_h quiet_platform byte_parcels (search_request n) (y_ril (ch_system k))) ?c = Some ?c'"
    using assms(1) by (simp add: searched_def search_handled x_def)
  from asked [OF _ refl this] have "mute_channel_step k (ril_left ?c ?c' k)"
    using assms(1) by (simp add: searched_def)
  then show thesis
    by (rule that) (use assms(1) in \<open>simp_all add: searched_def ril_left_def Let_def subscribed_messages_def
      RIL_submit_def x_def\<close>)
qed

lemma search_sent:
  assumes k: "searched n k" and n: "n < 255"
  obtains k' where "searched (Suc n) k'"
proof -
  obtain k1 where k1: "mute_channel_step k k1" "ch_calls k1 = []" "ch_ipc k1 = ch_ipc k"
      "ch_pipe k1 = [(plmn_list_query, Subscribed (QueryAvailableNetworksComplete (search_request n)))]"
      "m_radioState (y_ril (ch_system k1)) = RADIO_STATE_SIM_READY" "y_threads (ch_system k1) = []"
      "ril.in_air (y_ril (ch_system k1)) = ril.in_air (y_ril (ch_system k)) @
        [(plmn_list_query, QueryAvailableNetworksComplete (search_request n))]"
      "\<not> y_giving (ch_system k1)"
    by (rule search_asked [OF k]) simp
  let ?m = "(plmn_list_query, Subscribed (QueryAvailableNetworksComplete (search_request n)))"
  have reach: "mute_channel_step\<^sup>*\<^sup>* initial_channel k1" using k k1(1) by (auto simp: searched_def)
  have pool: "pool_inv (ch_ipc k)" "m_effects (ch_ipc k) = []"
    using simulated_reachable [OF reach] k1(3) by (simp_all add: simulated_def channel_inv_def)
  have "m_freeSequenceNumbers (ch_ipc k) \<noteq> []" using k n by (auto simp: searched_def)
  moreover have "writeMessage tagged_ops ?m = Some []" "m_requestType tagged_ops ?m \<noteq> IPC_CMD_EVENT_code"
    using plmn_list_query_data
    by (cases "c_op (w_class plmn_list_query)";
        simp add: tagged_ops_def expects_response_def wire_ops_def IPC_CMD_EVENT_code_def)+
  ultimately obtain v where v: "v \<in> set (m_freeSequenceNumbers (ch_ipc k))" and sub: "submit tagged_ops ?m (ch_ipc k) =
      Inr (emit [SendData (header_bytes (make_header tagged_ops v ?m []))] (allocated v ?m (ch_ipc k)))"
    (is "_ = Inr (emit [?send] ?st)")
    using submit_progress [OF pool(1), of tagged_ops ?m "[]"] by auto
  let ?k2 = "engine_done (emit [?send] ?st) (k1\<lparr>ch_pipe := []\<rparr>)"
  have step2: "mute_channel_step k1 ?k2"
    by (rule submitted [OF k1(8,2,4)]) (simp add: k1(3) sub)
  have "ch_calls ?k2 = [?send]" by (simp add: engine_done_def pool(2))
  from called_nothing [OF _ this] have step3: "mute_channel_step ?k2 (?k2\<lparr>ch_calls := []\<rparr>)"
    using k1(8) by (simp add: engine_done_def)
  show thesis
  proof (rule that [of "?k2\<lparr>ch_calls := []\<rparr>"])
    show "searched (Suc n) (?k2\<lparr>ch_calls := []\<rparr>)"
      unfolding searched_def
      using reach step2 step3 k1 k v n
      by (auto simp: engine_done_def searched_def length_remove1 intro: rtranclp.rtrancl_into_rtrancl)
  qed
qed

lemma searched_all: "n \<le> 255 \<Longrightarrow> \<exists>k. searched n k"
proof (induction n)
  case 0
  have "searched 0 ready_channel"
    using ready_channel_reached
    by (simp add: searched_def ready_channel_def initial_channel_def initial_system_def ril_ready_state initial_handler)
      (simp add: ril_ready_def setRadioState_def initial_ril_def unsolicited_def effect_def)
  then show ?case ..
next
  case (Suc n)
  then show ?case using search_sent by (metis Suc_le_eq Suc_leD)
qed

section \<open>Properties\<close>

text \<open>
  C15.  Android can use up the sequence numbers: 255 searches for networks, none of them answered, lead
  to a state in which every message submitted is only queued, and a response under any number that a
  request can have is undefined behaviour: \<open>handleResponse\<close> compares the allocation iterator, whose
  element was erased with the last number.  (Where that comparison happens to be harmless the
  completion is called, and it is the next submission that advances the erased iterator.)
\<close>

theorem searches_exhaust_numbers:
  "\<exists>k. reachable_channel ril_h quiet_platform byte_parcels True k \<and> ch_pipe k = [] \<and> ch_calls k = [] \<and>
     ril.in_air (y_ril (ch_system k)) =
       map (\<lambda>t. (plmn_list_query, QueryAvailableNetworksComplete (search_request t))) [0..<255] \<and>
     (\<forall>m. submit tagged_ops m (ch_ipc k) = Inr ((ch_ipc k)\<lparr>m_messageQueue := m_messageQueue (ch_ipc k) @ [m]\<rparr>)) \<and>
     (\<forall>v r. handleResponse tagged_ops v r (ch_ipc k) =
        (if v = 255 then Inr (emit [DeleteIncoming r] (ch_ipc k)) else Inl Undefined))"
proof -
  obtain k where k: "searched 255 k" using searched_all by blast
  then have reach: "reachable_channel ril_h quiet_platform byte_parcels True k"
    and free: "m_freeSequenceNumbers (ch_ipc k) = []" by (auto simp: searched_def)
  have inv: "pool_inv (ch_ipc k)" using simulated_reachable [OF reach] by (simp add: simulated_def channel_inv_def)
  then have "dom (m_messagesInAir (ch_ipc k)) = {v. v \<noteq> 255}" using free by (auto simp: pool_inv_def)
  then have "handleResponse tagged_ops v r (ch_ipc k) =
      (if v = 255 then Inr (emit [DeleteIncoming r] (ch_ipc k)) else Inl Undefined)" for v r
    by (simp add: handleResponse_exhausted [OF inv free] del: upt.simps)
  moreover have "submit tagged_ops m (ch_ipc k) =
      Inr ((ch_ipc k)\<lparr>m_messageQueue := m_messageQueue (ch_ipc k) @ [m]\<rparr>)" for m
    by (simp add: submit_def free)
  ultimately show ?thesis using k by (auto simp: searched_def simp del: upt.simps intro!: exI [of _ k])
qed

end
