(* ===== verification/ELF_Loader.thy ===== *)
theory ELF_Loader
  imports Prelude
begin

text \<open>
  The loader for 32-bit ARM libraries of the database extractor
  (database/secril-database-extractor/arm_dl.c).  The file is its contents, which do not change while
  it is read; the loaded image is a byte list at an address, and every access through a pointer is
  checked against it.
\<close>

section \<open>Memory\<close>

record image =
  i_base :: u32
  i_bytes :: "byte list"

definition put_bytes :: "nat \<Rightarrow> byte list \<Rightarrow> byte list \<Rightarrow> byte list outcome" where
  "put_bytes off d bytes =
     (if off + length d \<le> length bytes then Inr (take off bytes @ d @ drop (off + length d) bytes)
      else Inl Undefined)"

definition get_bytes :: "nat \<Rightarrow> nat \<Rightarrow> byte list \<Rightarrow> byte list outcome" where
  "get_bytes off n bytes = (if off + n \<le> length bytes then Inr (take n (drop off bytes)) else Inl Undefined)"

text \<open>Where an address lies in the image; one below it is far behind its end.\<close>

definition offset_of :: "image \<Rightarrow> u32 \<Rightarrow> nat" where
  "offset_of i a = unat (a - i_base i)"

definition load32 :: "image \<Rightarrow> u32 \<Rightarrow> u32 outcome" where
  "load32 i a = andThen (get_bytes (offset_of i a) 4 (i_bytes i)) (\<lambda>d. Inr (de32 d))"

definition load16 :: "image \<Rightarrow> u32 \<Rightarrow> u16 outcome" where
  "load16 i a = andThen (get_bytes (offset_of i a) 2 (i_bytes i)) (\<lambda>d. Inr (de16 d))"

definition store32 :: "image \<Rightarrow> u32 \<Rightarrow> u32 \<Rightarrow> image outcome" where
  "store32 i a v = andThen (put_bytes (offset_of i a) (le32 v) (i_bytes i)) (\<lambda>bs. Inr (i\<lparr>i_bytes := bs\<rparr>))"

text \<open>A string in memory: it has to end inside the image.\<close>

definition load_string :: "image \<Rightarrow> u32 \<Rightarrow> byte list outcome" where
  "load_string i a =
     (let bytes = drop (offset_of i a) (i_bytes i) in
      if 0 \<in> set bytes then Inr (takeWhile (\<lambda>b. b \<noteq> 0) bytes) else Inl Undefined)"

text \<open>\<open>strcmp\<close> of a string in memory and another: it reads up to the first difference.\<close>

fun same_string :: "byte list \<Rightarrow> byte list \<Rightarrow> bool outcome" where
  "same_string [] cs = Inl Undefined"
| "same_string (b # bs) [] = Inr (b = 0)"
| "same_string (b # bs) (c # cs) = (if b = c then same_string bs cs else Inr False)"

definition string_at :: "image \<Rightarrow> u32 \<Rightarrow> byte list \<Rightarrow> bool outcome" where
  "string_at i a symbol = same_string (drop (offset_of i a) (i_bytes i)) symbol"

section \<open>The ELF structures\<close>

record Elf32_Ehdr =
  e_ident :: "byte list"
  e_type :: u16
  e_machine :: u16
  e_version :: u32
  e_phoff :: u32
  e_phentsize :: u16
  e_phnum :: u16

definition ehdr_of :: "byte list \<Rightarrow> Elf32_Ehdr" where
  "ehdr_of d =
     \<lparr>e_ident = take 16 d, e_type = de16 (drop 16 d), e_machine = de16 (drop 18 d),
      e_version = de32 (drop 20 d), e_phoff = de32 (drop 28 d), e_phentsize = de16 (drop 42 d),
      e_phnum = de16 (drop 44 d)\<rparr>"

record Elf32_Phdr =
  p_type :: u32
  p_offset :: u32
  p_paddr :: u32
  p_filesz :: u32
  p_memsz :: u32

definition phdr_of :: "byte list \<Rightarrow> Elf32_Phdr" where
  "phdr_of d =
     \<lparr>p_type = de32 d, p_offset = de32 (drop 4 d), p_paddr = de32 (drop 12 d),
      p_filesz = de32 (drop 16 d), p_memsz = de32 (drop 20 d)\<rparr>"

definition valid_ident :: "byte list" where
  "valid_ident = [0x7f, 0x45, 0x4c, 0x46, 1, 1, 1, 0, 0]"

definition PT_LOAD :: u32 where "PT_LOAD = 1"
definition PT_DYNAMIC :: u32 where "PT_DYNAMIC = 2"

definition valid_ehdr :: "Elf32_Ehdr \<Rightarrow> bool" where
  "valid_ehdr e \<longleftrightarrow>
     take 9 (e_ident e) = valid_ident \<and> e_type e = 3 \<and> e_machine e = 40 \<and> e_version e = 1 \<and>
     e_phoff e \<noteq> 0 \<and> e_phentsize e = 32"

section \<open>Loading the segments\<close>

text \<open>
  \<open>lseek\<close> takes a signed offset: a negative one fails, and leaves the position.  The result of the
  first call is compared, as an unsigned number, with the offset.
\<close>

definition seek :: "u32 \<Rightarrow> nat \<Rightarrow> u32 \<times> nat" where
  "seek target pos = (if 0 \<le> sint target then (target, unat target) else (- 1, pos))"

definition read_at :: "byte list \<Rightarrow> nat \<Rightarrow> nat \<Rightarrow> byte list" where
  "read_at file pos n = take n (drop pos file)"

text \<open>The size of the image, from the \<open>n\<close> program headers at \<open>pos\<close>; a short read is an error.\<close>

primrec image_extent :: "nat \<Rightarrow> byte list \<Rightarrow> nat \<Rightarrow> u32 \<Rightarrow> u32 option" where
  "image_extent 0 file pos image_size = Some image_size"
| "image_extent (Suc n) file pos image_size =
     (let d = read_at file pos 32; phdr = phdr_of d; segment_end = p_paddr phdr + p_memsz phdr in
      if length d \<noteq> 32 then None
      else image_extent n file (pos + 32)
        (if p_type phdr = PT_LOAD \<and> segment_end > image_size then segment_end else image_size))"

definition round_image :: "u32 \<Rightarrow> u32 \<Rightarrow> u32" where
  "round_image page image_size = and (image_size + page) (not page)"

text \<open>A segment is copied with \<open>pread\<close>, which may deliver less, and the rest of it is cleared.\<close>

definition place_segment :: "byte list \<Rightarrow> Elf32_Phdr \<Rightarrow> byte list \<Rightarrow> byte list outcome" where
  "place_segment file phdr bytes =
     andThen (if p_filesz phdr \<noteq> 0 \<and> 0 \<le> sint (p_offset phdr)
        then put_bytes (unat (p_paddr phdr)) (read_at file (unat (p_offset phdr)) (unat (p_filesz phdr))) bytes
        else Inr bytes) (\<lambda>bytes.
       put_bytes (unat (p_paddr phdr) + unat (p_filesz phdr))
         (replicate (unat (p_memsz phdr - p_filesz phdr)) 0) bytes)"

text \<open>The second pass does not look at the results of \<open>read\<close>: a short one leaves the header undefined.\<close>

primrec place_segments ::
    "nat \<Rightarrow> byte list \<Rightarrow> nat \<Rightarrow> image \<Rightarrow> u32 option \<Rightarrow> (image \<times> u32 option) outcome"
where
  "place_segments 0 file pos i dynamic = Inr (i, dynamic)"
| "place_segments (Suc n) file pos i dynamic =
     (let d = read_at file pos 32; phdr = phdr_of d in
      if length d \<noteq> 32 then Inl Undefined
      else if p_type phdr = PT_LOAD
      then andThen (place_segment file phdr (i_bytes i)) (\<lambda>bytes.
        place_segments n file (pos + 32) (i\<lparr>i_bytes := bytes\<rparr>) dynamic)
      else place_segments n file (pos + 32) i
        (if p_type phdr = PT_DYNAMIC then Some (i_base i + p_paddr phdr) else dynamic))"

text \<open>What the host may do when asked: fail, or give an address.  Mappings come in whole pages.\<close>

datatype host_call = HostOpen | HostClose | HostMmap u32 | HostMunmap u32 u32 | HostMalloc nat | HostFree nat

record host =
  h_page :: u32
  h_call :: "(host_call, u32 option) environment"

definition mapped_length :: "host \<Rightarrow> u32 \<Rightarrow> nat" where
  "mapped_length host n =
     (unat n + unat (h_page host) - 1) div unat (h_page host) * unat (h_page host)"

text \<open>\<open>None\<close> for a null pointer: an image, the address of its dynamic section and its size.\<close>

definition load_elf_image ::
    "host \<Rightarrow> byte list \<Rightarrow> host_call list \<Rightarrow>
     ((image \<times> u32 option \<times> u32) option \<times> host_call list) outcome"
where
  "load_elf_image host file h =
     (let d = read_at file 0 52; ehdr = ehdr_of d; n = unat (e_phnum ehdr);
          (result, start) = seek (e_phoff ehdr) 52 in
      if length d \<noteq> 52 \<or> \<not> valid_ehdr ehdr \<or> result \<noteq> e_phoff ehdr then Inr (None, h)
      else case image_extent n file start 0 of
        None \<Rightarrow> Inr (None, h)
      | Some extent \<Rightarrow>
          (let image_size = round_image (h_page host) extent in
           if extent = 0 then Inr (None, h)
           else case call (h_call host) (HostMmap image_size) h of
             (None, h) \<Rightarrow> Inr (None, h)
           | (Some base, h) \<Rightarrow>
               andThen (place_segments n file (snd (seek (e_phoff ehdr) (start + 32 * n)))
                 \<lparr>i_base = base, i_bytes = replicate (mapped_length host image_size) 0\<rparr> None)
                 (\<lambda>(i, dynamic). Inr (Some (i, dynamic, image_size), h))))"

section \<open>The dynamic section\<close>

definition DT_NULL :: u32 where "DT_NULL = 0"
definition DT_HASH :: nat where "DT_HASH = 4"
definition DT_STRTAB :: nat where "DT_STRTAB = 5"
definition DT_SYMTAB :: nat where "DT_SYMTAB = 6"
definition DT_RELA :: nat where "DT_RELA = 7"
definition DT_RELASZ :: nat where "DT_RELASZ = 8"
definition DT_RELAENT :: nat where "DT_RELAENT = 9"
definition DT_REL :: nat where "DT_REL = 17"
definition DT_RELSZ :: nat where "DT_RELSZ = 18"
definition DT_RELENT :: nat where "DT_RELENT = 19"
definition DT_PLTRELSZ :: nat where "DT_PLTRELSZ = 2"
definition DT_PLTREL :: nat where "DT_PLTREL = 20"
definition DT_JMPREL :: nat where "DT_JMPREL = 23"

text \<open>Tags whose value is a number, an address in the library, or only present.\<close>

definition value_tags :: "nat list" where "value_tags = [2, 8, 9, 10, 11, 14, 15, 1, 18, 19, 20]"
definition address_tags :: "nat list" where "address_tags = [4, 5, 6, 7, 3, 12, 13, 17, 21, 23]"
definition flag_tags :: "nat list" where "flag_tags = [24, 22, 16]"

definition tag_value :: "u32 \<Rightarrow> u32 \<Rightarrow> u32 \<Rightarrow> u32 option" where
  "tag_value image_base tag d =
     (if unat tag \<in> set value_tags then Some d
      else if unat tag \<in> set address_tags then Some (image_base + d)
      else if unat tag \<in> set flag_tags then Some 1
      else None)"

text \<open>
  \<open>fuel\<close> is the number of entries that fit into the image: the loop reads behind it before it runs
  longer.
\<close>

fun dyn_entries :: "nat \<Rightarrow> image \<Rightarrow> u32 \<Rightarrow> u32 list \<Rightarrow> u32 list outcome" where
  "dyn_entries 0 i a dyn_data = Inl Undefined"
| "dyn_entries (Suc fuel) i a dyn_data =
     andThen (load32 i a) (\<lambda>tag.
       if tag = DT_NULL then Inr dyn_data
       else andThen (load32 i (a + 4)) (\<lambda>d.
         dyn_entries fuel i (a + 8)
           (case tag_value (i_base i) tag d of None \<Rightarrow> dyn_data | Some v \<Rightarrow> dyn_data[unat tag := v])))"

definition build_dyn_data :: "image \<Rightarrow> u32 option \<Rightarrow> u32 list outcome" where
  "build_dyn_data i dynamic =
     (case dynamic of
        None \<Rightarrow> Inl Undefined
      | Some a \<Rightarrow> dyn_entries (Suc (length (i_bytes i) div 8)) i a (replicate 25 0))"

section \<open>Relocation\<close>

definition R_ARM_ABS32 :: u32 where "R_ARM_ABS32 = 2"
definition R_ARM_GLOB_DAT :: u32 where "R_ARM_GLOB_DAT = 21"
definition R_ARM_JUMP_SLOT :: u32 where "R_ARM_JUMP_SLOT = 22"
definition R_ARM_RELATIVE :: u32 where "R_ARM_RELATIVE = 23"

text \<open>The section index and the value of a symbol.\<close>

definition st_shndx :: "image \<Rightarrow> u32 list \<Rightarrow> u32 \<Rightarrow> u16 outcome" where
  "st_shndx i tags symbol = load16 i (tags ! DT_SYMTAB + 16 * symbol + 14)"

definition st_value :: "image \<Rightarrow> u32 list \<Rightarrow> u32 \<Rightarrow> u32 outcome" where
  "st_value i tags symbol = load32 i (tags ! DT_SYMTAB + 16 * symbol + 4)"

text \<open>\<open>None\<close> is the result -1.\<close>

definition do_relocation ::
    "u32 list \<Rightarrow> image \<Rightarrow> u32 \<Rightarrow> u32 \<Rightarrow> u32 option \<Rightarrow> image option outcome"
where
  "do_relocation tags i offset info addend =
     (let symbol = drop_bit 8 info; target = i_base i + offset; kind = and info 0xff in
      if kind = R_ARM_GLOB_DAT \<or> kind = R_ARM_JUMP_SLOT then
        if symbol = 0 then Inr None
        else andThen (st_shndx i tags symbol) (\<lambda>shndx.
          if shndx \<noteq> 0 then Inr None
          else andThen (store32 i target (case addend of None \<Rightarrow> 0 | Some a \<Rightarrow> a)) (\<lambda>i. Inr (Some i)))
      else if kind = R_ARM_RELATIVE then
        if symbol = 0 then
          andThen (case addend of Some a \<Rightarrow> Inr (i_base i + a)
                   | None \<Rightarrow> andThen (load32 i target) (\<lambda>v. Inr (v + i_base i))) (\<lambda>v.
          andThen (store32 i target v) (\<lambda>i. Inr (Some i)))
        else Inr None
      else if kind = R_ARM_ABS32 then
        andThen (case addend of Some a \<Rightarrow> Inr a | None \<Rightarrow> load32 i target) (\<lambda>a.
          if symbol = 0 then Inr None
          else andThen (st_shndx i tags symbol) (\<lambda>shndx.
          andThen (if shndx = 0 then Inr a
                   else andThen (st_value i tags symbol) (\<lambda>v. Inr (i_base i + v + a))) (\<lambda>v.
          andThen (store32 i target v) (\<lambda>i. Inr (Some i)))))
      else Inr None)"

text \<open>
  The loops over \<open>n\<close> entries.  The code counts bytes in steps of an entry; it reads behind the image
  before its counter could wrap.
\<close>

primrec rel_loop :: "nat \<Rightarrow> u32 list \<Rightarrow> u32 \<Rightarrow> image \<Rightarrow> image option outcome" where
  "rel_loop 0 tags rel i = Inr (Some i)"
| "rel_loop (Suc n) tags rel i =
     andThen (load32 i rel) (\<lambda>offset.
     andThen (load32 i (rel + 4)) (\<lambda>info.
     andThen (do_relocation tags i offset info None) (\<lambda>r.
       case r of None \<Rightarrow> Inr None | Some i \<Rightarrow> rel_loop n tags (rel + 8) i)))"

definition do_rel :: "u32 list \<Rightarrow> image \<Rightarrow> u32 \<Rightarrow> u32 \<Rightarrow> u32 \<Rightarrow> image option outcome" where
  "do_rel tags i rel n ent =
     (if ent \<noteq> 8 then Inr None else rel_loop ((unat n + 7) div 8) tags rel i)"

primrec rela_loop :: "nat \<Rightarrow> u32 list \<Rightarrow> u32 \<Rightarrow> image \<Rightarrow> image option outcome" where
  "rela_loop 0 tags rela i = Inr (Some i)"
| "rela_loop (Suc n) tags rela i =
     andThen (load32 i rela) (\<lambda>offset.
     andThen (load32 i (rela + 4)) (\<lambda>info.
     andThen (load32 i (rela + 8)) (\<lambda>addend.
     andThen (do_relocation tags i offset info (Some addend)) (\<lambda>r.
       case r of None \<Rightarrow> Inr None | Some i \<Rightarrow> rela_loop n tags (rela + 12) i))))"

definition do_rela :: "u32 list \<Rightarrow> image \<Rightarrow> u32 \<Rightarrow> u32 \<Rightarrow> u32 \<Rightarrow> image option outcome" where
  "do_rela tags i rela n ent =
     (if ent \<noteq> 12 then Inr None else rela_loop ((unat n + 11) div 12) tags rela i)"

definition if_ok :: "image option outcome \<Rightarrow> (image \<Rightarrow> image option outcome) \<Rightarrow> image option outcome" where
  "if_ok r f = andThen r (\<lambda>r. case r of None \<Rightarrow> Inr None | Some i \<Rightarrow> f i)"

definition relocate :: "u32 list \<Rightarrow> image \<Rightarrow> image option outcome" where
  "relocate tags i =
     if_ok (if tags ! DT_REL \<noteq> 0
            then do_rel tags i (tags ! DT_REL) (tags ! DT_RELSZ) (tags ! DT_RELENT) else Inr (Some i)) (\<lambda>i.
     if_ok (if tags ! DT_RELA \<noteq> 0
            then do_rela tags i (tags ! DT_RELA) (tags ! DT_RELASZ) (tags ! DT_RELAENT) else Inr (Some i)) (\<lambda>i.
       if tags ! DT_JMPREL = 0 then Inr (Some i)
       else if unat (tags ! DT_PLTREL) = DT_REL
       then do_rel tags i (tags ! DT_JMPREL) (tags ! DT_PLTRELSZ) 8
       else if unat (tags ! DT_PLTREL) = DT_RELA
       then do_rela tags i (tags ! DT_JMPREL) (tags ! DT_PLTRELSZ) 12
       else Inr None))"

section \<open>Opening and closing\<close>

record arm_dlhandle =
  dl_image :: image
  dl_size :: u32
  dyn_data :: "u32 list"

text \<open>The two allocations of a handle: its tags and itself.\<close>

definition malloc :: "host \<Rightarrow> nat \<Rightarrow> host_call list \<Rightarrow> bool \<times> host_call list" where
  "malloc host which h = (case call (h_call host) (HostMalloc which) h of (r, h) \<Rightarrow> (r \<noteq> None, h))"

text \<open>\<open>arm_dlopen\<close> from its allocation of the handle, and from the loaded image.\<close>

definition dlopen_relocated ::
    "host \<Rightarrow> image \<Rightarrow> u32 \<Rightarrow> u32 list \<Rightarrow> host_call list \<Rightarrow> arm_dlhandle option \<times> host_call list"
where
  "dlopen_relocated host i n tags h =
     (case malloc host 2 h of
        (False, h) \<Rightarrow> (None, HostMunmap (i_base i) n # HostFree 1 # h)
      | (True, h) \<Rightarrow> (Some \<lparr>dl_image = i, dl_size = n, dyn_data = tags\<rparr>, h))"

definition dlopen_loaded ::
    "host \<Rightarrow> image \<Rightarrow> u32 option \<Rightarrow> u32 \<Rightarrow> host_call list \<Rightarrow>
     (arm_dlhandle option \<times> host_call list) outcome"
where
  "dlopen_loaded host i dynamic n h =
     (case malloc host 1 h of
        (False, h) \<Rightarrow> Inr (None, HostMunmap (i_base i) n # h)
      | (True, h) \<Rightarrow>
          andThen (build_dyn_data i dynamic) (\<lambda>tags.
          andThen (relocate tags i) (\<lambda>r.
            case r of
              None \<Rightarrow> Inr (None, HostMunmap (i_base i) n # HostFree 1 # h)
            | Some i \<Rightarrow> Inr (dlopen_relocated host i n tags h))))"

definition arm_dlopen ::
    "host \<Rightarrow> byte list \<Rightarrow> host_call list \<Rightarrow> (arm_dlhandle option \<times> host_call list) outcome"
where
  "arm_dlopen host file h =
     (case call (h_call host) HostOpen h of
        (None, h) \<Rightarrow> Inr (None, h)
      | (Some fd, h) \<Rightarrow>
          andThen (load_elf_image host file h) (\<lambda>(loaded, h).
            case loaded of
              None \<Rightarrow> Inr (None, HostClose # h)
            | Some (i, dynamic, n) \<Rightarrow> dlopen_loaded host i dynamic n (HostClose # h)))"

definition arm_dlclose :: "arm_dlhandle \<Rightarrow> host_call list \<Rightarrow> host_call list" where
  "arm_dlclose handle h =
     HostFree 2 # HostMunmap (i_base (dl_image handle)) (dl_size handle) # HostFree 1 # h"

section \<open>Looking up a symbol\<close>

definition hash_step :: "u32 \<Rightarrow> byte \<Rightarrow> u32" where
  "hash_step h c =
     (let h = push_bit 4 h + ucast c; g = and h 0xf0000000;
          h = (if g \<noteq> 0 then xor h (drop_bit 24 g) else h)
      in and h (not g))"

definition elf_hash :: "byte list \<Rightarrow> u32" where
  "elf_hash name = foldl hash_step 0 name"

text \<open>
  The walk along a chain, which may go round in circles: \<open>None\<close> when it is not finished after
  \<open>fuel\<close> symbols.
\<close>

fun chain_walk ::
    "nat \<Rightarrow> arm_dlhandle \<Rightarrow> u32 \<Rightarrow> u32 \<Rightarrow> byte list \<Rightarrow> u32 \<Rightarrow> u32 option outcome option"
where
  "chain_walk 0 handle chain nchain symbol y = None"
| "chain_walk (Suc fuel) handle chain nchain symbol y =
     (let i = dl_image handle; tags = dyn_data handle in
      if y = 0 \<or> y \<ge> nchain then Some (Inr None)
      else case andThen (load32 i (tags ! DT_SYMTAB + 16 * y)) (\<lambda>st_name.
          string_at i (tags ! DT_STRTAB + st_name) symbol) of
        Inl e \<Rightarrow> Some (Inl e)
      | Inr same \<Rightarrow>
          if same
          then Some (andThen (st_value i tags y) (\<lambda>v. Inr (Some (i_base i + v))))
          else (case load32 i (chain + 4 * y) of
                  Inl e \<Rightarrow> Some (Inl e)
                | Inr y \<Rightarrow> chain_walk fuel handle chain nchain symbol y))"

definition arm_dlsym :: "nat \<Rightarrow> arm_dlhandle \<Rightarrow> byte list \<Rightarrow> u32 option outcome option" where
  "arm_dlsym fuel handle symbol =
     (let i = dl_image handle; hash = dyn_data handle ! DT_HASH in
      case andThen (load32 i hash) (\<lambda>nbucket. andThen (load32 i (hash + 4)) (\<lambda>nchain.
        if nbucket = 0 then Inl Undefined
        else andThen (load32 i (hash + 8 + 4 * (elf_hash symbol mod nbucket))) (\<lambda>y.
          Inr (hash + 8 + 4 * nbucket, nchain, y)))) of
        Inl e \<Rightarrow> Some (Inl e)
      | Inr (chain, nchain, y) \<Rightarrow> chain_walk fuel handle chain nchain symbol y)"

section \<open>The size of the image\<close>

text \<open>The rounding of the image size is not the rounding to pages that its mask suggests: it adds a page
  when the page's bit of the size is set and nothing otherwise.  It never makes the image smaller,
  unless the sum wraps, but the result need not be a multiple of the page size.\<close>

theorem image_rounding:
  assumes "k < 32"
  shows "round_image (push_bit k 1) n = (if bit n k then n + push_bit k 1 else n)"
proof -
  have low: "bit (m + push_bit (Suc k) 1) k = bit m k" for m :: u32
  proof -
    have zero: "take_bit (Suc k) (uint (push_bit (Suc k) 1 :: u32)) = 0"
    proof -
      have "take_bit (Suc k) (push_bit (Suc k) 1 :: u32) = 0"
        unfolding take_bit_push_bit by simp
      then show ?thesis by (metis unsigned_take_bit_eq unsigned_0)
    qed
    have "take_bit (Suc k) (uint (m + push_bit (Suc k) 1)) =
        take_bit (Suc k) (take_bit (Suc k) (uint m) + take_bit (Suc k) (uint (push_bit (Suc k) 1 :: u32)))"
      using assms by (simp add: uint_word_arith_bintrs(1) take_bit_add take_bit_take_bit min_def)
    then have "take_bit (Suc k) (uint (m + push_bit (Suc k) 1)) = take_bit (Suc k) (uint m)"
      by (simp only: zero) simp
    then have "bit (take_bit (Suc k) (uint (m + push_bit (Suc k) 1))) k = bit (take_bit (Suc k) (uint m)) k"
      by (simp only:)
    then show ?thesis using assms by (simp only: bit_take_bit_iff bit_unsigned_iff) auto
  qed
  show ?thesis
  proof (cases "bit n k")
    case False
    then have "n + push_bit k 1 = or n (push_bit k 1)"
      by (intro disjunctive_add) (auto simp: bit_simps)
    with False show ?thesis
      by (auto simp: round_image_def bit_simps intro!: bit_word_eqI)
  next
    case True
    define m where "m = and n (not (push_bit k 1))"
    have "m + push_bit k 1 = or m (push_bit k 1)"
      by (intro disjunctive_add) (auto simp: m_def bit_simps)
    also have "\<dots> = n"
      using True by (auto simp: m_def bit_simps intro!: bit_word_eqI)
    finally have "n + push_bit k 1 = m + (push_bit k 1 + push_bit k 1)"
      by (simp only: add.assoc [symmetric])
    also have "push_bit k 1 + push_bit k 1 = (push_bit (Suc k) 1 :: u32)"
      by (simp only: push_bit_Suc push_bit_of_1) simp
    finally have "bit (n + push_bit k 1) k = bit m k"
      by (simp only: low)
    then have "\<not> bit (n + push_bit k 1) k"
      by (simp only: m_def bit_and_iff bit_not_iff bit_push_bit_iff) simp
    with True show ?thesis
      by (auto simp: round_image_def bit_simps intro!: bit_word_eqI)
  qed
qed

lemma image_rounding_witness:
  "round_image 0x1000 0x3fff = 0x4fff \<and> round_image 0x1000 0x2fff = 0x2fff"
  using image_rounding [of 12 "0x3fff"] image_rounding [of 12 "0x2fff"] by (simp add: bit_numeral_rec)

section \<open>The hash\<close>

text \<open>The hash of a name has 28 bits, whatever the name.\<close>

theorem elf_hash_bounded: "elf_hash name < 2 ^ 28"
proof -
  have step: "\<not> bit (hash_step h c) n" if "28 \<le> n" for h c n
  proof (cases "n < 32")
    case True
    have "n \<in> {28, 29, 30, 31}" using that True by auto
    then show ?thesis by (auto simp: hash_step_def Let_def bit_simps bit_numeral_rec)
  next
    case False
    then show ?thesis using bit_imp_le_length [of "hash_step h c" n] by auto
  qed
  have "\<not> bit (foldl hash_step h name) n" if "28 \<le> n" "\<forall>n\<ge>28. \<not> bit h n" for h n
    using that by (induction name arbitrary: h) (auto simp: step)
  from this [of _ 0] have "\<not> bit (elf_hash name) n" if "28 \<le> n" for n
    using that by (simp add: elf_hash_def)
  then have "take_bit 28 (elf_hash name) = elf_hash name"
    by (intro bit_word_eqI) (metis bit_take_bit_iff not_le)
  then have "unat (elf_hash name) = take_bit 28 (unat (elf_hash name))"
    by (metis unsigned_take_bit_eq)
  also have "\<dots> < 2 ^ 28" by (rule take_bit_nat_less_exp)
  finally show ?thesis by (simp add: word_less_nat_alt)
qed

end
