(* ===== verification/ELF_Correct.thy ===== *)
theory ELF_Correct
  imports ELF_Loader
begin

text \<open>
  Correctness of the loader of arm_dl.c: the segments of a well-formed library are where their
  headers say, the relative relocations rebase their words, symbols are found exactly along their
  chain, and every resource is given back.
\<close>

section \<open>Writing into a byte list\<close>

definition splice :: "nat \<Rightarrow> byte list \<Rightarrow> byte list \<Rightarrow> byte list" where
  "splice p d bytes = take p bytes @ d @ drop (p + length d) bytes"

definition range_of :: "nat \<Rightarrow> nat \<Rightarrow> byte list \<Rightarrow> byte list" where
  "range_of p n bytes = take n (drop p bytes)"

lemma put_bytes_splice:
  "p + length d \<le> length bytes \<Longrightarrow> put_bytes p d bytes = Inr (splice p d bytes)"
  by (simp add: put_bytes_def splice_def)

lemma get_bytes_range: "p + n \<le> length bytes \<Longrightarrow> get_bytes p n bytes = Inr (range_of p n bytes)"
  by (simp add: get_bytes_def range_of_def)

lemma length_splice [simp]: "p + length d \<le> length bytes \<Longrightarrow> length (splice p d bytes) = length bytes"
  by (simp add: splice_def)

lemma splice_same: "p + length d \<le> length bytes \<Longrightarrow> n = length d \<Longrightarrow> range_of p n (splice p d bytes) = d"
  by (simp add: splice_def range_of_def)

lemma splice_other:
  assumes "p + length d \<le> length bytes" "q + n \<le> p \<or> p + length d \<le> q"
  shows "range_of q n (splice p d bytes) = range_of q n bytes"
  using assms(2)
proof
  assume "q + n \<le> p"
  with assms(1) show ?thesis
    by (simp add: splice_def range_of_def drop_append min_def take_append) (simp add: take_drop min_def)
next
  assume "p + length d \<le> q"
  with assms(1) show ?thesis
    by (simp add: splice_def range_of_def drop_append)
qed

lemma splice_splice:
  "p + length d + length e \<le> length bytes \<Longrightarrow> splice (p + length d) e (splice p d bytes) = splice p (d @ e) bytes"
  by (simp add: splice_def drop_append ac_simps)

section \<open>Segments\<close>

definition headers :: "nat \<Rightarrow> byte list \<Rightarrow> nat \<Rightarrow> Elf32_Phdr list" where
  "headers n file pos = map (\<lambda>j. phdr_of (read_at file (pos + 32 * j) 32)) [0..<n]"

lemma headers_Suc: "headers (Suc n) file pos = phdr_of (read_at file pos 32) # headers n file (pos + 32)"
  by (simp add: headers_def upt_conv_Cons map_Suc_upt [symmetric] comp_def add.assoc del: upt.simps)

text \<open>A segment that has its bytes in the file and its place in an image of \<open>len\<close> bytes.\<close>

definition well_placed :: "byte list \<Rightarrow> nat \<Rightarrow> Elf32_Phdr \<Rightarrow> bool" where
  "well_placed file len ph \<longleftrightarrow>
     p_filesz ph \<le> p_memsz ph \<and> unat (p_paddr ph) + unat (p_memsz ph) \<le> len \<and>
     0 \<le> sint (p_offset ph) \<and> unat (p_offset ph) + unat (p_filesz ph) \<le> length file"

definition apart :: "Elf32_Phdr \<Rightarrow> Elf32_Phdr \<Rightarrow> bool" where
  "apart a b \<longleftrightarrow> unat (p_paddr a) + unat (p_memsz a) \<le> unat (p_paddr b) \<or>
     unat (p_paddr b) + unat (p_memsz b) \<le> unat (p_paddr a)"

definition content :: "byte list \<Rightarrow> Elf32_Phdr \<Rightarrow> byte list" where
  "content file ph =
     read_at file (unat (p_offset ph)) (unat (p_filesz ph)) @
     replicate (unat (p_memsz ph) - unat (p_filesz ph)) 0"

definition loadable :: "Elf32_Phdr list \<Rightarrow> Elf32_Phdr list" where
  "loadable phs = filter (\<lambda>ph. p_type ph = PT_LOAD) phs"

lemma length_content: "well_placed file len ph \<Longrightarrow> length (content file ph) = unat (p_memsz ph)"
  by (auto simp: content_def well_placed_def read_at_def word_le_nat_alt min_def)

lemma place_segment_splice:
  assumes "well_placed file (length bytes) ph"
  shows "place_segment file ph bytes = Inr (splice (unat (p_paddr ph)) (content file ph) bytes)"
proof -
  let ?d = "read_at file (unat (p_offset ph)) (unat (p_filesz ph))"
  have d: "length ?d = unat (p_filesz ph)" using assms by (auto simp: well_placed_def read_at_def min_def)
  have le: "unat (p_filesz ph) \<le> unat (p_memsz ph)" "0 \<le> sint (p_offset ph)"
    "unat (p_memsz ph - p_filesz ph) = unat (p_memsz ph) - unat (p_filesz ph)"
    using assms by (auto simp: well_placed_def word_le_nat_alt unat_sub)
  have fit: "unat (p_paddr ph) + unat (p_memsz ph) \<le> length bytes"
    using assms by (simp add: well_placed_def)
  have first: "(if p_filesz ph \<noteq> 0 \<and> 0 \<le> sint (p_offset ph)
        then put_bytes (unat (p_paddr ph)) ?d bytes else Inr bytes) =
      Inr (splice (unat (p_paddr ph)) ?d bytes)"
  proof (cases "p_filesz ph = 0")
    case True
    then show ?thesis by (simp add: read_at_def splice_def)
  next
    case False
    then show ?thesis using le fit d by (simp add: put_bytes_splice)
  qed
  have "put_bytes (unat (p_paddr ph) + unat (p_filesz ph))
      (replicate (unat (p_memsz ph - p_filesz ph)) 0) (splice (unat (p_paddr ph)) ?d bytes) =
    Inr (splice (unat (p_paddr ph) + length ?d)
      (replicate (unat (p_memsz ph) - unat (p_filesz ph)) 0) (splice (unat (p_paddr ph)) ?d bytes))"
    using le fit d by (simp add: put_bytes_splice)
  also have "\<dots> = Inr (splice (unat (p_paddr ph)) (content file ph) bytes)"
    using le fit d by (subst splice_splice) (simp_all add: content_def)
  finally show ?thesis
    unfolding place_segment_def first by simp
qed

lemma segments_placed:
  assumes "pos + 32 * n \<le> length file"
    and "\<forall>ph\<in>set (loadable (headers n file pos)). well_placed file (length (i_bytes i)) ph"
    and "sorted_wrt apart (loadable (headers n file pos))"
  shows "\<exists>bytes d. place_segments n file pos i dynamic = Inr (i\<lparr>i_bytes := bytes\<rparr>, d)
    \<and> length bytes = length (i_bytes i)
    \<and> (\<forall>ph\<in>set (loadable (headers n file pos)).
         range_of (unat (p_paddr ph)) (unat (p_memsz ph)) bytes = content file ph)
    \<and> (\<forall>q m. (\<forall>ph\<in>set (loadable (headers n file pos)).
           q + m \<le> unat (p_paddr ph) \<or> unat (p_paddr ph) + unat (p_memsz ph) \<le> q) \<longrightarrow>
         range_of q m bytes = range_of q m (i_bytes i))"
  using assms
proof (induction n arbitrary: pos i dynamic)
  case 0
  then show ?case by (intro exI [of _ "i_bytes i"]) (simp add: headers_def loadable_def)
next
  case (Suc n)
  let ?ph = "phdr_of (read_at file pos 32)"
  have len: "length (read_at file pos 32) = 32" using Suc.prems(1) by (simp add: read_at_def)
  have pos: "pos + 32 + 32 * n \<le> length file" using Suc.prems(1) by simp
  show ?case
  proof (cases "p_type ?ph = PT_LOAD")
    case False
    with Suc.prems have "loadable (headers (Suc n) file pos) = loadable (headers n file (pos + 32))"
      by (simp add: loadable_def headers_Suc)
    with Suc.IH [OF pos, of i] Suc.prems False len show ?thesis by (simp add: Let_def)
  next
    case True
    let ?bs = "splice (unat (p_paddr ?ph)) (content file ?ph) (i_bytes i)"
    have l: "loadable (headers (Suc n) file pos) = ?ph # loadable (headers n file (pos + 32))"
      using True by (simp add: loadable_def headers_Suc)
    then have wp: "well_placed file (length (i_bytes i)) ?ph" using Suc.prems(2) by simp
    then have fit: "unat (p_paddr ?ph) + length (content file ?ph) \<le> length (i_bytes i)"
      "length (content file ?ph) = unat (p_memsz ?ph)"
      using length_content [OF wp] by (simp_all add: well_placed_def)
    from Suc.IH [OF pos, of "i\<lparr>i_bytes := ?bs\<rparr>" dynamic] l Suc.prems(2,3) fit obtain bytes d where
      r: "place_segments n file (pos + 32) (i\<lparr>i_bytes := ?bs\<rparr>) dynamic = Inr (i\<lparr>i_bytes := bytes\<rparr>, d)"
        "length bytes = length (i_bytes i)"
      and own: "\<forall>ph\<in>set (loadable (headers n file (pos + 32))).
         range_of (unat (p_paddr ph)) (unat (p_memsz ph)) bytes = content file ph"
      and frame: "\<And>q m. (\<forall>ph\<in>set (loadable (headers n file (pos + 32))).
           q + m \<le> unat (p_paddr ph) \<or> unat (p_paddr ph) + unat (p_memsz ph) \<le> q) \<Longrightarrow>
         range_of q m bytes = range_of q m ?bs"
      by auto
    have "range_of (unat (p_paddr ?ph)) (unat (p_memsz ?ph)) bytes = content file ?ph"
      using frame [of "unat (p_paddr ?ph)" "unat (p_memsz ?ph)"] Suc.prems(3) l
        splice_same [OF fit(1) fit(2) [symmetric]]
      by (auto simp: apart_def)
    moreover have "place_segments (Suc n) file pos i dynamic = Inr (i\<lparr>i_bytes := bytes\<rparr>, d)"
      using True len r(1) place_segment_splice [OF wp] by (simp add: Let_def)
    moreover have "range_of q m bytes = range_of q m (i_bytes i)"
      if "\<forall>ph\<in>set (loadable (headers (Suc n) file pos)).
           q + m \<le> unat (p_paddr ph) \<or> unat (p_paddr ph) + unat (p_memsz ph) \<le> q" for q m
      using that frame [of q m] splice_other [OF fit(1), of q m] l fit(2) by simp
    ultimately show ?thesis using r(2) own l by auto
  qed
qed

text \<open>C35. Loading a library whose segments are well placed and apart from each other never leaves the image,
  and puts into it, for every segment, its bytes of the file followed by zeros.\<close>

theorem segments_loaded:
  assumes "pos + 32 * n \<le> length file"
    and "\<forall>ph\<in>set (loadable (headers n file pos)). well_placed file (length (i_bytes i)) ph"
    and "sorted_wrt apart (loadable (headers n file pos))"
  shows "\<exists>bytes d. place_segments n file pos i dynamic = Inr (i\<lparr>i_bytes := bytes\<rparr>, d)
    \<and> length bytes = length (i_bytes i)
    \<and> (\<forall>ph\<in>set (loadable (headers n file pos)).
         range_of (unat (p_paddr ph)) (unat (p_memsz ph)) bytes = content file ph)"
  using segments_placed [OF assms] by blast

text \<open>A segment that has more bytes in the file than in memory makes the loader clear almost the whole
  address space behind the segment, which leaves every image.\<close>

theorem oversized_segment_overruns:
  assumes "p_filesz ph = p_memsz ph + 1" "p_memsz ph + 1 \<noteq> 0" "length bytes < 2 ^ 32 - 1"
  shows "place_segment file ph bytes = Inl Undefined"
proof -
  have "p_memsz ph - p_filesz ph = - 1" using assms(1) by simp
  then have "unat (p_memsz ph - p_filesz ph) = 2 ^ 32 - 1"
    by (simp add: unsigned_minus_1_eq_mask mask_eq_exp_minus_1)
  then have "put_bytes p (replicate (unat (p_memsz ph - p_filesz ph)) 0) bs = Inl Undefined"
    if "length bs = length bytes" for p bs
    using assms(3) that by (simp add: put_bytes_def)
  then show ?thesis
    by (auto simp: place_segment_def put_bytes_def andThen_def split: sum.splits)
qed

section \<open>Relative relocations\<close>

definition word_at :: "image \<Rightarrow> nat \<Rightarrow> u32" where
  "word_at i p = de32 (range_of p 4 (i_bytes i))"

lemma load32_word: "offset_of i a + 4 \<le> length (i_bytes i) \<Longrightarrow> load32 i a = Inr (word_at i (offset_of i a))"
  by (simp add: load32_def get_bytes_range word_at_def)

lemma store32_splice:
  "offset_of i a + 4 \<le> length (i_bytes i) \<Longrightarrow>
   store32 i a v = Inr (i\<lparr>i_bytes := splice (offset_of i a) (le32 v) (i_bytes i)\<rparr>)"
  by (simp add: store32_def put_bytes_splice)

lemma offset_of_add:
  "offset_of i a + unat d < 2 ^ 32 \<Longrightarrow> offset_of i (a + d) = offset_of i a + unat d"
proof -
  assume "offset_of i a + unat d < 2 ^ 32"
  then have "unat ((a - i_base i) + d) = unat (a - i_base i) + unat d"
    unfolding offset_of_def by (intro unat_add_lem [THEN iffD1]) simp
  moreover have "(a - i_base i) + d = a + d - i_base i" by simp
  ultimately show ?thesis by (simp only: offset_of_def)
qed

lemma offset_of_base [simp]: "offset_of i (i_base i + d) = unat d"
  by (simp add: offset_of_def)

lemma relative_step:
  assumes "unat offset + 4 \<le> length (i_bytes i)"
  shows "do_relocation tags i offset R_ARM_RELATIVE None = Inr (Some (i\<lparr>i_bytes :=
    splice (unat offset) (le32 (word_at i (unat offset) + i_base i)) (i_bytes i)\<rparr>))"
  using assms
  by (simp add: do_relocation_def R_ARM_RELATIVE_def R_ARM_GLOB_DAT_def R_ARM_JUMP_SLOT_def
      load32_word store32_splice)

text \<open>The words at the targets \<open>off 0\<close> to \<open>off (n - 1)\<close>, apart from each other and from the table at \<open>r\<close>.\<close>

definition relative_table :: "image \<Rightarrow> nat \<Rightarrow> nat \<Rightarrow> (nat \<Rightarrow> u32) \<Rightarrow> bool" where
  "relative_table i r n off \<longleftrightarrow>
     r + 8 * n \<le> length (i_bytes i) \<and> length (i_bytes i) < 2 ^ 32 \<and>
     (\<forall>j<n. word_at i (r + 8 * j) = off j \<and> word_at i (r + 8 * j + 4) = R_ARM_RELATIVE \<and>
        unat (off j) + 4 \<le> length (i_bytes i) \<and>
        (unat (off j) + 4 \<le> r \<or> r + 8 * n \<le> unat (off j)) \<and>
        (\<forall>k<n. k \<noteq> j \<longrightarrow> unat (off k) + 4 \<le> unat (off j) \<or> unat (off j) + 4 \<le> unat (off k)))"

lemma relative_table_step:
  fixes v :: u32
  assumes t: "relative_table i r (Suc n) off"
  defines "i1 \<equiv> i\<lparr>i_bytes := splice (unat (off 0)) (le32 v) (i_bytes i)\<rparr>"
  shows "relative_table i1 (r + 8) n (\<lambda>j. off (Suc j))"
proof -
  have fit: "unat (off 0) + length (le32 v) \<le> length (i_bytes i)"
    using t by (simp add: relative_table_def)
  have same: "word_at i1 q = word_at i q" if "q + 4 \<le> unat (off 0) \<or> unat (off 0) + 4 \<le> q" for q
    using splice_other [OF fit, of q 4] that by (simp add: word_at_def i1_def)
  have table: "word_at i1 (r + 8 + 8 * j) = off (Suc j)" "word_at i1 (r + 8 + 8 * j + 4) = R_ARM_RELATIVE"
    if "j < n" for j
  proof -
    have sep: "unat (off 0) + 4 \<le> r \<or> r + 8 * Suc n \<le> unat (off 0)"
      using t unfolding relative_table_def by blast
    have j: "word_at i (r + 8 * Suc j) = off (Suc j)" "word_at i (r + 8 * Suc j + 4) = R_ARM_RELATIVE"
      using t that unfolding relative_table_def by (meson Suc_less_eq)+
    have "word_at i1 (r + 8 * Suc j) = word_at i (r + 8 * Suc j)"
      by (rule same) (use sep that in auto)
    moreover have "word_at i1 (r + 8 * Suc j + 4) = word_at i (r + 8 * Suc j + 4)"
      by (rule same) (use sep that in auto)
    ultimately show "word_at i1 (r + 8 + 8 * j) = off (Suc j)"
      "word_at i1 (r + 8 + 8 * j + 4) = R_ARM_RELATIVE"
      using j by (simp_all add: ac_simps)
  qed
  have len: "length (i_bytes i1) = length (i_bytes i)" using fit by (simp add: i1_def)
  have rest: "unat (off (Suc j)) + 4 \<le> length (i_bytes i)"
    "unat (off (Suc j)) + 4 \<le> r + 8 \<or> r + 8 + 8 * n \<le> unat (off (Suc j))" if "j < n" for j
    using t that unfolding relative_table_def by (force, force)
  show ?thesis
    unfolding relative_table_def len
    using table rest t by (simp add: relative_table_def)
qed

text \<open>The image after the relocations: the targets are rebased and nothing else changes.\<close>

definition rebased :: "image \<Rightarrow> nat \<Rightarrow> (nat \<Rightarrow> u32) \<Rightarrow> byte list \<Rightarrow> bool" where
  "rebased i n off bytes \<longleftrightarrow>
     length bytes = length (i_bytes i) \<and>
     (\<forall>j<n. word_at (i\<lparr>i_bytes := bytes\<rparr>) (unat (off j)) = word_at i (unat (off j)) + i_base i) \<and>
     (\<forall>q m. (\<forall>j<n. q + m \<le> unat (off j) \<or> unat (off j) + 4 \<le> q) \<longrightarrow>
        range_of q m bytes = range_of q m (i_bytes i))"

lemma rebased_Suc:
  fixes i off
  defines "v \<equiv> word_at i (unat (off 0)) + i_base i"
  defines "bs \<equiv> splice (unat (off 0)) (le32 v) (i_bytes i)"
  assumes t: "relative_table i r (Suc n) off" and r: "rebased (i\<lparr>i_bytes := bs\<rparr>) n (\<lambda>j. off (Suc j)) bytes"
  shows "rebased i (Suc n) off bytes"
proof -
  have fit: "unat (off 0) + length (le32 v) \<le> length (i_bytes i)"
    using t by (simp add: relative_table_def)
  have apart: "unat (off k) + 4 \<le> unat (off j) \<or> unat (off j) + 4 \<le> unat (off k)"
    if "j < Suc n" "k < Suc n" "k \<noteq> j" for j k
    using t that unfolding relative_table_def by blast
  have frame: "range_of q m bytes = range_of q m bs"
    if "\<forall>j<n. q + m \<le> unat (off (Suc j)) \<or> unat (off (Suc j)) + 4 \<le> q" for q m
    using r that by (simp add: rebased_def)
  have kept: "range_of q m bs = range_of q m (i_bytes i)"
    if "q + m \<le> unat (off 0) \<or> unat (off 0) + 4 \<le> q" for q m
    unfolding bs_def using splice_other [OF fit, of q m] that by simp
  have "range_of (unat (off 0)) 4 bytes = range_of (unat (off 0)) 4 bs"
    using frame [of "unat (off 0)" 4] apart [of 0] by auto
  also have "\<dots> = le32 v"
    unfolding bs_def by (rule splice_same [OF fit]) simp
  finally have first: "word_at (i\<lparr>i_bytes := bytes\<rparr>) (unat (off 0)) = v"
    by (simp add: word_at_def)
  have others: "word_at (i\<lparr>i_bytes := bytes\<rparr>) (unat (off (Suc j))) = word_at i (unat (off (Suc j))) + i_base i"
    if "j < n" for j
    using r that kept [of "unat (off (Suc j))" 4] apart [of 0 "Suc j"]
    by (simp add: rebased_def word_at_def)
  have "length bytes = length (i_bytes i)" using r fit by (simp add: rebased_def bs_def)
  moreover have "\<forall>j<Suc n. word_at (i\<lparr>i_bytes := bytes\<rparr>) (unat (off j)) = word_at i (unat (off j)) + i_base i"
    using first others unfolding v_def by (metis less_Suc_eq_0_disj)
  moreover have "range_of q m bytes = range_of q m (i_bytes i)"
    if "\<forall>j<Suc n. q + m \<le> unat (off j) \<or> unat (off j) + 4 \<le> q" for q m
    using frame [of q m] kept [of q m] that by auto
  ultimately show ?thesis by (simp add: rebased_def)
qed

lemma rel_loop_rebases:
  assumes "relative_table i (offset_of i rel) n off"
  shows "\<exists>bytes. rel_loop n tags rel i = Inr (Some (i\<lparr>i_bytes := bytes\<rparr>)) \<and> rebased i n off bytes"
  using assms
proof (induction n arbitrary: i rel off)
  case 0
  then show ?case by (intro exI [of _ "i_bytes i"]) (simp add: rebased_def)
next
  case (Suc n)
  let ?r = "offset_of i rel" and ?t = "unat (off 0)"
  define i1 where "i1 = i\<lparr>i_bytes := splice ?t (le32 (word_at i ?t + i_base i)) (i_bytes i)\<rparr>"
  have t: "?r + 8 * Suc n \<le> length (i_bytes i)" "length (i_bytes i) < 2 ^ 32"
    "word_at i ?r = off 0" "word_at i (?r + 4) = R_ARM_RELATIVE" "?t + 4 \<le> length (i_bytes i)"
    using Suc.prems by (auto simp: relative_table_def)
  have a4: "offset_of i (rel + 4) = ?r + 4" using offset_of_add [of i rel 4] t by simp
  have a8: "offset_of i1 (rel + 8) = ?r + 8"
    using offset_of_add [of i rel 8] t by (simp add: i1_def offset_of_def)
  have step: "rel_loop (Suc n) tags rel i = rel_loop n tags (rel + 8) i1"
    using t a4 relative_step [OF t(5)] by (simp add: load32_word i1_def)
  have "relative_table i1 (offset_of i1 (rel + 8)) n (\<lambda>j. off (Suc j))"
    unfolding a8 using relative_table_step [OF Suc.prems] by (simp only: i1_def)
  from Suc.IH [OF this] obtain bytes where
    "rel_loop n tags (rel + 8) i1 = Inr (Some (i1\<lparr>i_bytes := bytes\<rparr>))"
    "rebased i1 n (\<lambda>j. off (Suc j)) bytes" by blast
  with step rebased_Suc [OF Suc.prems, of bytes] show ?case
    by (intro exI [of _ bytes]) (simp add: i1_def)
qed

text \<open>C36. Relative relocations add the address of the image to exactly the words they name: every target, when
  the targets are apart from each other and from the table, has its old value plus the address, and
  no other byte of the image changes.\<close>

theorem relative_relocations:
  assumes "relative_table i (offset_of i rel) n off"
  shows "\<exists>bytes. rel_loop n tags rel i = Inr (Some (i\<lparr>i_bytes := bytes\<rparr>))
    \<and> length bytes = length (i_bytes i)
    \<and> (\<forall>j<n. word_at (i\<lparr>i_bytes := bytes\<rparr>) (unat (off j)) = word_at i (unat (off j)) + i_base i)
    \<and> (\<forall>q m. (\<forall>j<n. q + m \<le> unat (off j) \<or> unat (off j) + 4 \<le> q) \<longrightarrow>
         range_of q m bytes = range_of q m (i_bytes i))"
  using rel_loop_rebases [OF assms] unfolding rebased_def .

section \<open>Symbols\<close>

text \<open>Whether symbol \<open>y\<close> has the name.\<close>

definition named :: "arm_dlhandle \<Rightarrow> byte list \<Rightarrow> u32 \<Rightarrow> bool outcome" where
  "named handle symbol y =
     andThen (load32 (dl_image handle) (dyn_data handle ! DT_SYMTAB + 16 * y)) (\<lambda>st_name.
       string_at (dl_image handle) (dyn_data handle ! DT_STRTAB + st_name) symbol)"

text \<open>The chain that starts with \<open>y\<close> has the symbols \<open>ys\<close>, all of them readable.\<close>

primrec linked :: "arm_dlhandle \<Rightarrow> byte list \<Rightarrow> u32 \<Rightarrow> u32 \<Rightarrow> u32 list \<Rightarrow> u32 \<Rightarrow> bool" where
  "linked handle symbol chain nchain [] y = (y = 0 \<or> nchain \<le> y)"
| "linked handle symbol chain nchain (z # zs) y =
     (z = y \<and> y \<noteq> 0 \<and> y < nchain \<and> (\<exists>b. named handle symbol y = Inr b) \<and>
      (\<exists>next. load32 (dl_image handle) (chain + 4 * y) = Inr next \<and>
         linked handle symbol chain nchain zs next))"

definition symbol_address :: "arm_dlhandle \<Rightarrow> u32 \<Rightarrow> u32 option outcome" where
  "symbol_address handle y =
     andThen (st_value (dl_image handle) (dyn_data handle) y) (\<lambda>v.
       Inr (Some (i_base (dl_image handle) + v)))"

lemma chain_walk_named:
  "chain_walk (Suc fuel) handle chain nchain symbol y =
     (if y = 0 \<or> y \<ge> nchain then Some (Inr None)
      else case named handle symbol y of
        Inl e \<Rightarrow> Some (Inl e)
      | Inr same \<Rightarrow>
          if same then Some (symbol_address handle y)
          else (case load32 (dl_image handle) (chain + 4 * y) of
                  Inl e \<Rightarrow> Some (Inl e)
                | Inr y \<Rightarrow> chain_walk fuel handle chain nchain symbol y))"
  unfolding chain_walk.simps named_def symbol_address_def Let_def by (rule refl)

lemma chain_walk_linked:
  assumes "linked handle symbol chain nchain ys y" "length ys < fuel"
  shows "chain_walk fuel handle chain nchain symbol y =
    (case find (\<lambda>z. named handle symbol z = Inr True) ys of
       None \<Rightarrow> Some (Inr None) | Some z \<Rightarrow> Some (symbol_address handle z))"
  using assms
proof (induction ys arbitrary: y fuel)
  case Nil
  then obtain f where "fuel = Suc f" by (cases fuel) auto
  with Nil show ?case by auto
next
  case (Cons z zs)
  then obtain f b n where f: "fuel = Suc f" and b: "named handle symbol y = Inr b"
    and n: "load32 (dl_image handle) (chain + 4 * y) = Inr n" "linked handle symbol chain nchain zs n"
    and y: "z = y" "y \<noteq> 0" "y < nchain" "length zs < f"
    by (cases fuel) auto
  have "\<not> nchain \<le> y" using y(3) by simp
  with Cons.IH [OF n(2) y(4)] b n(1) y f show ?case
    by (simp add: chain_walk_named del: chain_walk.simps)
qed

text \<open>C37. A lookup walks the chain of the bucket of the name's hash and returns: it gives the address of the
  first symbol of the chain that has the name, and null when there is none.\<close>

theorem symbol_lookup:
  fixes handle symbol
  defines "i \<equiv> dl_image handle" and "hash \<equiv> dyn_data handle ! DT_HASH"
  assumes "load32 i hash = Inr nbucket" "load32 i (hash + 4) = Inr nchain" "nbucket \<noteq> 0"
    and "load32 i (hash + 8 + 4 * (elf_hash symbol mod nbucket)) = Inr y"
    and "linked handle symbol (hash + 8 + 4 * nbucket) nchain ys y" "length ys < fuel"
  shows "arm_dlsym fuel handle symbol =
    (case find (\<lambda>z. named handle symbol z = Inr True) ys of
       None \<Rightarrow> Some (Inr None) | Some z \<Rightarrow> Some (symbol_address handle z))"
  using assms chain_walk_linked [OF assms(7,8)] by (simp add: arm_dlsym_def)

text \<open>A chain that comes back to a symbol of another name is walked forever.\<close>

theorem circular_chain_hangs:
  assumes "y \<noteq> 0" "y < nchain" "named handle symbol y = Inr False"
    and "load32 (dl_image handle) (chain + 4 * y) = Inr y"
  shows "chain_walk fuel handle chain nchain symbol y = None"
  using assms
  by (induction fuel) (simp_all add: chain_walk_named not_le del: chain_walk.simps(2))

section \<open>Resources\<close>

datatype resource = Descriptor | Mapping u32 u32 | Block nat

text \<open>What is held after some calls (the newest first).\<close>

primrec held :: "host \<Rightarrow> host_call list \<Rightarrow> resource set" where
  "held host [] = {}"
| "held host (c # h) =
     (case c of
        HostOpen \<Rightarrow> (if h_call host h c = None then held host h else insert Descriptor (held host h))
      | HostClose \<Rightarrow> held host h - {Descriptor}
      | HostMmap n \<Rightarrow>
          (case h_call host h c of None \<Rightarrow> held host h | Some b \<Rightarrow> insert (Mapping b n) (held host h))
      | HostMunmap b n \<Rightarrow> held host h - {Mapping b n}
      | HostMalloc k \<Rightarrow> (if h_call host h c = None then held host h else insert (Block k) (held host h))
      | HostFree k \<Rightarrow> held host h - {Block k})"

lemma do_relocation_base:
  "do_relocation tags i offset info addend = Inr (Some i') \<Longrightarrow> i_base i' = i_base i"
  by (auto simp: do_relocation_def Let_def store32_def andThen_eq_Inr split: if_splits option.splits)

lemma rel_loop_base: "rel_loop n tags rel i = Inr (Some i') \<Longrightarrow> i_base i' = i_base i"
  by (induction n arbitrary: rel i)
    (auto simp: andThen_eq_Inr split: option.splits dest!: do_relocation_base)

lemma rela_loop_base: "rela_loop n tags rela i = Inr (Some i') \<Longrightarrow> i_base i' = i_base i"
  by (induction n arbitrary: rela i)
    (auto simp: andThen_eq_Inr split: option.splits dest!: do_relocation_base)

lemma do_rel_base: "do_rel tags i rel n ent = Inr (Some i') \<Longrightarrow> i_base i' = i_base i"
  by (auto simp: do_rel_def split: if_splits dest: rel_loop_base)

lemma do_rela_base: "do_rela tags i rela n ent = Inr (Some i') \<Longrightarrow> i_base i' = i_base i"
  by (auto simp: do_rela_def split: if_splits dest: rela_loop_base)

lemma if_ok_eq: "if_ok r f = Inr (Some i') \<longleftrightarrow> (\<exists>i. r = Inr (Some i) \<and> f i = Inr (Some i'))"
  by (auto simp: if_ok_def andThen_eq_Inr split: option.splits)

lemma relocate_base: "relocate tags i = Inr (Some i') \<Longrightarrow> i_base i' = i_base i"
  unfolding relocate_def if_ok_eq
  by (auto split: if_splits dest!: do_rel_base do_rela_base)

lemma place_segments_base: "place_segments n file pos i d = Inr (i', d') \<Longrightarrow> i_base i' = i_base i"
  by (induction n arbitrary: pos i d) (auto simp: Let_def andThen_eq_Inr split: if_splits)

lemma load_elf_image_held:
  assumes "load_elf_image host file h = Inr (r, h')"
  shows "case r of None \<Rightarrow> held host h' = held host h
    | Some (i, d, n) \<Rightarrow> held host h' = insert (Mapping (i_base i) n) (held host h)"
  using assms
  by (auto simp: load_elf_image_def Let_def call_def andThen_eq_Inr
      split: if_splits option.splits prod.splits dest!: place_segments_base)

lemma andThen_InrE:
  assumes "andThen m f = Inr y"
  obtains x where "m = Inr x" "f x = Inr y"
  using assms by (cases m) auto

text \<open>What a result holds.\<close>

definition holds :: "host \<Rightarrow> arm_dlhandle option \<times> host_call list \<Rightarrow> bool" where
  "holds host r =
     (case r of
        (None, h) \<Rightarrow> held host h = {}
      | (Some handle, h) \<Rightarrow>
          held host h = {Mapping (i_base (dl_image handle)) (dl_size handle), Block 1, Block 2})"

lemma dlopen_relocated_holds:
  assumes "held host h = {Mapping (i_base i) n, Block 1}"
  shows "holds host (dlopen_relocated host i n tags h)"
proof (cases "h_call host h (HostMalloc 2)")
  case None
  with assms have "held host (HostMunmap (i_base i) n # HostFree 1 # HostMalloc 2 # h) = {}" by auto
  with None show ?thesis by (simp add: dlopen_relocated_def malloc_def call_def holds_def del: held.simps)
next
  case (Some p)
  with assms have "held host (HostMalloc 2 # h) = {Mapping (i_base i) n, Block 1, Block 2}" by auto
  with Some show ?thesis by (simp add: dlopen_relocated_def malloc_def call_def holds_def del: held.simps)
qed

lemma dlopen_loaded_holds:
  assumes "held host h = {Mapping (i_base i) n}" "dlopen_loaded host i dynamic n h = Inr r"
  shows "holds host r"
proof (cases "h_call host h (HostMalloc 1)")
  case None
  with assms(1) have "held host (HostMunmap (i_base i) n # HostMalloc 1 # h) = {}" by simp
  with None assms(2) show ?thesis
    by (auto simp: dlopen_loaded_def malloc_def call_def holds_def simp del: held.simps)
next
  case (Some p)
  then have h: "held host (HostMalloc 1 # h) = {Mapping (i_base i) n, Block 1}"
    using assms(1) by auto
  let ?h = "HostMalloc 1 # h"
  from assms(2) Some have "andThen (build_dyn_data i dynamic) (\<lambda>tags. andThen (relocate tags i) (\<lambda>r.
      case r of
        None \<Rightarrow> Inr (None, HostMunmap (i_base i) n # HostFree 1 # ?h)
      | Some i \<Rightarrow> Inr (dlopen_relocated host i n tags ?h))) = Inr r"
    by (simp add: dlopen_loaded_def malloc_def call_def del: One_nat_def)
  then obtain tags r1 where r1: "relocate tags i = Inr r1" and r: "(case r1 of
        None \<Rightarrow> Inr (None, HostMunmap (i_base i) n # HostFree 1 # ?h)
      | Some i \<Rightarrow> Inr (dlopen_relocated host i n tags ?h)) = (Inr r :: (arm_dlhandle option \<times> host_call list) outcome)"
    by (elim andThen_InrE)
  show ?thesis
  proof (cases r1)
    case None
    have "held host (HostMunmap (i_base i) n # HostFree 1 # HostMalloc 1 # h) = {}" using h by auto
    moreover have "r = (None, HostMunmap (i_base i) n # HostFree 1 # ?h)" using r None by simp
    ultimately show ?thesis by (simp add: holds_def del: held.simps)
  next
    case (Some i')
    with r1 have "i_base i' = i_base i" by (simp add: relocate_base)
    then have "holds host (dlopen_relocated host i' n tags ?h)"
      using h by (simp add: dlopen_relocated_holds del: held.simps)
    with r Some show ?thesis by simp
  qed
qed

lemma arm_dlopen_holds:
  assumes "arm_dlopen host file [] = Inr (r, h)"
  shows "holds host (r, h)"
proof (cases "h_call host [] HostOpen")
  case None
  with assms have "r = None" "h = [HostOpen]" by (simp_all add: arm_dlopen_def call_def)
  with None show ?thesis by (simp add: holds_def)
next
  case (Some fd)
  with assms have "andThen (load_elf_image host file [HostOpen]) (\<lambda>(loaded, h).
      case loaded of
        None \<Rightarrow> Inr (None, HostClose # h)
      | Some (i, dynamic, n) \<Rightarrow> dlopen_loaded host i dynamic n (HostClose # h)) = Inr (r, h)"
    by (simp add: arm_dlopen_def call_def)
  then obtain loaded h1 where l: "load_elf_image host file [HostOpen] = Inr (loaded, h1)"
    and r: "(case loaded of
        None \<Rightarrow> Inr (None, HostClose # h1)
      | Some (i, dynamic, n) \<Rightarrow> dlopen_loaded host i dynamic n (HostClose # h1)) = Inr (r, h)"
    by (elim andThen_InrE) auto
  show ?thesis
  proof (cases loaded)
    case None
    with load_elf_image_held [OF l] Some have "held host (HostClose # h1) = {}" by auto
    with r None show ?thesis by (auto simp: holds_def simp del: held.simps)
  next
    case (Some x)
    then obtain i d n where x: "loaded = Some (i, d, n)" by (cases x) auto
    have "held host (HostClose # h1) = {Mapping (i_base i) n}"
      using load_elf_image_held [OF l] x \<open>h_call host [] HostOpen = Some fd\<close> by auto
    moreover have "dlopen_loaded host i d n (HostClose # h1) = Inr (r, h)" using r x by simp
    ultimately show ?thesis by (rule dlopen_loaded_holds)
  qed
qed

text \<open>C38. Opening a library gives every resource back when it fails; when it succeeds, the handle holds the
  mapping and two blocks, and closing gives them back.\<close>

theorem library_resources:
  assumes "arm_dlopen host file [] = Inr (r, h)"
  shows "case r of
      None \<Rightarrow> held host h = {}
    | Some handle \<Rightarrow>
        held host h = {Mapping (i_base (dl_image handle)) (dl_size handle), Block 1, Block 2} \<and>
        held host (arm_dlclose handle h) = {}"
proof -
  have h: "case r of None \<Rightarrow> held host h = {}
    | Some handle \<Rightarrow>
        held host h = {Mapping (i_base (dl_image handle)) (dl_size handle), Block 1, Block 2}"
    using arm_dlopen_holds [OF assms] by (simp add: holds_def)
  have "held host (HostFree 2 # HostMunmap b n # HostFree 1 # h) = {}"
    if "held host h = {Mapping b n, Block 1, Block 2}" for b n
    using that by auto
  with h show ?thesis
    by (cases r) (simp_all add: arm_dlclose_def del: held.simps One_nat_def)
qed

section \<open>Small libraries\<close>

definition sample_segment :: "byte list" where
  "sample_segment = concat (map le32 [1, 32, 0, 4, 2, 3, 0, 0]) @ [7, 9]"

definition blank_image :: "nat \<Rightarrow> image" where
  "blank_image n = \<lparr>i_base = 0x1000, i_bytes = replicate n 5\<rparr>"

lemma sample_headers:
  "headers 1 sample_segment 0 =
     [\<lparr>p_type = 1, p_offset = 32, p_paddr = 4, p_filesz = 2, p_memsz = 3\<rparr>]"
  by code_simp

lemma segments_loaded_witness:
  "\<exists>bytes d. place_segments 1 sample_segment 0 (blank_image 8) None = Inr (blank_image 8\<lparr>i_bytes := bytes\<rparr>, d)
    \<and> range_of 4 3 bytes = [7, 9, 0]"
proof -
  let ?ph = "\<lparr>p_type = 1, p_offset = 32, p_paddr = 4, p_filesz = 2, p_memsz = 3\<rparr> :: Elf32_Phdr"
  have l: "loadable (headers 1 sample_segment 0) = [?ph]"
    unfolding sample_headers by (simp add: loadable_def PT_LOAD_def)
  have "0 + 32 * 1 \<le> length sample_segment" "length (i_bytes (blank_image 8)) = 8" "length sample_segment = 34"
    "content sample_segment ?ph = [7, 9, 0]"
    by code_simp+
  with segments_loaded [of 0 1 sample_segment "blank_image 8" None] l show ?thesis
    by (simp add: well_placed_def del: place_segments.simps) blast
qed

lemma oversized_segment_overruns_witness:
  "place_segment sample_segment \<lparr>p_type = 1, p_offset = 32, p_paddr = 4, p_filesz = 2, p_memsz = 1\<rparr>
     (replicate 8 0) = Inl Undefined"
  by (rule oversized_segment_overruns) simp_all

definition sample_relocation :: image where
  "sample_relocation = \<lparr>i_base = 0x1000, i_bytes = concat (map le32 [12, 23, 0, 5])\<rparr>"

lemma relative_relocations_witness:
  "\<exists>bytes. rel_loop 1 [] 0x1000 sample_relocation = Inr (Some (sample_relocation\<lparr>i_bytes := bytes\<rparr>))
    \<and> word_at (sample_relocation\<lparr>i_bytes := bytes\<rparr>) 12 = 0x1005"
proof -
  have w: "word_at sample_relocation 0 = 12" "word_at sample_relocation 4 = R_ARM_RELATIVE"
    "word_at sample_relocation 12 = 5" "length (i_bytes sample_relocation) = 16"
    "offset_of sample_relocation 0x1000 = 0" "i_base sample_relocation = 0x1000"
    by code_simp+
  then have "relative_table sample_relocation (offset_of sample_relocation 0x1000) 1 (\<lambda>j. 12)"
    by (simp add: relative_table_def)
  from relative_relocations [OF this, of "[]"] w show ?thesis by auto
qed

text \<open>A library with the symbol \<open>a\<close> at 7; the argument is where the chain goes on behind it.\<close>

definition sample_handle :: "u32 \<Rightarrow> arm_dlhandle" where
  "sample_handle next =
     \<lparr>dl_image = \<lparr>i_base = 0x1000,
        i_bytes = concat (map le32 [1, 2, 1, 0, next, 0, 0, 0, 0, 0, 7, 0, 0]) @ [0x61, 0]\<rparr>,
      dl_size = 54,
      dyn_data = (replicate 25 0)[DT_HASH := 0x1000, DT_SYMTAB := 0x1014, DT_STRTAB := 0x1034]\<rparr>"

lemma symbol_lookup_witness:
  "arm_dlsym 2 (sample_handle 0) [0x61] = Some (Inr (Some 0x1007))"
proof -
  let ?h = "sample_handle 0"
  have f: "load32 (dl_image ?h) (dyn_data ?h ! DT_HASH) = Inr 1"
    "load32 (dl_image ?h) (dyn_data ?h ! DT_HASH + 4) = Inr 2"
    "load32 (dl_image ?h) (dyn_data ?h ! DT_HASH + 8 + 4 * (elf_hash [0x61] mod 1)) = Inr 1"
    by code_simp+
  have n: "named ?h [0x61] 1 = Inr True" by code_simp
  have l: "load32 (dl_image ?h) (dyn_data ?h ! DT_HASH + 8 + 4 * 1 + 4 * 1) = Inr 0" by code_simp
  have c: "linked ?h [0x61] (dyn_data ?h ! DT_HASH + 8 + 4 * 1) 2 [1] 1"
    using n l by auto
  have a: "symbol_address ?h 1 = Inr (Some 0x1007)" by code_simp
  from symbol_lookup [OF f(1,2) _ f(3) c, of 2] n a show ?thesis by simp
qed

lemma circular_chain_hangs_witness:
  "chain_walk 1000 (sample_handle 1) 0x100c 2 [0x62] 1 = None"
proof -
  have "named (sample_handle 1) [0x62] 1 = Inr False"
    "load32 (dl_image (sample_handle 1)) (0x100c + 4 * 1) = Inr 1"
    by code_simp+
  then show ?thesis by (intro circular_chain_hangs) simp_all
qed

definition sample_library :: "byte list" where
  "sample_library =
     valid_ident @ replicate 7 0 @ le16 3 @ le16 40 @ concat (map le32 [1, 0, 52, 0, 0]) @
     concat (map le16 [52, 32, 2, 0, 0, 0]) @
     concat (map le32 [1, 116, 0, 0, 16, 16, 0, 0]) @ concat (map le32 [2, 116, 0, 0, 16, 16, 0, 0]) @
     concat (map le32 [4, 8, 0, 0])"

definition sample_host :: host where
  "sample_host = \<lparr>h_page = 64, h_call = (\<lambda>h c. case c of HostMmap n \<Rightarrow> Some 0x1000 | _ \<Rightarrow> Some 1)\<rparr>"

lemma library_resources_witness:
  "\<exists>handle h. arm_dlopen sample_host sample_library [] = Inr (Some handle, h)
    \<and> held sample_host h = {Mapping (i_base (dl_image handle)) (dl_size handle), Block 1, Block 2}
    \<and> held sample_host (arm_dlclose handle h) = {}"
proof -
  have "(case arm_dlopen sample_host sample_library [] of
      Inl e \<Rightarrow> False | Inr (r, h) \<Rightarrow> r \<noteq> None)"
    by code_simp
  then obtain handle h where o: "arm_dlopen sample_host sample_library [] = Inr (Some handle, h)"
    by (auto split: sum.splits)
  from library_resources [OF o] o show ?thesis by simp
qed

end
