(* ===== verification/Operator_Extractor.thy ===== *)
theory Operator_Extractor
  imports ELF_Loader
begin

text \<open>
  The extractor of the operator table (database/secril-database-extractor/main.c): it loads the
  proprietary library with arm_dl.c, walks its table of operators and writes SQL.
\<close>

definition text_bytes :: "string \<Rightarrow> byte list" where "text_bytes t = map (\<lambda>c. of_nat (of_char c)) t"

section \<open>The command line\<close>

text \<open>What \<open>getopt_long\<close> answers, in order; an unknown option or a missing argument is \<open>OptBad\<close>.\<close>

datatype option_answer = OptBad | OptInput "byte list" | OptOutput "byte list" | OptLong nat

fun parse_cmdline ::
    "option_answer list \<Rightarrow> byte list option \<Rightarrow> byte list option \<Rightarrow> (byte list \<times> byte list) option"
where
  "parse_cmdline [] filename output_filename =
     (case (filename, output_filename) of (Some i, Some out) \<Rightarrow> Some (i, out) | _ \<Rightarrow> None)"
| "parse_cmdline (OptBad # opts) filename output_filename = None"
| "parse_cmdline (OptInput f # opts) filename output_filename = parse_cmdline opts (Some f) output_filename"
| "parse_cmdline (OptOutput f # opts) filename output_filename = parse_cmdline opts filename (Some f)"
| "parse_cmdline (OptLong longidx # opts) filename output_filename =
     (if longidx = 0 \<or> longidx = 1 then None else parse_cmdline opts filename output_filename)"

section \<open>Escaping\<close>

definition quote :: byte where "quote = 39"

text \<open>\<open>strchr\<close> from a position of a buffer.\<close>

definition strchr :: "byte list \<Rightarrow> nat \<Rightarrow> byte \<Rightarrow> nat option" where
  "strchr buf pos c =
     (let rest = drop pos buf; before = takeWhile (\<lambda>b. b \<noteq> c \<and> b \<noteq> 0) rest in
      if length before < length rest \<and> rest ! length before = c then Some (pos + length before) else None)"

definition memmove :: "nat \<Rightarrow> nat \<Rightarrow> nat \<Rightarrow> byte list \<Rightarrow> byte list" where
  "memmove dst src n buf = take dst buf @ take n (drop src buf) @ drop (dst + n) buf"

lemma strchr_Some:
  assumes "strchr buf pos c = Some p"
  shows "pos \<le> p" "p < length buf"
  using assms by (auto simp: strchr_def Let_def split: if_splits)

text \<open>
  The loop of \<open>escape\<close>, on a buffer with its final NUL: \<open>junk\<close> is the byte that \<open>realloc\<close> adds.  A
  failed allocation is not looked at by the code.
\<close>

function escape_loop :: "byte \<Rightarrow> byte list \<Rightarrow> nat \<Rightarrow> byte list" where
  "escape_loop junk dup searchptr =
     (case strchr dup searchptr quote of
        None \<Rightarrow> dup
      | Some pos \<Rightarrow>
          (let len = length dup + 1; dup = dup @ [junk]
           in escape_loop junk (memmove (pos + 1) pos (len - pos - 1) dup) (pos + 2)))"
  by auto

lemma length_memmove: "dst + n \<le> length buf \<Longrightarrow> src + n \<le> length buf \<Longrightarrow> length (memmove dst src n buf) = length buf"
  by (simp add: memmove_def)

termination escape_loop
proof (relation "measure (\<lambda>(junk, dup, searchptr). length dup - searchptr)")
  fix junk dup searchptr pos len and dup' :: "byte list"
  assume "strchr dup searchptr quote = Some pos" "len = length dup + 1" "dup' = dup @ [junk]"
  with strchr_Some [of dup searchptr quote pos]
  show "((junk, memmove (pos + 1) pos (len - pos - 1) dup', pos + 2), junk, dup, searchptr)
    \<in> measure (\<lambda>(junk, dup, searchptr). length dup - searchptr)"
    by (simp add: length_memmove)
qed simp

definition escape :: "byte \<Rightarrow> byte list \<Rightarrow> byte list" where
  "escape junk s = escape_loop junk (s @ [0]) 0"

section \<open>The table\<close>

text \<open>The names of a row: one of them stands for both, and a row without names is left out.\<close>

definition row_names :: "byte list \<Rightarrow> byte list \<Rightarrow> (byte list \<times> byte list) option" where
  "row_names raw_long_name raw_short_name =
     (if raw_long_name = [] \<and> raw_short_name = [] then None
      else if raw_long_name = [] then Some (raw_short_name, raw_short_name)
      else if raw_short_name = [] then Some (raw_long_name, raw_long_name)
      else Some (raw_long_name, raw_short_name))"

text \<open>\<open>fprintf\<close> writes its strings up to their NUL.\<close>

definition cstring :: "byte list \<Rightarrow> byte list" where "cstring s = takeWhile (\<lambda>b. b \<noteq> 0) s"

definition insert_statement :: "byte list \<Rightarrow> byte list \<Rightarrow> byte list \<Rightarrow> byte list" where
  "insert_statement mccmnc long_name short_name =
     text_bytes ''INSERT OR REPLACE INTO operators (mccmnc, long_name, short_name) VALUES ('' @
     [quote] @ cstring mccmnc @ [quote] @ text_bytes '', '' @
     [quote] @ cstring long_name @ [quote] @ text_bytes '', '' @
     [quote] @ cstring short_name @ [quote] @ text_bytes '');'' @ [10]"

text \<open>A pointer of the table: null stands for an empty name.\<close>

definition name_at :: "image \<Rightarrow> u32 \<Rightarrow> byte list outcome" where
  "name_at i a = andThen (load32 i a) (\<lambda>p. if p = 0 then Inr [] else load_string i p)"

definition table_row :: "byte \<Rightarrow> image \<Rightarrow> u32 \<Rightarrow> byte list outcome" where
  "table_row junk i p =
     andThen (get_bytes (offset_of i p) 6 (i_bytes i)) (\<lambda>mccmnc.
     andThen (name_at i (p + 8)) (\<lambda>raw_long_name.
     andThen (name_at i (p + 12)) (\<lambda>raw_short_name.
       Inr (case row_names raw_long_name raw_short_name of
          None \<Rightarrow> []
        | Some (l, s) \<Rightarrow> insert_statement (mccmnc @ [0]) (escape junk l) (escape junk s)))))"

text \<open>\<open>n\<close> rows of 16 bytes.\<close>

primrec table_rows :: "nat \<Rightarrow> byte \<Rightarrow> image \<Rightarrow> u32 \<Rightarrow> byte list outcome" where
  "table_rows 0 junk i p = Inr []"
| "table_rows (Suc n) junk i p =
     andThen (table_row junk i p) (\<lambda>row.
     andThen (table_rows n junk i (p + 16)) (\<lambda>rows. Inr (row @ rows)))"

definition row_count :: "u32 \<Rightarrow> u32 \<Rightarrow> nat" where
  "row_count table table_end = (unat table_end - unat table + 15) div 16"

definition preamble :: "byte list" where
  "preamble =
     text_bytes ''-- Generated by the secril-database-extractor.'' @ [10, 10] @
     text_bytes ''BEGIN TRANSACTION;'' @ [10] @
     text_bytes ''DROP TABLE IF EXISTS operators;'' @ [10] @
     text_bytes ''CREATE TABLE operators ('' @ [10] @
     text_bytes ''    mccmnc VARCHAR(6) PRIMARY KEY,'' @ [10] @
     text_bytes ''    long_name VARCHAR(32),'' @ [10] @
     text_bytes ''    short_name VARCHAR(32)'' @ [10] @
     text_bytes '');'' @ [10]"

section \<open>The program\<close>

text \<open>What the program leaves: its exit status and the file it wrote, if it opened one.\<close>

record extraction =
  x_status :: int
  x_output :: "byte list option"
  x_host :: "host_call list"

definition extract_table ::
    "byte \<Rightarrow> bool \<Rightarrow> arm_dlhandle \<Rightarrow> u32 \<Rightarrow> u32 \<Rightarrow> host_call list \<Rightarrow> extraction outcome"
where
  "extract_table junk opens handle table table_end h =
     (if \<not> opens then Inr \<lparr>x_status = 1, x_output = None, x_host = arm_dlclose handle h\<rparr>
      else andThen (table_rows (row_count table table_end) junk (dl_image handle) table) (\<lambda>rows.
        Inr \<lparr>x_status = 0, x_output = Some (preamble @ rows @ text_bytes ''COMMIT;'' @ [10]),
             x_host = arm_dlclose handle h\<rparr>))"

text \<open>
  \<open>None\<close> when a lookup is not finished after \<open>fuel\<close> symbols.  \<open>files\<close> gives the contents of the
  library and \<open>opens\<close> tells whether the output can be opened.
\<close>

definition extractor_main ::
    "nat \<Rightarrow> byte \<Rightarrow> host \<Rightarrow> (byte list \<Rightarrow> byte list) \<Rightarrow> (byte list \<Rightarrow> bool) \<Rightarrow> option_answer list \<Rightarrow>
     extraction outcome option"
where
  "extractor_main fuel junk host files opens opts =
     (case parse_cmdline opts None None of
        None \<Rightarrow> Some (Inr \<lparr>x_status = 1, x_output = None, x_host = []\<rparr>)
      | Some (filename, output_filename) \<Rightarrow>
          (case arm_dlopen host (files filename) [] of
             Inl e \<Rightarrow> Some (Inl e)
           | Inr (None, h) \<Rightarrow> Some (Inr \<lparr>x_status = 1, x_output = None, x_host = h\<rparr>)
           | Inr (Some handle, h) \<Rightarrow>
               (case arm_dlsym fuel handle (text_bytes ''opname_list'') of
                  None \<Rightarrow> None
                | Some (Inl e) \<Rightarrow> Some (Inl e)
                | Some (Inr table) \<Rightarrow>
                    (case arm_dlsym fuel handle (text_bytes ''TimezoneIdList'') of
                       None \<Rightarrow> None
                     | Some (Inl e) \<Rightarrow> Some (Inl e)
                     | Some (Inr table_end) \<Rightarrow>
                         Some (case (table, table_end) of
                           (Some a, Some b) \<Rightarrow>
                             if a = 0 \<or> b = 0
                             then Inr \<lparr>x_status = 1, x_output = None, x_host = arm_dlclose handle h\<rparr>
                             else extract_table junk (opens output_filename) handle a b h
                         | _ \<Rightarrow> Inr \<lparr>x_status = 1, x_output = None, x_host = arm_dlclose handle h\<rparr>)))))"

section \<open>Escaping doubles quotes\<close>

definition doubled :: "byte list \<Rightarrow> byte list" where
  "doubled s = concat (map (\<lambda>c. if c = quote then [quote, quote] else [c]) s)"

lemma doubled_simps [simp]:
  "doubled [] = []" "doubled (c # s) = (if c = quote then [quote, quote] else [c]) @ doubled s"
  "doubled (s @ t) = doubled s @ doubled t"
  by (simp_all add: doubled_def)

lemma doubled_id: "quote \<notin> set s \<Longrightarrow> doubled s = s"
  by (induction s) auto

lemma strchr_none:
  assumes "0 \<notin> set t" "quote \<notin> set t"
  shows "strchr (done @ t @ [0]) (length done) quote = None"
proof -
  have "takeWhile (\<lambda>b. b \<noteq> quote \<and> b \<noteq> 0) (t @ [0]) = t"
    using assms by (subst takeWhile_append2) auto
  then show ?thesis by (simp add: strchr_def quote_def nth_append)
qed

lemma strchr_first:
  assumes "0 \<notin> set t" "quote \<notin> set t"
  shows "strchr (done @ t @ quote # u) (length done) quote = Some (length done + length t)"
proof -
  have "takeWhile (\<lambda>b. b \<noteq> quote \<and> b \<noteq> 0) (t @ quote # u) = t"
    using assms by (subst takeWhile_append2) auto
  then show ?thesis by (simp add: strchr_def nth_append)
qed

lemma memmove_shift: "memmove (length xs + 1) (length xs) (Suc (length u)) (xs @ c # u @ [junk]) = xs @ c # c # u"
  by (simp add: memmove_def)

lemma escape_loop_doubled:
  assumes "0 \<notin> set s"
  shows "escape_loop junk (done @ s @ [0]) (length done) = done @ doubled s @ [0]"
  using assms
proof (induction s arbitrary: "done" rule: length_induct)
  case (1 s)
  show ?case
  proof (cases "quote \<in> set s")
    case False
    with 1(2) show ?thesis by (subst escape_loop.simps) (simp add: strchr_none doubled_id)
  next
    case True
    then obtain t u where s: "s = t @ quote # u" "quote \<notin> set t" by (meson split_list_first)
    have "escape_loop junk (done @ s @ [0]) (length done) =
        escape_loop junk (memmove (length (done @ t) + 1) (length (done @ t)) (Suc (length (u @ [0])))
          ((done @ t) @ quote # (u @ [0]) @ [junk])) (length (done @ t) + 2)"
      using strchr_first [of t "done" "u @ [0]"] 1(2) s
      by (subst escape_loop.simps) (simp add: Let_def del: escape_loop.simps)
    also have "\<dots> = escape_loop junk ((done @ t @ [quote, quote]) @ u @ [0]) (length (done @ t @ [quote, quote]))"
      by (subst memmove_shift) simp
    also have "\<dots> = (done @ t @ [quote, quote]) @ doubled u @ [0]"
      using 1 s by (subst 1(1) [rule_format]) auto
    finally show ?thesis using s by (simp add: doubled_id)
  qed
qed

lemma escape_doubled: "0 \<notin> set s \<Longrightarrow> escape junk s = doubled s @ [0]"
  using escape_loop_doubled [of s junk "[]"] by (simp add: escape_def)

section \<open>Reading the SQL back\<close>

text \<open>A literal of SQL behind its opening quote: two quotes are one, and one ends it.\<close>

fun sql_literal :: "byte list \<Rightarrow> (byte list \<times> byte list) option" where
  "sql_literal [] = None"
| "sql_literal (c # s) =
     (if c \<noteq> quote then map_option (\<lambda>(t, rest). (c # t, rest)) (sql_literal s)
      else case s of
        d # s' \<Rightarrow> if d = quote then map_option (\<lambda>(t, rest). (quote # t, rest)) (sql_literal s') else Some ([], s)
      | [] \<Rightarrow> Some ([], []))"

definition expect :: "byte list \<Rightarrow> byte list \<Rightarrow> byte list option" where
  "expect t s = (if take (length t) s = t then Some (drop (length t) s) else None)"

definition read_insert :: "byte list \<Rightarrow> ((byte list \<times> byte list \<times> byte list) \<times> byte list) option" where
  "read_insert s =
     Option.bind (expect (text_bytes ''INSERT OR REPLACE INTO operators (mccmnc, long_name, short_name) VALUES ('' @ [quote]) s) (\<lambda>s.
     Option.bind (sql_literal s) (\<lambda>(m, s).
     Option.bind (expect (text_bytes '', '' @ [quote]) s) (\<lambda>s.
     Option.bind (sql_literal s) (\<lambda>(l, s).
     Option.bind (expect (text_bytes '', '' @ [quote]) s) (\<lambda>s.
     Option.bind (sql_literal s) (\<lambda>(n, s).
     Option.bind (expect (text_bytes '');'' @ [10]) s) (\<lambda>s. Some ((m, l, n), s))))))))"

lemma sql_literal_doubled:
  "rest = [] \<or> hd rest \<noteq> quote \<Longrightarrow> sql_literal (doubled s @ quote # rest) = Some (s, rest)"
  by (induction s) (auto split: list.splits)

lemma expect_append [simp]: "expect t (t @ s) = Some s"
  by (simp add: expect_def)

lemma cstring_no_nul: "0 \<notin> set s \<Longrightarrow> cstring (s @ 0 # t) = s"
  unfolding cstring_def by (subst takeWhile_append2) auto

lemma cstring_escape: "0 \<notin> set s \<Longrightarrow> cstring (escape junk s) = doubled s"
proof -
  assume "0 \<notin> set s"
  moreover then have "0 \<notin> set (doubled s)" by (induction s) (auto simp: quote_def)
  ultimately show ?thesis by (simp add: escape_doubled cstring_no_nul)
qed

lemma cstring_ended [simp]: "cstring (s @ [0]) = cstring s"
  unfolding cstring_def by (induction s) auto

text \<open>The codes are written without escaping; those of fewer than six digits end at their first NUL.\<close>

lemma insert_reads_back:
  assumes "quote \<notin> set (cstring mccmnc)" "0 \<notin> set l" "0 \<notin> set n"
  shows "read_insert (insert_statement (mccmnc @ [0]) (escape junk l) (escape junk n) @ rest) =
    Some ((cstring mccmnc, l, n), rest)"
proof -
  have m: "cstring (mccmnc @ [0]) = doubled (cstring mccmnc)"
    using assms(1) by (simp add: doubled_id)
  have q: "text_bytes '', '' = [44, 32]" "text_bytes '');'' = [41, 59]"
    by code_simp+
  let ?rest = "text_bytes '');'' @ [10] @ rest"
  let ?n = "text_bytes '', '' @ [quote] @ doubled n @ quote # ?rest"
  let ?l = "text_bytes '', '' @ [quote] @ doubled l @ quote # ?n"
  let ?p = "text_bytes ''INSERT OR REPLACE INTO operators (mccmnc, long_name, short_name) VALUES ('' @ [quote]"
  have i: "insert_statement (mccmnc @ [0]) (escape junk l) (escape junk n) @ rest =
      ?p @ (doubled (cstring mccmnc) @ quote # ?l)"
    by (simp add: insert_statement_def m cstring_escape assms(2,3) del: cstring_ended)
  have s: "sql_literal (doubled (cstring mccmnc) @ quote # ?l) = Some (cstring mccmnc, ?l)"
    "sql_literal (doubled l @ quote # ?n) = Some (l, ?n)"
    "sql_literal (doubled n @ quote # ?rest) = Some (n, ?rest)"
    by (rule sql_literal_doubled, simp add: q quote_def)+
  have e: "expect (text_bytes '', '' @ [quote]) ?l = Some (doubled l @ quote # ?n)"
    "expect (text_bytes '', '' @ [quote]) ?n = Some (doubled n @ quote # ?rest)"
    "expect (text_bytes '');'' @ [10]) ?rest = Some rest"
    by (simp_all add: expect_def)
  show ?thesis
    by (simp only: read_insert_def i expect_append s e Option.bind.simps prod.case)
qed

text \<open>The statements of a text, at most \<open>k\<close>.\<close>

fun read_inserts :: "nat \<Rightarrow> byte list \<Rightarrow> (byte list \<times> byte list \<times> byte list) list option" where
  "read_inserts k [] = Some []"
| "read_inserts 0 (c # s) = None"
| "read_inserts (Suc k) (c # s) =
     Option.bind (read_insert (c # s)) (\<lambda>(r, s). map_option (\<lambda>rs. r # rs) (read_inserts k s))"

text \<open>The operator of a row of the table, if it has a name.\<close>

definition operator_at :: "image \<Rightarrow> u32 \<Rightarrow> (byte list \<times> byte list \<times> byte list) option" where
  "operator_at i p =
     (case (get_bytes (offset_of i p) 6 (i_bytes i), name_at i (p + 8), name_at i (p + 12)) of
        (Inr mccmnc, Inr l, Inr s) \<Rightarrow> map_option (\<lambda>(l, s). (cstring mccmnc, l, s)) (row_names l s)
      | _ \<Rightarrow> None)"

primrec operators_of :: "nat \<Rightarrow> image \<Rightarrow> u32 \<Rightarrow> (byte list \<times> byte list \<times> byte list) list" where
  "operators_of 0 i p = []"
| "operators_of (Suc n) i p =
     (case operator_at i p of None \<Rightarrow> operators_of n i (p + 16) | Some r \<Rightarrow> r # operators_of n i (p + 16))"

text \<open>No code has a quote before its first NUL.\<close>

primrec plain_codes :: "nat \<Rightarrow> image \<Rightarrow> u32 \<Rightarrow> bool" where
  "plain_codes 0 i p = True"
| "plain_codes (Suc n) i p =
     ((case get_bytes (offset_of i p) 6 (i_bytes i) of Inl e \<Rightarrow> False | Inr m \<Rightarrow> quote \<notin> set (cstring m)) \<and>
      plain_codes n i (p + 16))"

lemma name_at_no_nul: "name_at i a = Inr l \<Longrightarrow> 0 \<notin> set l"
  by (auto simp: name_at_def load_string_def Let_def andThen_eq_Inr split: if_splits dest: set_takeWhileD)

lemma row_names_no_nul:
  "row_names l s = Some (l', s') \<Longrightarrow> 0 \<notin> set l \<Longrightarrow> 0 \<notin> set s \<Longrightarrow> 0 \<notin> set l' \<and> 0 \<notin> set s'"
  by (auto simp: row_names_def split: if_splits)

lemma table_row_cases:
  assumes "table_row junk i p = Inr row"
    and "case get_bytes (offset_of i p) 6 (i_bytes i) of Inl e \<Rightarrow> False | Inr m \<Rightarrow> quote \<notin> set (cstring m)"
  shows "operator_at i p = None \<and> row = [] \<or>
    (\<exists>m l s. operator_at i p = Some (cstring m, l, s)
       \<and> row = insert_statement (m @ [0]) (escape junk l) (escape junk s)
       \<and> quote \<notin> set (cstring m) \<and> 0 \<notin> set l \<and> 0 \<notin> set s)"
proof -
  from assms(1) obtain m l s where r: "get_bytes (offset_of i p) 6 (i_bytes i) = Inr m"
    "name_at i (p + 8) = Inr l" "name_at i (p + 12) = Inr s"
    "row = (case row_names l s of None \<Rightarrow> []
      | Some (l, s) \<Rightarrow> insert_statement (m @ [0]) (escape junk l) (escape junk s))"
    by (auto simp: table_row_def andThen_eq_Inr)
  have n: "0 \<notin> set l" "0 \<notin> set s" using r(2,3) name_at_no_nul by blast+
  show ?thesis
  proof (cases "row_names l s")
    case None
    with r show ?thesis by (simp add: operator_at_def)
  next
    case (Some x)
    then obtain l' s' where x: "row_names l s = Some (l', s')" by (cases x) auto
    with row_names_no_nul [OF x n] r assms(2) show ?thesis by (auto simp: operator_at_def)
  qed
qed

text \<open>
  C34. The SQL that the extractor writes for a table that it can read reads back as the operators of the
  library's table, in order, one statement for each row that has a name, with its code up to the
  padding: whatever quotes the names have, no name can end its literal or its statement.  The codes
  are not escaped, so this is for a table without a quote in a code.
\<close>

theorem table_reads_back:
  assumes "table_rows n junk i p = Inr rows" "plain_codes n i p"
  shows "read_inserts n rows = Some (operators_of n i p)"
  using assms
proof (induction n arbitrary: p rows)
  case (Suc n)
  then obtain row rows' where row: "table_row junk i p = Inr row"
    and rows': "table_rows n junk i (p + 16) = Inr rows'" "rows = row @ rows'"
    by (auto simp: andThen_eq_Inr)
  have IH: "read_inserts n rows' = Some (operators_of n i (p + 16))"
    using Suc.IH [OF rows'(1)] Suc.prems(2) by simp
  have more: "read_inserts (Suc n) rows' = read_inserts n rows'" if "read_inserts n rows' \<noteq> None"
    using that
  proof (induction n rows' rule: read_inserts.induct)
    case (3 k c s)
    then show ?case by (auto simp: bind_eq_Some_conv split: prod.splits option.splits)
  qed simp_all
  have code: "case get_bytes (offset_of i p) 6 (i_bytes i) of Inl e \<Rightarrow> False | Inr m \<Rightarrow> quote \<notin> set (cstring m)"
    using Suc.prems(2) by simp
  from table_row_cases [OF row code] show ?case
  proof (elim disjE exE conjE)
    assume "operator_at i p = None" "row = []"
    with rows' IH more show ?thesis by simp
  next
    fix m l s
    assume o: "operator_at i p = Some (cstring m, l, s)"
      and r: "row = insert_statement (m @ [0]) (escape junk l) (escape junk s)"
      and "quote \<notin> set (cstring m)" "0 \<notin> set l" "0 \<notin> set s"
    then have ins: "read_insert rows = Some ((cstring m, l, s), rows')"
      using insert_reads_back rows'(2) by simp
    obtain c t where "rows = c # t"
      using r rows'(2) by (cases rows) (auto simp: insert_statement_def text_bytes_def)
    with ins IH o show ?thesis by simp
  qed
qed simp

text \<open>A table of one operator, \<open>25021\<close> (padded to six bytes) with no long name and the short name \<open>O'\<close>.\<close>

definition sample_table :: image where
  "sample_table = \<lparr>i_base = 0x1000,
     i_bytes = [50, 53, 48, 50, 49, 0, 0, 0] @ le32 0 @ le32 0x1010 @ [79, 39, 0]\<rparr>"

lemma table_reads_back_witness:
  "\<exists>rows. table_rows 1 9 sample_table 0x1000 = Inr rows
    \<and> read_inserts 1 rows = Some [([50, 53, 48, 50, 49], [79, 39], [79, 39])]"
proof -
  have "(case table_rows 1 9 sample_table 0x1000 of Inl e \<Rightarrow> False | Inr rows \<Rightarrow> True)"
    by code_simp
  then obtain rows where r: "table_rows 1 9 sample_table 0x1000 = Inr rows"
    by (auto split: sum.splits)
  have "plain_codes 1 sample_table 0x1000"
    "operators_of 1 sample_table 0x1000 = [([50, 53, 48, 50, 49], [79, 39], [79, 39])]"
    by code_simp+
  with table_reads_back [OF r] r show ?thesis by simp
qed

end
