(* ===== verification/Spec2Isabelle.thy ===== *)
theory Spec2Isabelle
  imports Android_HAL Secril_Client OEM_Service Threads Logging Native_File RIL_Exhaustion ELF_Correct
    Operator_Extractor
begin

text \<open>
  FreeRIL, the radio interface layer for the Samsung Galaxy S2 (i9100): a library of the modem's
  protocol, the Android side of the telephony interface, and tools.

  \<^bold>\<open>The program.\<close>  Android loads ril/ and calls \<open>RIL_Init\<close> (ril/ril.cpp, RIL.cpp), which opens the
  operator database, boots the modem (libsamsung-ipc/SamsungModem.cpp) over its USB link
  (libandroidhal/USBIPCTransport.cpp) and starts the worker thread (IPCWorkerThread.cpp).  The thread
  serves two channels: on the IPC channel (IPCSocketHandler.cpp) messages are exchanged, and on the
  RFS channel (RFSSocketHandler.cpp) the modem reads and writes files of the phone
  (libandroidhal/AndroidFileSystem.cpp).  Android's requests go through a table of handlers
  (ril/RequestHandler.cpp) to ril/call.cpp, network.cpp, security.cpp, power.cpp, misc.cpp, display.cpp,
  snd.cpp and oem.cpp, which submit messages to the IPC channel, wait for replies with \<open>RIL::execute\<close>, or
  answer from a cache of unsolicited messages (ril/MessageCache.cpp).  The message classes are generated
  from libsamsung-ipc/protocol by libsamsung-ipc/compiler.  Binary clients reach the RIL through
  secril-client-compat/ and the service in oemservice/; database/ holds the program that extracted the
  table of operators from a proprietary library, and tools/dumpmodem saves the modem's memory.

  \<^bold>\<open>Theories, from the bottom.\<close>
  \<^item> \<open>Prelude\<close>: words, bytes, faults, environments, byte layouts; used by all.
  \<^item> \<open>Data_Stream\<close>, \<open>Wire_Codec\<close>, \<open>Protocol\<close>, \<open>Message\<close>: DataStream.cpp, the template of the generated
    readers and writers, the classes of the protocol with the factory, and the interface of messages.
    For every class reading and writing are inverse to each other.
  \<^item> \<open>Socket_Handler\<close>, \<open>IPC_Socket_Handler\<close>: the reassembly of packets (a locale over the virtual functions,
    interpreted for both channels) and the request/response engine.  The 255 numbers are partitioned,
    requests are conserved, and how the stream is cut does not matter until a packet is followed in the
    buffer by more bytes than it has: the buffer is then moved by an overlapping \<open>memcpy\<close>.
  \<^item> \<open>Kernel\<close>, \<open>Native_File\<close>, \<open>IFile_System\<close>, \<open>File_System\<close>, \<open>NV_Data\<close>, \<open>RFS_Handler\<close>, \<open>Remote_Files\<close>: system
    calls and the class \<open>NativeFile\<close>, the interface of the file system (a locale), its Android
    implementation, NV data with checksums and backups, the RFS requests, and their composition: what
    packets can make the kernel do.
  \<^item> \<open>Modem_Boot\<close>, \<open>USB_Transport\<close>: boot and dump over an arbitrary link, and the link's switching.
  \<^item> \<open>Worker_Thread\<close>, \<open>Threads\<close>: the event loop with its pipe, the modem object, and the wrappers of mutexes,
    semaphores and threads.  Messages pass the pipe in order and are conserved up to the modem.
  \<^item> \<open>MessageCache\<close>, \<open>RIL\<close>, \<open>RIL_Network\<close>, \<open>RIL_Call\<close>, \<open>RIL_Security\<close>, \<open>RIL_Phone\<close>, \<open>RIL_Oem\<close>, \<open>Request_Handler\<close>,
    \<open>RIL_Requests\<close>, \<open>RIL_Dispatch\<close>, \<open>RIL_System\<close>, \<open>RIL_Init\<close>: the cache and its refinement of a map, the
    state, one theory per group of handlers, the table and the gate, the obligations of every handler,
    the system of threads as a step relation, and the start.  No request is answered twice, and none is
    lost but the writes to the file of fixed dialling numbers, which the code forgets (\<open>forgotten\<close>).  The
    end of a wait in \<open>execute\<close> is two steps of the worker thread, as in the code: it stores the reply, then
    it gives the semaphore.  The order of \<open>RIL_Init\<close> is stated for every result it can have.
  \<^item> \<open>RIL_Channel\<close>: that system on the request/response engine.  The composition refines the system, so its
    safety theorems hold for what the engine completes, and every completion has a target that was
    subscribed.
  \<^item> \<open>RIL_Exchange\<close>, \<open>RIL_Exhaustion\<close>: the same end to end.  Nothing that a thread or a request waits for is
    lost between the handlers, the pipe and the engine, and a thread continues with the response to its
    own message; but 255 unanswered requests invalidate the iterator that the next response uses.
  \<^item> \<open>Android_HAL\<close>: the link and the file system with the paths of the phone (AndroidHAL.cpp), the modem
    object on them, and the paths that its construction and its file system name, as texts: \<open>..\<close> in a
    name passes the check.
  \<^item> \<open>Logging\<close>: Log.cpp, LogSink.cpp and the two sinks, with the conversions of \<open>vasprintf\<close> that the
    program uses; what a panic reports, and a table of all calls of the logger that pass arguments.
  \<^item> \<open>Secril_Client\<close>, \<open>OEM_Service\<close>: the binary clients against the interface that
    ICrossClientService.aidl declares, and the OEM service's requests against the hook and oem.h (the
    loopback test arrives with its parameters swapped).
  \<^item> \<open>ELF_Loader\<close>, \<open>ELF_Correct\<close>, \<open>Operator_Extractor\<close>: database/secril-database-extractor.  The SQL reads back
    as the table, codes up to their padding; a quote in a code, which is not escaped, is excluded.
  \<^item> \<open>Host_Tools\<close>: hex dump, progress bar, the dump tool, time differences.

  \<^bold>\<open>How code becomes definitions.\<close>  A function that can abort or reach undefined behaviour returns
  \<open>fault + 'a\<close>; one that may not return is an \<open>option\<close> around that, \<open>None\<close> for waiting or looping forever.
  What lies outside the repository (kernel, modem, USB driver, SQLite, MD5, Binder, \<open>Parcel\<close>, property
  store) is a parameter, mostly a function from the history of calls to the answer; the laws that a
  property needs of it are its hypotheses, and its witness has an instance.  A class becomes a record
  with its methods as functions on it; effects on the outside are a list in the record.  Virtual
  functions are records of operations.

  \<^bold>\<open>Loops and bounds.\<close>  Loops are structural, have a measure, or are partial functions whose \<open>None\<close> is not
  returning (sending over a link that takes nothing, draining a stream).  Two loops of the ELF loader
  have fuel: the walk over the dynamic section, where the number of entries that fit into the image is
  enough because the code would leave the image after them, and the walk along a hash chain, where
  more fuel than the chain has links gives the result and a circular chain gives \<open>None\<close> for every
  fuel.  Widths are kept where arithmetic can wrap: lengths and offsets of packets, NV offsets,
  addresses and sizes of the ELF loader, the progress bar.  Reads of uninitialised memory are
  parameters (\<open>uninitialised\<close>, \<open>stale_read\<close>) or \<open>Undefined\<close>, and so is a copy between overlapping regions;
  a copy of no bytes from a null pointer (\<open>setPinStatus\<close>) is taken to do nothing.

  \<^bold>\<open>Not modelled.\<close>  The log messages inside the other components (there, panic is the fault \<open>Panic\<close>; the
  logger itself is in \<open>Logging\<close>) and \<open>inspect\<close>, which formats messages for them; the Ruby programs of the protocol compiler, of which the templates and the protocol are
  translated; the SQL of the shipped operators, which is data; the Java framework code of the OEM
  service (binding, intents, permissions); build files.  Failures of \<open>malloc\<close> and \<open>new\<close> are not
  modelled except where the code tests for them.  Data races on memory that the code shares without
  a lock are outside of the step relations: a step is what a thread does between two waits.
\<close>

end
